(* ===== verification/Prelude.thy ===== *)
theory Prelude
  imports Main "HOL-Library.Multiset" "HOL-Library.Signed_Division"
begin

text \<open>
  Shared vocabulary of the MiniBerryOS model: the error values that stand for the
  undefined behaviour of the C++ sources (an out-of-range array or vector read, a task
  deleting itself through a \<open>NULL\<close> handle, a use after free, a buffer overflow, an
  uninitialised local, a bad \<open>float\<close> to \<open>int\<close> conversion), the checked C-style indexing
  and conversion used by every component, loops whose iterations may fail, and the
  generic list and multiset lemmas the component theories share.  The collection \<open>model_defs\<close> gathers
  the definitions that component proofs unfold together.
\<close>

named_theorems model_defs "definitions of the model unfolded together by component proofs"

section \<open>Errors as values\<close>

text \<open>
  The C++ code never checks an index: \<open>menu[button_index]\<close>, \<open>filenames[i]\<close> and
  \<open>filenames[file_index]\<close> are plain reads of a C array or a \<open>std::vector\<close>, undefined
  when out of range.  The same holds for a frame-buffer pointer used after the camera
  driver freed its pool, and for a \<open>sprintf\<close> longer than its destination buffer.  The
  model makes each such operation a value of the sum type: \<open>Inl\<close> of an error naming
  the object involved.
\<close>

datatype error =
    OutOfRange string int  \<comment> \<open>array or vector read at an index outside it\<close>
  | DeletedCaller          \<comment> \<open>\<open>vTaskDelete(NULL)\<close>: the calling task deletes itself\<close>
  | UseAfterFree string    \<comment> \<open>a pointer into memory that has been freed is dereferenced\<close>
  | BufferOverflow string nat  \<comment> \<open>a write of that many bytes into a fixed-size buffer\<close>
  | Uninitialised string   \<comment> \<open>a local variable read before any assignment\<close>
  | FloatToInt string      \<comment> \<open>a \<open>float\<close> that is infinite, NaN or too large converted to \<open>int\<close>\<close>

type_synonym 'a result = "error + 'a"

definition c_index :: "string \<Rightarrow> 'a list \<Rightarrow> int \<Rightarrow> 'a result" where
  "c_index nm xs i = (if 0 \<le> i \<and> i < int (length xs) then Inr (xs ! nat i) else Inl (OutOfRange nm i))"

text \<open>
  C's integer \<open>/\<close> truncates toward zero: \<open>sdiv\<close> (HOL-Library.Signed_Division).  A
  \<open>float\<close> expression \<open>p / (float) q\<close> assigned to an \<open>int\<close> is taken as the exact quotient
  truncated toward zero (single-precision rounding is not modelled); the conversion is
  undefined when \<open>q = 0\<close> (the quotient is infinite or NaN) or when the truncated value is
  outside the 32-bit \<open>int\<close> range.
\<close>

type_synonym c_float = "int \<times> int"  \<comment> \<open>a \<open>float\<close> held exactly as the fraction \<open>p / q\<close>\<close>

definition c_float_to_int :: "string \<Rightarrow> int \<Rightarrow> int \<Rightarrow> int result" where
  "c_float_to_int nm p q =
     (if q = 0 then Inl (FloatToInt nm)
      else let v = p sdiv q in if - (2 ^ 31) \<le> v \<and> v < 2 ^ 31 then Inr v else Inl (FloatToInt nm))"

text \<open>A \<open>float\<close> whose conversion to \<open>int\<close> is defined.\<close>

definition c_float_ok :: "c_float \<Rightarrow> bool" where
  "c_float_ok x \<longleftrightarrow> snd x \<noteq> 0 \<and> - (2 ^ 31) \<le> fst x sdiv snd x \<and> fst x sdiv snd x < 2 ^ 31"

text \<open>A loop whose every iteration may fail: the first error ends it.\<close>

fun map_result :: "('a \<Rightarrow> 'b result) \<Rightarrow> 'a list \<Rightarrow> 'b list result" where
  "map_result f [] = Inr []"
| "map_result f (x # xs) =
     (case f x of Inl e \<Rightarrow> Inl e | Inr y \<Rightarrow> (case map_result f xs of Inl e \<Rightarrow> Inl e | Inr ys \<Rightarrow> Inr (y # ys)))"

text \<open>A loop that updates a state and may fail at any iteration.\<close>

fun fold_result :: "('a \<Rightarrow> 's \<Rightarrow> 's result) \<Rightarrow> 'a list \<Rightarrow> 's \<Rightarrow> 's result" where
  "fold_result f [] s = Inr s"
| "fold_result f (x # xs) s = (case f x s of Inl e \<Rightarrow> Inl e | Inr s' \<Rightarrow> fold_result f xs s')"

lemma c_index_in_range [simp]:
  "0 \<le> i \<Longrightarrow> i < int (length xs) \<Longrightarrow> c_index nm xs i = Inr (xs ! nat i)"
  by (simp add: c_index_def)

lemma c_index_out_of_range [simp]:
  "\<not> (0 \<le> i \<and> i < int (length xs)) \<Longrightarrow> c_index nm xs i = Inl (OutOfRange nm i)"
  by (simp add: c_index_def)

lemma c_index_Inr_iff:
  "c_index nm xs i = Inr x \<longleftrightarrow> 0 \<le> i \<and> i < int (length xs) \<and> x = xs ! nat i"
  by (auto simp: c_index_def)

lemma c_index_isl_iff:
  "isl (c_index nm xs i) \<longleftrightarrow> i < 0 \<or> int (length xs) \<le> i"
  by (auto simp: c_index_def)

lemma map_result_Inr:
  "(\<And>x. x \<in> set xs \<Longrightarrow> f x = Inr (g x)) \<Longrightarrow> map_result f xs = Inr (map g xs)"
  by (induction xs) auto

lemma map_result_Inl:
  "map_result f xs = Inl e \<Longrightarrow> \<exists>x \<in> set xs. f x = Inl e"
  by (induction xs) (auto split: sum.splits)

lemma sdiv_nonneg_int: "0 \<le> a \<Longrightarrow> 0 < (b::int) \<Longrightarrow> a sdiv b = a div b"
  by (cases "a = 0") (simp_all add: signed_divide_int_def)

lemma c_float_to_int_nonneg:
  "0 \<le> p \<Longrightarrow> 0 < q \<Longrightarrow>
   c_float_to_int nm p q = (if p div q < 2 ^ 31 then Inr (p div q) else Inl (FloatToInt nm))"
  using pos_imp_zdiv_nonneg_iff [of q p] by (simp add: c_float_to_int_def Let_def sdiv_nonneg_int)

lemma c_float_to_int_ok: "c_float_ok (p, q) \<Longrightarrow> c_float_to_int nm p q = Inr (p sdiv q)"
  by (simp add: c_float_ok_def c_float_to_int_def Let_def)

lemma c_float_ok_nonneg: "0 \<le> p \<Longrightarrow> 0 < q \<Longrightarrow> c_float_ok (p, q) \<longleftrightarrow> p div q < 2 ^ 31"
  using pos_imp_zdiv_nonneg_iff [of q p] by (simp add: c_float_ok_def sdiv_nonneg_int)

lemma c_float_to_int_Inl: "c_float_to_int nm p q = Inl e \<Longrightarrow> e = FloatToInt nm"
  by (auto simp: c_float_to_int_def Let_def split: if_splits)

lemma fold_result_append:
  "fold_result f (xs @ ys) s = (case fold_result f xs s of Inl e \<Rightarrow> Inl e | Inr s' \<Rightarrow> fold_result f ys s')"
  by (induction xs arbitrary: s) (auto split: sum.splits)

lemma fold_result_invariant:
  assumes "P s" and "\<And>x s. x \<in> set xs \<Longrightarrow> P s \<Longrightarrow> \<exists>s'. f x s = Inr s' \<and> P s'"
  shows "\<exists>s'. fold_result f xs s = Inr s' \<and> P s'"
  using assms by (induction xs arbitrary: s) fastforce+

section \<open>Lists\<close>

text \<open>Appending to a list and taking it apart again, the shape of every FIFO proof.\<close>

lemma take_append_length_le:
  "n \<le> length xs \<Longrightarrow> take n (xs @ ys) = take n xs"
  by simp

lemma set_replicate_subset [simp]: "set (replicate k x) \<subseteq> {x}"
  by (induction k) auto

lemma length_filter_conj_le:
  "length (filter (\<lambda>x. Q x \<and> P x) xs) \<le> length (filter P xs)"
  by (induction xs) auto

lemma mset_remove1_member [simp]:
  "x \<in> set xs \<Longrightarrow> add_mset x (mset (remove1 x xs)) = mset xs"
  by (induction xs) auto

lemma distinct_count_mset_1:
  "distinct xs \<Longrightarrow> x \<in> set xs \<Longrightarrow> count (mset xs) x = 1"
  by (induction xs) auto

lemma count_mset_append [simp]:
  "count (mset (xs @ ys)) x = count (mset xs) x + count (mset ys) x"
  by simp

end
