(* ===== verification/Queue.thy ===== *)
theory Queue
  imports Prelude
begin

text \<open>
  The message bus.  Every channel of MiniBerryOS is a FreeRTOS queue created by
  \<open>initQueues\<close> (src/helpers.cpp) with a fixed length, and the code uses exactly three
  queue operations, always with a zero timeout, so no call ever blocks:
  \<^item> \<open>xQueueSend(q, &x, 0)\<close>: append at the back if there is room, report failure and
    leave the queue unchanged otherwise;
  \<^item> \<open>xQueueOverwrite(q, &x)\<close>: on a queue of length one, replace the pending item;
  \<^item> \<open>xQueueReceive(q, &x, 0)\<close>: take the front item, or fail at once on an empty queue.
  A queue is its length and the list of its items, front first.  The FreeRTOS kernel is
  a library the sources only call: these definitions model its documented contract.
\<close>

record 'a queue =
  q_len :: nat
  q_items :: "'a list"

definition xQueueCreate :: "nat \<Rightarrow> 'a queue" where
  "xQueueCreate n = \<lparr>q_len = n, q_items = []\<rparr>"

definition xQueueSend :: "'a queue \<Rightarrow> 'a \<Rightarrow> bool \<times> 'a queue" where
  "xQueueSend q x =
     (if length (q_items q) < q_len q then (True, q\<lparr>q_items := q_items q @ [x]\<rparr>) else (False, q))"

definition xQueueOverwrite :: "'a queue \<Rightarrow> 'a \<Rightarrow> 'a queue" where
  "xQueueOverwrite q x = q\<lparr>q_items := [x]\<rparr>"

definition xQueueReceive :: "'a queue \<Rightarrow> ('a \<times> 'a queue) option" where
  "xQueueReceive q = (case q_items q of [] \<Rightarrow> None | x # xs \<Rightarrow> Some (x, q\<lparr>q_items := xs\<rparr>))"

text \<open>The well-formedness of a queue: it never holds more items than its length.\<close>

definition queue_wf :: "'a queue \<Rightarrow> bool" where
  "queue_wf q \<longleftrightarrow> length (q_items q) \<le> q_len q"

declare xQueueCreate_def [model_defs] xQueueSend_def [model_defs]
  xQueueOverwrite_def [model_defs] xQueueReceive_def [model_defs] queue_wf_def [model_defs]

text \<open>Sending a list of items one after another, keeping the queue (the producer's loop).\<close>

fun send_all :: "'a queue \<Rightarrow> 'a list \<Rightarrow> 'a queue" where
  "send_all q [] = q"
| "send_all q (x # xs) = send_all (snd (xQueueSend q x)) xs"

fun overwrite_all :: "'a queue \<Rightarrow> 'a list \<Rightarrow> 'a queue" where
  "overwrite_all q [] = q"
| "overwrite_all q (x # xs) = overwrite_all (xQueueOverwrite q x) xs"

text \<open>Receiving until the queue is empty, collecting what was received (the consumer's loop).\<close>

function drain :: "'a queue \<Rightarrow> 'a list \<times> 'a queue" where
  "drain q = (case xQueueReceive q of
                None \<Rightarrow> ([], q)
              | Some (x, q') \<Rightarrow> (let (xs, q'') = drain q' in (x # xs, q'')))"
  by pat_completeness auto
termination
  by (relation "measure (\<lambda>q. length (q_items q))")
     (auto simp: xQueueReceive_def split: list.splits)

section \<open>Basic facts\<close>

lemma xQueueSend_len [simp]: "q_len (snd (xQueueSend q x)) = q_len q"
  by (simp add: xQueueSend_def)

lemma xQueueSend_ok_iff: "fst (xQueueSend q x) \<longleftrightarrow> length (q_items q) < q_len q"
  by (simp add: xQueueSend_def)

lemma xQueueSend_items:
  "q_items (snd (xQueueSend q x)) =
     (if length (q_items q) < q_len q then q_items q @ [x] else q_items q)"
  by (simp add: xQueueSend_def)

lemma xQueueReceive_None_iff [simp]: "xQueueReceive q = None \<longleftrightarrow> q_items q = []"
  by (simp add: xQueueReceive_def split: list.splits)

lemma xQueueReceive_empty [simp]: "q_items q = [] \<Longrightarrow> xQueueReceive q = None"
  by (simp add: xQueueReceive_def)

lemma xQueueReceive_Cons [simp]:
  "q_items q = x # xs \<Longrightarrow> xQueueReceive q = Some (x, q\<lparr>q_items := xs\<rparr>)"
  by (simp add: xQueueReceive_def)

lemma xQueueReceive_Some_iff:
  "xQueueReceive q = Some (x, q') \<longleftrightarrow>
     (\<exists>xs. q_items q = x # xs \<and> q' = q\<lparr>q_items := xs\<rparr>)"
  by (auto simp: xQueueReceive_def split: list.splits)

lemma xQueueReceive_len:
  "xQueueReceive q = Some (x, q') \<Longrightarrow> q_len q' = q_len q"
  by (auto simp: xQueueReceive_Some_iff)

lemma drain_empty_queue:
  "drain q = (xs, q') \<Longrightarrow> q_items q' = [] \<and> q_len q' = q_len q"
proof (induction q arbitrary: xs q' rule: drain.induct)
  case (1 q)
  show ?case
  proof (cases "q_items q")
    case Nil
    with "1.prems" show ?thesis by (simp add: xQueueReceive_def)
  next
    case (Cons y ys)
    then have r: "xQueueReceive q = Some (y, q\<lparr>q_items := ys\<rparr>)"
      by (simp add: xQueueReceive_def)
    obtain zs q'' where d: "drain (q\<lparr>q_items := ys\<rparr>) = (zs, q'')" by fastforce
    with "1.prems" r have "q' = q''" by simp
    with "1.IH" [OF r refl d] show ?thesis by simp
  qed
qed

lemma drain_items:
  "fst (drain q) = q_items q"
proof (induction q rule: drain.induct)
  case (1 q)
  show ?case
  proof (cases "q_items q")
    case Nil
    then show ?thesis by (simp add: xQueueReceive_def)
  next
    case (Cons y ys)
    then have r: "xQueueReceive q = Some (y, q\<lparr>q_items := ys\<rparr>)"
      by (simp add: xQueueReceive_def)
    obtain zs q'' where d: "drain (q\<lparr>q_items := ys\<rparr>) = (zs, q'')" by fastforce
    from "1.IH" [OF r refl] d have "zs = ys" by simp
    with r d Cons show ?thesis by simp
  qed
qed

section \<open>Well-formedness is kept\<close>

lemma xQueueCreate_wf: "queue_wf (xQueueCreate n)"
  by (simp add: xQueueCreate_def queue_wf_def)

lemma xQueueSend_wf: "queue_wf q \<Longrightarrow> queue_wf (snd (xQueueSend q x))"
  by (simp add: xQueueSend_def queue_wf_def)

lemma xQueueOverwrite_wf: "0 < q_len q \<Longrightarrow> queue_wf (xQueueOverwrite q x)"
  by (simp add: xQueueOverwrite_def queue_wf_def)

lemma xQueueReceive_wf: "queue_wf q \<Longrightarrow> xQueueReceive q = Some (x, q') \<Longrightarrow> queue_wf q'"
  by (auto simp: xQueueReceive_Some_iff queue_wf_def)

lemma send_all_len [simp]: "q_len (send_all q xs) = q_len q"
  by (induction xs arbitrary: q) auto

lemma send_all_wf: "queue_wf q \<Longrightarrow> queue_wf (send_all q xs)"
  by (induction xs arbitrary: q) (auto intro: xQueueSend_wf)

section \<open>Channel policies\<close>

text \<open>
  A full queue refuses a send and is left exactly as it was: the item is dropped, the
  producer is told so and goes on.
\<close>

lemma xQueueSend_full:
  "q_len q \<le> length (q_items q) \<Longrightarrow> xQueueSend q x = (False, q)"
  by (simp add: xQueueSend_def)

text \<open>
  A producer's burst of non-blocking sends into a well-formed queue keeps the items sent
  while there was room, in the order sent, after the items already waiting, and drops
  every later one.
\<close>

lemma send_all_items:
  "queue_wf q \<Longrightarrow>
   q_items (send_all q xs) = q_items q @ take (q_len q - length (q_items q)) xs"
proof (induction xs arbitrary: q)
  case Nil
  then show ?case by simp
next
  case (Cons x xs)
  show ?case
  proof (cases "length (q_items q) < q_len q")
    case True
    let ?q1 = "q\<lparr>q_items := q_items q @ [x]\<rparr>"
    have wf1: "queue_wf ?q1" using True by (simp add: queue_wf_def)
    have "q_len q - length (q_items q) = Suc (q_len q - Suc (length (q_items q)))"
      using True by arith
    with True Cons.IH [OF wf1] show ?thesis by (simp add: xQueueSend_def)
  next
    case False
    with Cons.prems have full: "length (q_items q) = q_len q" by (simp add: queue_wf_def)
    with Cons.IH [OF Cons.prems] show ?thesis by (simp add: xQueueSend_def)
  qed
qed

lemma overwrite_all_items:
  "xs \<noteq> [] \<Longrightarrow> overwrite_all q xs = q\<lparr>q_items := [last xs]\<rparr>"
proof (induction xs arbitrary: q)
  case Nil
  then show ?case by simp
next
  case (Cons x xs)
  then show ?case by (cases xs) (simp_all add: xQueueOverwrite_def)
qed

lemma overwrite_freshness:
  "xs \<noteq> [] \<Longrightarrow> xQueueReceive (overwrite_all q xs) = Some (last xs, q\<lparr>q_items := []\<rparr>)"
  by (simp add: overwrite_all_items)

end
