(* ===== verification/Rtos.thy ===== *)
theory Rtos
  imports Prelude
begin

text \<open>
  The FreeRTOS task table, as far as MiniBerryOS uses it.  \<open>setup()\<close> (src/main.cpp)
  creates the permanent tasks; the display task creates and deletes the camera and SD
  workers as the user moves between screens (src/tasks.cpp, src/button_handlers.cpp).
  A task is named by the function it runs; each created task gets a fresh identifier,
  which the code keeps in a \<open>TaskHandle_t\<close> global (\<open>None\<close> is a \<open>NULL\<close> handle).
  FreeRTOS's \<open>vTaskDelete(NULL)\<close> and \<open>vTaskSuspend(NULL)\<close> act on the calling task,
  so both take the caller.  This is the kernel's documented contract, not code of the
  repository.
\<close>

datatype task_fn =
    loopTask  \<comment> \<open>the Arduino task that runs \<open>setup()\<close>\<close>
  | displayTask | buttonTask | systemDataTask | wifiDataTask | ntpTimeTask
  | frameCaptureTask | saveFrameToSDTask | deleteFromSDTask

type_synonym tid = nat

record rtos =
  next_tid :: tid
  live :: "(tid \<times> task_fn) list"
  suspended :: "tid list"

definition xTaskCreate :: "task_fn \<Rightarrow> rtos \<Rightarrow> tid \<times> rtos" where
  "xTaskCreate f r =
     (next_tid r, r\<lparr>live := live r @ [(next_tid r, f)], next_tid := Suc (next_tid r)\<rparr>)"

definition target :: "tid \<Rightarrow> tid option \<Rightarrow> tid" where
  "target caller h = (case h of None \<Rightarrow> caller | Some t \<Rightarrow> t)"

definition vTaskDelete :: "tid \<Rightarrow> tid option \<Rightarrow> rtos \<Rightarrow> rtos" where
  "vTaskDelete caller h r =
     r\<lparr>live := filter (\<lambda>(i, _). i \<noteq> target caller h) (live r),
       suspended := removeAll (target caller h) (suspended r)\<rparr>"

definition vTaskSuspend :: "tid \<Rightarrow> tid option \<Rightarrow> rtos \<Rightarrow> rtos" where
  "vTaskSuspend caller h r = r\<lparr>suspended := List.insert (target caller h) (suspended r)\<rparr>"

text \<open>A task runs its loop body when it is alive and not suspended.\<close>

definition runnable :: "rtos \<Rightarrow> tid \<Rightarrow> task_fn \<Rightarrow> bool" where
  "runnable r t f \<longleftrightarrow> (t, f) \<in> set (live r) \<and> t \<notin> set (suspended r)"

definition instances :: "task_fn \<Rightarrow> rtos \<Rightarrow> nat" where
  "instances f r = length (filter (\<lambda>(_, g). g = f) (live r))"

definition rtos_wf :: "rtos \<Rightarrow> bool" where
  "rtos_wf r \<longleftrightarrow> distinct (map fst (live r)) \<and> (\<forall>(t, _) \<in> set (live r). t < next_tid r)"

declare xTaskCreate_def [model_defs] vTaskDelete_def [model_defs] vTaskSuspend_def [model_defs]
  target_def [model_defs] instances_def [model_defs]

section \<open>The task table\<close>

lemma xTaskCreate_fresh:
  "rtos_wf r \<Longrightarrow> fst (xTaskCreate f r) \<notin> fst ` set (live r)"
  by (auto simp: rtos_wf_def xTaskCreate_def)

lemma xTaskCreate_wf: "rtos_wf r \<Longrightarrow> rtos_wf (snd (xTaskCreate f r))"
  by (fastforce simp: rtos_wf_def xTaskCreate_def)

lemma vTaskDelete_wf: "rtos_wf r \<Longrightarrow> rtos_wf (vTaskDelete c h r)"
  by (fastforce simp: rtos_wf_def vTaskDelete_def distinct_map_filter)

lemma vTaskSuspend_wf: "rtos_wf r \<Longrightarrow> rtos_wf (vTaskSuspend c h r)"
  by (simp add: rtos_wf_def vTaskSuspend_def)

lemma instances_create [simp]:
  "instances g (snd (xTaskCreate f r)) = instances g r + (if f = g then 1 else 0)"
  by (simp add: instances_def xTaskCreate_def)

lemma instances_suspend [simp]: "instances g (vTaskSuspend c h r) = instances g r"
  by (simp add: instances_def vTaskSuspend_def)

lemma instances_delete_le: "instances g (vTaskDelete c h r) \<le> instances g r"
  by (simp add: instances_def vTaskDelete_def length_filter_conj_le)

lemma instances_delete_member:
  assumes "rtos_wf r" and "(t, g) \<in> set (live r)"
  shows "instances g (vTaskDelete c (Some t) r) = instances g r - 1"
proof -
  from assms obtain xs ys where split: "live r = xs @ (t, g) # ys"
    by (meson split_list)
  with assms(1) have "t \<notin> fst ` set xs" and "t \<notin> fst ` set ys"
    by (auto simp: rtos_wf_def)
  then have "filter (\<lambda>(i, _). i \<noteq> t) xs = xs" and "filter (\<lambda>(i, _). i \<noteq> t) ys = ys"
    by (force simp: filter_id_conv)+
  with split show ?thesis
    by (simp add: instances_def vTaskDelete_def target_def)
qed

end
