(* ===== verification/CameraDriver.thy ===== *)
theory CameraDriver
  imports Prelude
begin

text \<open>
  The camera driver (esp32-camera) as the core uses it, a collaborator outside the
  repository specified by its interface (spec, section 6, FrameBuffer boundary).  The
  driver owns a pool of \<open>fb_count\<close> frame buffers; \<open>esp_camera_fb_get\<close> hands one out,
  \<open>esp_camera_fb_return\<close> gives one back, \<open>esp_camera_return_all\<close> takes every buffer
  back, and \<open>esp_camera_deinit\<close> frees the pool.  A frame buffer pointer is modelled as
  the pair of the driver's incarnation (counted up by every successful
  \<open>esp_camera_init\<close>) and the slot in the pool, so that a pointer kept across a
  deinitialisation is recognisably stale.  The list \<open>cam_free\<close> is the driver's queue of
  free buffers; a buffer returned twice appears twice in it.
\<close>

type_synonym fb = "nat \<times> nat"

record cam =
  cam_on :: bool
  cam_gen :: nat
  cam_slots :: nat
  cam_free :: "fb list"

definition cam_off :: cam where
  "cam_off = \<lparr>cam_on = False, cam_gen = 0, cam_slots = 0, cam_free = []\<rparr>"

definition cam_pool :: "cam \<Rightarrow> fb list" where
  "cam_pool c = map (Pair (cam_gen c)) [0..<cam_slots c]"

text \<open>\<open>esp_camera_init\<close>; \<open>probe_ok\<close> is whether the sensor answers (hardware).\<close>

definition esp_camera_init :: "bool \<Rightarrow> nat \<Rightarrow> cam \<Rightarrow> bool \<times> cam" where
  "esp_camera_init probe_ok n c =
     (if cam_on c \<or> \<not> probe_ok then (False, c)
      else (True, \<lparr>cam_on = True, cam_gen = Suc (cam_gen c), cam_slots = n,
                   cam_free = map (Pair (Suc (cam_gen c))) [0..<n]\<rparr>))"

definition esp_camera_fb_get :: "cam \<Rightarrow> (fb \<times> cam) option" where
  "esp_camera_fb_get c =
     (if cam_on c then (case cam_free c of [] \<Rightarrow> None | f # fs \<Rightarrow> Some (f, c\<lparr>cam_free := fs\<rparr>))
      else None)"

definition esp_camera_fb_return :: "fb \<Rightarrow> cam \<Rightarrow> cam" where
  "esp_camera_fb_return f c = (if cam_on c then c\<lparr>cam_free := cam_free c @ [f]\<rparr> else c)"

definition esp_camera_return_all :: "cam \<Rightarrow> cam" where
  "esp_camera_return_all c = (if cam_on c then c\<lparr>cam_free := cam_pool c\<rparr> else c)"

definition esp_camera_deinit :: "cam \<Rightarrow> cam" where
  "esp_camera_deinit c = c\<lparr>cam_on := False, cam_free := []\<rparr>"

text \<open>A pointer is stale when the pool it came from has been freed.\<close>

definition stale :: "cam \<Rightarrow> fb \<Rightarrow> bool" where
  "stale c f \<longleftrightarrow> \<not> cam_on c \<or> fst f \<noteq> cam_gen c"

declare esp_camera_init_def [model_defs] esp_camera_fb_get_def [model_defs]
  esp_camera_fb_return_def [model_defs] esp_camera_return_all_def [model_defs]
  esp_camera_deinit_def [model_defs] cam_pool_def [model_defs] stale_def [model_defs]

lemma esp_camera_fb_get_Some:
  "esp_camera_fb_get c = Some (f, c') \<longleftrightarrow>
     cam_on c \<and> cam_free c = f # cam_free c' \<and> c' = c\<lparr>cam_free := tl (cam_free c)\<rparr>"
  by (auto simp: esp_camera_fb_get_def split: list.splits)

lemma esp_camera_fb_get_frame:
  "esp_camera_fb_get c = Some (f, c') \<Longrightarrow> cam_on c' \<and> cam_gen c' = cam_gen c \<and> cam_slots c' = cam_slots c"
  by (auto simp: esp_camera_fb_get_def split: if_splits list.splits)

lemma stale_deinit [simp]: "stale (esp_camera_deinit c) f"
  by (simp add: stale_def esp_camera_deinit_def)

lemma mset_cam_pool_distinct: "distinct (cam_pool c)"
  by (simp add: cam_pool_def distinct_map inj_on_def)

end
