(* ===== verification/Globals.thy ===== *)
theory Globals
  imports Queue Rtos CameraDriver "HOL-Library.Word"
begin

text \<open>
  The shared state of MiniBerryOS: the enums and structs of src/globals.h and every
  global variable of src/globals.cpp, gathered in one record \<open>sys\<close>, together with the
  parts of the environment the handlers act on (the FreeRTOS task table, the camera
  driver, the SD card's root directory, the NTP clock).  Every task of the model reads
  and returns this record, as every task of the program reads and writes these globals.
  The record also holds the two \<open>static\<close> locals of \<open>drawFiles\<close> (src/display.cpp), the
  viewport of the file list, and the \<open>static\<close> locals of \<open>updateGame1\<close>, the Pong game's
  state, which persist across calls exactly as globals do.
\<close>

section \<open>Enums and structs (src/globals.h)\<close>

datatype button_state = NONE | UP | DOWN | SELECT | BACK

datatype display_state =
    BOOT | MENU | CAMERA_FEED | SD_CARD | SYSTEM_DATA | WIFI | GAMES | GAME1 | GAME2 | GAME3

record menu_item =
  label :: string
  next_state :: display_state

record system_info =
  min_free_heap :: int
  cpu_freq :: int
  uptime :: nat

record wifi_info =
  wifi_ssid :: string
  wifi_ip :: string
  wifi_rssi :: int
  wifi_mac :: string
  nearby :: "string list"
  nearbyCount :: int

record tm =
  tm_year :: int
  tm_mon :: int
  tm_mday :: int
  tm_hour :: int
  tm_min :: int
  tm_sec :: int

section \<open>Configuration constants (src/globals.h)\<close>

definition UP_ADC :: int where "UP_ADC = 1015"
definition DOWN_ADC :: int where "DOWN_ADC = 2048"
definition SELECT_ADC :: int where "SELECT_ADC = 3141"
definition BACK_ADC :: int where "BACK_ADC = 4095"

definition BUTTON_QUEUE_SIZE :: nat where "BUTTON_QUEUE_SIZE = 3"
definition FRAME_DISPLAY_QUEUE_SIZE :: nat where "FRAME_DISPLAY_QUEUE_SIZE = 1"
definition FRAME_SAVE_QUEUE_SIZE :: nat where "FRAME_SAVE_QUEUE_SIZE = 1"
definition SYS_INFO_QUEUE_SIZE :: nat where "SYS_INFO_QUEUE_SIZE = 1"
definition FILE_DELETE_QUEUE_SIZE :: nat where "FILE_DELETE_QUEUE_SIZE = 5"
definition WIFI_QUEUE_SIZE :: nat where "WIFI_QUEUE_SIZE = 1"

definition SCREEN_HEIGHT :: int where "SCREEN_HEIGHT = 320"
definition SCREEN_WIDTH :: int where "SCREEN_WIDTH = 240"
definition STATUS_BAR_HEIGHT :: int where "STATUS_BAR_HEIGHT = 20"
definition MENU_ITEM_HEIGHT :: int where "MENU_ITEM_HEIGHT = 60"

definition NUM_SYS_DATA_POINTS :: nat where "NUM_SYS_DATA_POINTS = 60"
definition MAX_WIFI :: int where "MAX_WIFI = 8"
definition MAX_FILENAME_LENGTH :: nat where "MAX_FILENAME_LENGTH = 32"
definition MAIN_MENU_SIZE :: int where "MAIN_MENU_SIZE = 5"
definition GAMES_MENU_SIZE :: int where "GAMES_MENU_SIZE = 3"

text \<open>\<open>camera_config.fb_count\<close>: the number of frame buffers the driver allocates.\<close>

definition camera_fb_count :: nat where "camera_fb_count = 5"

lemmas config_defs = UP_ADC_def DOWN_ADC_def SELECT_ADC_def BACK_ADC_def
  BUTTON_QUEUE_SIZE_def FRAME_DISPLAY_QUEUE_SIZE_def FRAME_SAVE_QUEUE_SIZE_def
  SYS_INFO_QUEUE_SIZE_def FILE_DELETE_QUEUE_SIZE_def WIFI_QUEUE_SIZE_def
  NUM_SYS_DATA_POINTS_def MAX_WIFI_def MAX_FILENAME_LENGTH_def MAIN_MENU_SIZE_def
  GAMES_MENU_SIZE_def camera_fb_count_def SCREEN_HEIGHT_def SCREEN_WIDTH_def STATUS_BAR_HEIGHT_def
  MENU_ITEM_HEIGHT_def

section \<open>Menus (src/globals.cpp)\<close>

definition main_menu :: "menu_item list" where
  "main_menu =
     [\<lparr>label = ''System Data'', next_state = SYSTEM_DATA\<rparr>,
      \<lparr>label = ''Wifi'', next_state = WIFI\<rparr>,
      \<lparr>label = ''Camera Feed'', next_state = CAMERA_FEED\<rparr>,
      \<lparr>label = ''SD Card'', next_state = SD_CARD\<rparr>,
      \<lparr>label = ''Games'', next_state = GAMES\<rparr>]"

definition games_menu :: "menu_item list" where
  "games_menu =
     [\<lparr>label = ''Pong'', next_state = GAME1\<rparr>,
      \<lparr>label = ''Game 2'', next_state = GAME2\<rparr>,
      \<lparr>label = ''Game 3'', next_state = GAME3\<rparr>]"

section \<open>Screen geometry and the Pong game's statics (src/globals.h, src/display.cpp)\<close>

text \<open>
  The \<open>static\<close> locals of \<open>updateGame1\<close> (src/display.cpp): the ball's direction flags,
  the collision and loss flags, and the top-left corners of the paddle and the ball.
\<close>

record pong =
  x_rev :: bool
  y_rev :: bool
  paddle_hit :: bool
  lose_flag :: bool
  paddle_x :: int
  paddle_y :: int
  ball_x :: int
  ball_y :: int

text \<open>
  Their initialisers, with \<open>paddle_h = 60\<close>, \<open>paddle_w = 10\<close>, \<open>ball_r = 7\<close>; C's \<open>/\<close>
  on these non-negative operands is \<open>div\<close>.
\<close>

definition pong_init :: pong where
  "pong_init =
     (let px = 0; py = STATUS_BAR_HEIGHT + (SCREEN_HEIGHT - STATUS_BAR_HEIGHT) div 2 - 60 div 2
      in \<lparr>x_rev = False, y_rev = False, paddle_hit = False, lose_flag = False,
          paddle_x = px, paddle_y = py, ball_x = px + 10, ball_y = py + 60 div 2 - 7\<rparr>)"

text \<open>
  The globals only the display task's drawing code touches: \<open>last_button_index\<close> (the
  highlighted menu row), the frame rates \<open>fps\<close> and \<open>prev_fps\<close> (\<open>float\<close>, held exactly),
  and \<open>prev_min\<close>, the \<open>static\<close> of \<open>drawStatusBar\<close> (src/display.cpp) that remembers
  the minute last drawn.
\<close>

record display_ui =
  last_button_index :: int
  prev_fps :: c_float
  fps :: c_float
  prev_min :: int

section \<open>Global variables (src/globals.cpp) and the environment\<close>

record sys =
  display_state :: display_state
  prev_state :: display_state
  button_state :: button_state
  button_index :: int
  game_input :: char
  camera_init :: bool
  save_next_frame :: bool
  menu_init :: bool
  image_view :: bool
  image_shown :: bool
  file_index :: int
  prev_file_index :: int
  filenames :: "string list"
  num_files :: int
  heap_usage :: "int list"
  min_heap :: int
  max_heap :: int
  frame_display_queue :: "fb queue"
  frame_save_queue :: "fb queue"
  button_queue :: "button_state queue"
  sys_info_queue :: "system_info queue"
  file_delete_queue :: "string queue"
  wifi_queue :: "wifi_info queue"
  frameCaptureTask_handle :: "tid option"
  saveFrameToSDTask_handle :: "tid option"
  deleteFromSDTask_handle :: "tid option"
  frames :: int
  now_ms :: "32 word"
  before_ms :: "32 word"
  t :: tm
  files_start :: int   \<comment> \<open>\<open>static int start\<close> of \<open>drawFiles\<close>\<close>
  files_end :: int     \<comment> \<open>\<open>static int end\<close> of \<open>drawFiles\<close>\<close>
  game1 :: pong        \<comment> \<open>the statics of \<open>updateGame1\<close>\<close>
  ui :: display_ui     \<comment> \<open>the drawing globals and the static of \<open>drawStatusBar\<close>\<close>
  os :: rtos           \<comment> \<open>environment: the FreeRTOS task table\<close>
  display_tid :: tid   \<comment> \<open>environment: the display task, caller of every handler\<close>
  camera :: cam        \<comment> \<open>environment: the camera driver\<close>
  sd_root :: "string list"  \<comment> \<open>environment: names in the SD card's root directory\<close>

text \<open>
  The initial values of the globals, before \<open>setup()\<close> runs.  The queue handles are
  \<open>NULL\<close> until \<open>initQueues\<close>; a \<open>NULL\<close> queue is modelled as an empty queue of length 0.
  \<open>filenames(2)\<close> constructs a vector of two empty strings.
\<close>

definition globals_init :: "tm \<Rightarrow> string list \<Rightarrow> sys" where
  "globals_init t0 root =
     \<lparr>display_state = BOOT, prev_state = MENU, button_state = NONE, button_index = 0,
      game_input = CHR ''N'', camera_init = False, save_next_frame = False,
      menu_init = False, image_view = False, image_shown = False,
      file_index = 0, prev_file_index = -1, filenames = [[], []], num_files = 0,
      heap_usage = [], min_heap = 100, max_heap = 0,
      frame_display_queue = xQueueCreate 0, frame_save_queue = xQueueCreate 0,
      button_queue = xQueueCreate 0, sys_info_queue = xQueueCreate 0,
      file_delete_queue = xQueueCreate 0, wifi_queue = xQueueCreate 0,
      frameCaptureTask_handle = None, saveFrameToSDTask_handle = None,
      deleteFromSDTask_handle = None,
      frames = 0, now_ms = 0, before_ms = 0, t = t0,
      files_start = 0, files_end = 9, game1 = pong_init,
      ui = \<lparr>last_button_index = 0, prev_fps = (0, 1), fps = (0, 1), prev_min = -1\<rparr>,
      os = \<lparr>next_tid = 1, live = [(0, loopTask)], suspended = []\<rparr>,
      display_tid = 0, camera = cam_off, sd_root = root\<rparr>"

text \<open>A clock reading used by the concrete scenarios of the development.\<close>

definition tm_example :: tm where
  "tm_example = \<lparr>tm_year = 125, tm_mon = 10, tm_mday = 9, tm_hour = 12, tm_min = 30, tm_sec = 5\<rparr>"

section \<open>Queue creation (src/helpers.cpp, initQueues)\<close>

text \<open>
  \<open>initQueues\<close> creates the six queues; if any allocation fails the code prints an error
  and spins in \<open>while(1) {}\<close> for ever.  \<open>alloc\<close> says, queue by queue in the order of
  creation, whether the heap had room; the hang is the value \<open>None\<close>.
\<close>

definition initQueues :: "bool list \<Rightarrow> sys \<Rightarrow> sys option" where
  "initQueues alloc s =
     (if length alloc = 6 \<and> list_all id alloc
      then Some (s\<lparr>button_queue := xQueueCreate BUTTON_QUEUE_SIZE,
                   frame_display_queue := xQueueCreate FRAME_DISPLAY_QUEUE_SIZE,
                   frame_save_queue := xQueueCreate FRAME_SAVE_QUEUE_SIZE,
                   sys_info_queue := xQueueCreate SYS_INFO_QUEUE_SIZE,
                   file_delete_queue := xQueueCreate FILE_DELETE_QUEUE_SIZE,
                   wifi_queue := xQueueCreate WIFI_QUEUE_SIZE\<rparr>)
      else None)"

section \<open>The channels\<close>



text \<open>
  The overwrite-latest channels built by \<open>initQueues\<close> (system data and WiFi, both of
  length one) keep only the freshest value: after any non-empty sequence of
  \<open>xQueueOverwrite\<close> publishes with no read in between, one receive yields the last value
  published and leaves the channel empty (spec, section 8, overwrite-channel freshness).
\<close>

theorem initQueues_overwrite_fresh:
  assumes "initQueues alloc s = Some s'" and "xs \<noteq> []" and "ws \<noteq> []"
  shows "xQueueReceive (overwrite_all (sys_info_queue s') xs) = Some (last xs, xQueueCreate 1) \<and>
         xQueueReceive (overwrite_all (wifi_queue s') ws) = Some (last ws, xQueueCreate 1)"
proof -
  from assms(1) have "sys_info_queue s' = xQueueCreate 1" and "wifi_queue s' = xQueueCreate 1"
    by (auto simp: initQueues_def config_defs split: if_splits)
  with assms(2,3) show ?thesis
    by (simp add: overwrite_freshness xQueueCreate_def)
qed

theorem initQueues_overwrite_fresh_witness:
  "xQueueReceive (overwrite_all (sys_info_queue (the (initQueues [True, True, True, True, True, True] (globals_init tm_example []))))
      [\<lparr>min_free_heap = 1, cpu_freq = 240, uptime = 1\<rparr>, \<lparr>min_free_heap = 2, cpu_freq = 240, uptime = 2\<rparr>,
       \<lparr>min_free_heap = 3, cpu_freq = 240, uptime = 3\<rparr>]) =
     Some (\<lparr>min_free_heap = 3, cpu_freq = 240, uptime = 3\<rparr>, xQueueCreate 1)"
proof -
  have ok: "initQueues [True, True, True, True, True, True] (globals_init tm_example []) =
            Some (the (initQueues [True, True, True, True, True, True] (globals_init tm_example [])))"
    by (simp add: initQueues_def)
  show ?thesis
    using initQueues_overwrite_fresh [OF ok, of "[\<lparr>min_free_heap = 1, cpu_freq = 240, uptime = 1\<rparr>,
       \<lparr>min_free_heap = 2, cpu_freq = 240, uptime = 2\<rparr>, \<lparr>min_free_heap = 3, cpu_freq = 240, uptime = 3\<rparr>]"
       "[undefined]"]
    by simp
qed

lemma main_menu_length [simp]: "length main_menu = 5"
  by (simp add: main_menu_def)

lemma games_menu_length [simp]: "length games_menu = 3"
  by (simp add: games_menu_def)

end
