(* ===== verification/Navigation.thy ===== *)
theory Navigation
  imports Globals
begin

text \<open>
  The navigation state machine: the button handlers of src/button_handlers.cpp for the
  list screens (\<open>handleButtonMenu\<close>, used by MENU and GAMES), the display-only screens
  (\<open>handleButtonSimple\<close>, SYSTEM_DATA and WIFI) and the games
  (\<open>handleButtonGame\<close>).  Each handler first clears \<open>button_state\<close> and tries to take one
  event from \<open>button_queue\<close> without blocking (\<open>button_receive\<close>); it then acts on the event
  received.  A handler returns the new globals, and \<open>handleButtonMenu\<close>, which reads
  \<open>menu[button_index]\<close>, returns an error when that read is out of range.
\<close>

section \<open>Operations\<close>

definition button_receive :: "sys \<Rightarrow> bool \<times> sys" where
  "button_receive s =
     (case xQueueReceive (button_queue s) of
        None \<Rightarrow> (False, s\<lparr>button_state := NONE\<rparr>)
      | Some (b, q) \<Rightarrow> (True, s\<lparr>button_state := b, button_queue := q\<rparr>))"

text \<open>\<open>button_index = (++button_index > (n_buttons - 1)) ? 0 : button_index;\<close> and its mirror.\<close>

definition menu_down :: "int \<Rightarrow> int \<Rightarrow> int" where
  "menu_down n_buttons i = (if i + 1 > n_buttons - 1 then 0 else i + 1)"

definition menu_up :: "int \<Rightarrow> int \<Rightarrow> int" where
  "menu_up n_buttons i = (if i - 1 < 0 then n_buttons - 1 else i - 1)"

definition handleButtonMenu :: "menu_item list \<Rightarrow> int \<Rightarrow> sys \<Rightarrow> sys result" where
  "handleButtonMenu menu n_buttons s =
     (case button_receive s of
        (False, s1) \<Rightarrow> Inr s1
      | (True, s1) \<Rightarrow>
          (if button_state s1 = DOWN then Inr (s1\<lparr>button_index := menu_down n_buttons (button_index s1)\<rparr>)
           else if button_state s1 = UP then Inr (s1\<lparr>button_index := menu_up n_buttons (button_index s1)\<rparr>)
           else if button_state s1 = SELECT then
             (case c_index ''menu'' menu (button_index s1) of
                Inl e \<Rightarrow> Inl e
              | Inr item \<Rightarrow> Inr (s1\<lparr>prev_state := display_state s1, display_state := next_state item,
                                    button_index := 0, menu_init := False\<rparr>))
           else if button_state s1 = BACK then
             Inr (s1\<lparr>display_state := prev_state s1, button_index := 0, menu_init := False\<rparr>)
           else Inr s1))"

definition handleButtonSimple :: "sys \<Rightarrow> sys" where
  "handleButtonSimple s =
     (case button_receive s of
        (False, s1) \<Rightarrow> s1
      | (True, s1) \<Rightarrow>
          (if button_state s1 = BACK
           then s1\<lparr>display_state := MENU, menu_init := False, button_index := 0\<rparr>
           else s1))"

text \<open>
  \<open>handleButtonGame\<close> does not return early when the queue is empty: \<open>button_state\<close>
  is then \<open>NONE\<close> and the game input stays \<open>'N'\<close>.
\<close>

definition handleButtonGame :: "sys \<Rightarrow> char \<times> sys" where
  "handleButtonGame s =
     (let s1 = snd (button_receive (s\<lparr>game_input := CHR ''N''\<rparr>));
          s2 = (if button_state s1 = UP then s1\<lparr>game_input := CHR ''U''\<rparr>
                else if button_state s1 = DOWN then s1\<lparr>game_input := CHR ''D''\<rparr>
                else if button_state s1 = SELECT then s1\<lparr>game_input := CHR ''S''\<rparr>
                else if button_state s1 = BACK then
                  s1\<lparr>display_state := GAMES, prev_state := MENU, menu_init := False,
                     game_input := CHR ''B'', button_index := 0\<rparr>
                else s1)
      in (game_input s2, s2))"

text \<open>
  The part of the globals the navigation state machine owns (spec, NavigationState):
  active screen, previous screen, selection index and the \<open>entered\<close> flag \<open>menu_init\<close>.
\<close>

definition nav :: "sys \<Rightarrow> display_state \<times> display_state \<times> int \<times> bool" where
  "nav s = (display_state s, prev_state s, button_index s, menu_init s)"

text \<open>
  A session on a list screen: at each tick the button task has published one event
  (\<open>xQueueSend\<close>) and the display task handles it (\<open>handleButtonMenu\<close>).
\<close>

fun menu_session :: "menu_item list \<Rightarrow> int \<Rightarrow> button_state list \<Rightarrow> sys \<Rightarrow> sys result" where
  "menu_session menu n [] s = Inr s"
| "menu_session menu n (b # bs) s =
     (case handleButtonMenu menu n (s\<lparr>button_queue := snd (xQueueSend (button_queue s) b)\<rparr>) of
        Inl e \<Rightarrow> Inl e
      | Inr s' \<Rightarrow> menu_session menu n bs s')"

text \<open>No button is waiting: the queue is empty or its front event is \<open>NONE\<close>.\<close>

definition no_press :: "sys \<Rightarrow> bool" where
  "no_press s = (case q_items (button_queue s) of [] \<Rightarrow> True | b # _ \<Rightarrow> b = NONE)"

declare button_receive_def [model_defs] handleButtonMenu_def [model_defs]
  handleButtonSimple_def [model_defs] handleButtonGame_def [model_defs] nav_def [model_defs]

text \<open>A concrete menu screen, used by the scenarios below.\<close>

definition menu_screen_example :: sys where
  "menu_screen_example =
     (globals_init tm_example [])
       \<lparr>display_state := MENU, button_queue := xQueueCreate BUTTON_QUEUE_SIZE\<rparr>"

section \<open>The shared receive step\<close>

lemma button_receive_empty:
  "q_items (button_queue s) = [] \<Longrightarrow> button_receive s = (False, s\<lparr>button_state := NONE\<rparr>)"
  by (simp add: button_receive_def)

lemma button_receive_front:
  "q_items (button_queue s) = b # bs \<Longrightarrow>
   button_receive s = (True, s\<lparr>button_state := b, button_queue := button_queue s\<lparr>q_items := bs\<rparr>\<rparr>)"
  by (simp add: button_receive_def xQueueReceive_def)

lemma button_receive_nav [simp]: "nav (snd (button_receive s)) = nav s"
  by (simp add: button_receive_def nav_def split: option.splits prod.splits)

lemma button_receive_NONE:
  "button_receive s = (True, s1) \<Longrightarrow> button_state s1 = NONE \<Longrightarrow> nav s1 = nav s"
  by (metis button_receive_nav snd_conv)

lemmas button_receive_cases = button_receive_empty button_receive_front

section \<open>Index arithmetic\<close>

lemma menu_down_range: "0 \<le> i \<Longrightarrow> i < n \<Longrightarrow> 0 \<le> menu_down n i \<and> menu_down n i < n"
  by (simp add: menu_down_def)

lemma menu_up_range: "0 \<le> i \<Longrightarrow> i < n \<Longrightarrow> 0 \<le> menu_up n i \<and> menu_up n i < n"
  by (simp add: menu_up_def)

lemma menu_down_mod: "0 \<le> i \<Longrightarrow> i < n \<Longrightarrow> menu_down n i = (i + 1) mod n"
proof (cases "i + 1 = n")
  case True
  then show ?thesis by (simp add: menu_down_def)
next
  case False
  assume "0 \<le> i" "i < n"
  with False show ?thesis by (simp add: menu_down_def)
qed

lemma menu_up_mod: "0 \<le> i \<Longrightarrow> i < n \<Longrightarrow> menu_up n i = (i - 1) mod n"
proof (cases "i = 0")
  case True
  assume "i < n"
  with True have "(i - 1) mod n = n - 1"
    by (simp add: zmod_minus1)
  with True show ?thesis by (simp add: menu_up_def)
next
  case False
  assume "0 \<le> i" "i < n"
  with False show ?thesis by (simp add: menu_up_def)
qed

section \<open>One event\<close>

lemma handleButtonMenu_move:
  assumes "q_items (button_queue s) = b # bs" and "b = DOWN \<or> b = UP"
  shows "handleButtonMenu menu n s =
           Inr (s\<lparr>button_state := b, button_queue := button_queue s\<lparr>q_items := bs\<rparr>,
                  button_index := (if b = DOWN then menu_down n else menu_up n) (button_index s)\<rparr>)"
  using assms by (auto simp: handleButtonMenu_def button_receive_front)

lemma handleButtonMenu_select:
  assumes "q_items (button_queue s) = SELECT # bs"
    and "0 \<le> button_index s" and "button_index s < int (length menu)"
  shows "handleButtonMenu menu n s =
           Inr (s\<lparr>button_state := SELECT, button_queue := button_queue s\<lparr>q_items := bs\<rparr>,
                  prev_state := display_state s,
                  display_state := next_state (menu ! nat (button_index s)),
                  button_index := 0, menu_init := False\<rparr>)"
  using assms by (simp add: handleButtonMenu_def button_receive_front)

lemma handleButtonMenu_back:
  assumes "q_items (button_queue s) = BACK # bs"
  shows "handleButtonMenu menu n s =
           Inr (s\<lparr>button_state := BACK, button_queue := button_queue s\<lparr>q_items := bs\<rparr>,
                  display_state := prev_state s, button_index := 0, menu_init := False\<rparr>)"
  using assms by (simp add: handleButtonMenu_def button_receive_front)

section \<open>Sessions\<close>

lemma send_empty_queue:
  "q_items q = [] \<Longrightarrow> 0 < q_len q \<Longrightarrow> q_items (snd (xQueueSend q b)) = [b]"
  by (simp add: xQueueSend_def)

lemma menu_session_moves:
  assumes "q_items (button_queue s) = []" and "0 < q_len (button_queue s)"
    and "set bs \<subseteq> {b}" and "b = DOWN \<or> b = UP"
  shows "\<exists>s'. menu_session menu n bs s = Inr s' \<and> q_items (button_queue s') = [] \<and>
              q_len (button_queue s') = q_len (button_queue s) \<and>
              nav s' = (display_state s, prev_state s,
                        ((if b = DOWN then menu_down n else menu_up n) ^^ length bs) (button_index s),
                        menu_init s)"
  using assms
proof (induction bs arbitrary: s)
  case Nil
  then show ?case by (simp add: nav_def)
next
  case (Cons c bs)
  let ?s0 = "s\<lparr>button_queue := snd (xQueueSend (button_queue s) c)\<rparr>"
  let ?f = "if b = DOWN then menu_down n else menu_up n"
  from Cons.prems have c: "c = b" by simp
  have q0: "q_items (button_queue ?s0) = [c]"
    using Cons.prems by (simp add: send_empty_queue)
  have step: "handleButtonMenu menu n ?s0 =
      Inr (?s0\<lparr>button_state := c, button_queue := button_queue ?s0\<lparr>q_items := []\<rparr>,
              button_index := (if c = DOWN then menu_down n else menu_up n) (button_index ?s0)\<rparr>)"
    using Cons.prems c by (intro handleButtonMenu_move [OF q0]) simp
  let ?s1 = "?s0\<lparr>button_state := c, button_queue := button_queue ?s0\<lparr>q_items := []\<rparr>,
              button_index := ?f (button_index s)\<rparr>"
  have "\<exists>s'. menu_session menu n bs ?s1 = Inr s' \<and> q_items (button_queue s') = [] \<and>
              q_len (button_queue s') = q_len (button_queue ?s1) \<and>
              nav s' = (display_state ?s1, prev_state ?s1, (?f ^^ length bs) (button_index ?s1),
                        menu_init ?s1)"
    using Cons.prems by (intro Cons.IH) auto
  with step c show ?case by (simp add: funpow_swap1)
qed

lemma menu_down_iter_mod:
  "0 \<le> i \<Longrightarrow> i < n \<Longrightarrow> (menu_down n ^^ k) i = (i + int k) mod n"
proof (induction k)
  case 0
  then show ?case by simp
next
  case (Suc k)
  have "0 \<le> (i + int k) mod n" "(i + int k) mod n < n"
    using Suc.prems by simp_all
  then have "(menu_down n ^^ Suc k) i = ((i + int k) mod n + 1) mod n"
    using Suc by (simp add: menu_down_mod)
  also have "\<dots> = (i + int (Suc k)) mod n"
    by (metis mod_add_left_eq add.assoc of_nat_Suc add.commute)
  finally show ?case .
qed

lemma menu_up_iter_mod:
  "0 \<le> i \<Longrightarrow> i < n \<Longrightarrow> (menu_up n ^^ k) i = (i - int k) mod n"
proof (induction k)
  case 0
  then show ?case by simp
next
  case (Suc k)
  have "0 \<le> (i - int k) mod n" "(i - int k) mod n < n"
    using Suc.prems by simp_all
  then have "(menu_up n ^^ Suc k) i = ((i - int k) mod n - 1) mod n"
    using Suc by (simp add: menu_up_mod)
  also have "\<dots> = (i - int (Suc k)) mod n"
    by (simp add: mod_diff_left_eq diff_diff_eq ac_simps)
  finally show ?case .
qed

section \<open>Properties of the list screens\<close>

text \<open>
  C3: on a list screen of \<open>n\<close> items, Down moves the selection forward and Up
  backward, with wrap-around modulo \<open>n\<close>: after \<open>k\<close> Down events the index is
  \<open>(i + k) mod n\<close>, after \<open>k\<close> Up events it is \<open>(i - k) mod n\<close>, and the screen does
  not change.  In particular \<open>n\<close> Downs from 0 return to 0 and one Up from 0 gives
  \<open>n - 1\<close> (spec, section 8, navigation wraparound).
\<close>

theorem menu_session_wraparound:
  assumes "q_items (button_queue s) = []" and "0 < q_len (button_queue s)"
    and "0 \<le> button_index s" and "button_index s < n"
  shows "(\<exists>s'. menu_session menu n (replicate k DOWN) s = Inr s' \<and>
              button_index s' = (button_index s + int k) mod n \<and> display_state s' = display_state s) \<and>
         (\<exists>s'. menu_session menu n (replicate k UP) s = Inr s' \<and>
              button_index s' = (button_index s - int k) mod n \<and> display_state s' = display_state s)"
proof -
  obtain s1 where s1: "menu_session menu n (replicate k DOWN) s = Inr s1"
    and n1: "nav s1 = (display_state s, prev_state s, (menu_down n ^^ k) (button_index s), menu_init s)"
    using menu_session_moves [OF assms(1,2), of "replicate k DOWN" DOWN menu n] by auto
  obtain s2 where s2: "menu_session menu n (replicate k UP) s = Inr s2"
    and n2: "nav s2 = (display_state s, prev_state s, (menu_up n ^^ k) (button_index s), menu_init s)"
    using menu_session_moves [OF assms(1,2), of "replicate k UP" UP menu n] by auto
  from s1 n1 s2 n2 assms(3,4) show ?thesis
    by (auto simp: nav_def menu_down_iter_mod menu_up_iter_mod)
qed

lemma menu_screen_example_simps [simp]:
  "q_items (button_queue menu_screen_example) = []"
  "q_len (button_queue menu_screen_example) = 3"
  "button_index menu_screen_example = 0"
  "display_state menu_screen_example = MENU"
  "prev_state menu_screen_example = MENU"
  "menu_init menu_screen_example = False"
  by (simp_all add: menu_screen_example_def globals_init_def xQueueCreate_def BUTTON_QUEUE_SIZE_def)

theorem menu_session_wraparound_witness:
  "(\<exists>s'. menu_session main_menu 5 (replicate 5 DOWN) menu_screen_example = Inr s' \<and>
        button_index s' = 0 \<and> display_state s' = MENU) \<and>
   (\<exists>s'. menu_session main_menu 5 (replicate 1 UP) menu_screen_example = Inr s' \<and>
        button_index s' = 4 \<and> display_state s' = MENU)"
  using menu_session_wraparound [of menu_screen_example 5 main_menu 5]
    menu_session_wraparound [of menu_screen_example 5 main_menu 1]
  by simp

text \<open>
  C4: a tick without a button press is a no-op of the navigation state machine: when
  the button queue is empty or its front event is \<open>NONE\<close>, every list, display-only and
  game handler leaves the active screen, the previous screen, the selection index and
  the entered flag unchanged, the list handler raises no error, and the game input is
  \<open>'N'\<close> (spec, section 8, idempotent None).
\<close>

theorem no_press_nav_unchanged:
  assumes "no_press s"
  shows "(\<exists>s'. handleButtonMenu menu n s = Inr s' \<and> nav s' = nav s) \<and>
         nav (handleButtonSimple s) = nav s \<and>
         nav (snd (handleButtonGame s)) = nav s \<and> fst (handleButtonGame s) = CHR ''N''"
proof (cases "q_items (button_queue s)")
  case Nil
  then show ?thesis
    by (simp add: handleButtonMenu_def handleButtonSimple_def handleButtonGame_def
        button_receive_empty nav_def)
next
  case (Cons b bs)
  with assms have "b = NONE" by (simp add: no_press_def)
  with Cons show ?thesis
    by (simp add: handleButtonMenu_def handleButtonSimple_def handleButtonGame_def
        button_receive_front nav_def)
qed

theorem no_press_nav_unchanged_witness:
  "no_press menu_screen_example \<and>
   (\<exists>s'. handleButtonMenu main_menu 5 menu_screen_example = Inr s' \<and>
        nav s' = nav menu_screen_example) \<and>
   nav (handleButtonSimple menu_screen_example) = nav menu_screen_example \<and>
   nav (snd (handleButtonGame menu_screen_example)) = nav menu_screen_example \<and>
   fst (handleButtonGame menu_screen_example) = CHR ''N''"
proof -
  have np: "no_press menu_screen_example" by (simp add: no_press_def)
  show ?thesis using np no_press_nav_unchanged [OF np, of main_menu 5] by simp
qed



end
