(* ===== verification/StatusBar.thy ===== *)
theory StatusBar
  imports Navigation
begin

text \<open>
  The drawing code of the display task that keeps state (src/display.cpp): the status
  bar \<open>drawStatusBar\<close>, redrawn on every tick of every screen but the boot screen, which
  remembers the frame rate and the minute it last drew; and the menus' \<open>drawMenu\<close> and
  \<open>updateMenuHighlight\<close>, which remember the highlighted row in \<open>last_button_index\<close>.
  The TFT calls themselves are outputs: the menu functions return the rectangles they
  draw, the status bar draws the frame rate and the time.  Also here: C's \<open>%0wd\<close>
  conversion, shared with the file names of the save worker.
\<close>

section \<open>C's \<open>%0wd\<close> conversion\<close>

text \<open>
  \<open>fmt_0d w i\<close> is C's \<open>%0wd\<close>: the decimal digits of \<open>i\<close>, a minus sign first when
  negative, padded with zeros after the sign to \<open>w\<close> characters.
\<close>

fun dec_digits :: "nat \<Rightarrow> string" where
  "dec_digits n = (if n < 10 then [char_of (48 + n)] else dec_digits (n div 10) @ [char_of (48 + n mod 10)])"

declare dec_digits.simps [simp del]

lemma dec_digits_simps [simp]:
  "n < 10 \<Longrightarrow> dec_digits n = [char_of (48 + n)]"
  "\<not> n < 10 \<Longrightarrow> dec_digits n = dec_digits (n div 10) @ [char_of (48 + n mod 10)]"
  by (simp_all add: dec_digits.simps)

definition zpad :: "nat \<Rightarrow> string \<Rightarrow> string" where
  "zpad w xs = replicate (w - length xs) (CHR ''0'') @ xs"

definition fmt_0d :: "nat \<Rightarrow> int \<Rightarrow> string" where
  "fmt_0d w i = (if i < 0 then CHR ''-'' # zpad (w - 1) (dec_digits (nat (- i))) else zpad w (dec_digits (nat i)))"

section \<open>The status bar (drawStatusBar)\<close>

text \<open>
  \<open>if ((int)prev_fps != (int)fps)\<close> redraws the battery and the frame rate and sets
  \<open>prev_fps = fps\<close>; \<open>if (prev_min != t.tm_min)\<close> prints the time with
  \<open>sprintf(time_str, "%02d:%02d", t.tm_hour, t.tm_min)\<close> into \<open>char time_str[6]\<close> and
  sets \<open>prev_min\<close>.  The conversions to \<open>int\<close> and the \<open>sprintf\<close> are the places where the
  code can have undefined behaviour.
\<close>

definition drawStatusBar :: "sys \<Rightarrow> sys result" where
  "drawStatusBar s =
     (case c_float_to_int ''prev_fps'' (fst (prev_fps (ui s))) (snd (prev_fps (ui s))) of
        Inl e \<Rightarrow> Inl e
      | Inr pf \<Rightarrow>
          (case c_float_to_int ''fps'' (fst (fps (ui s))) (snd (fps (ui s))) of
             Inl e \<Rightarrow> Inl e
           | Inr f \<Rightarrow>
               (let s1 = (if pf \<noteq> f then s\<lparr>ui := (ui s)\<lparr>prev_fps := fps (ui s)\<rparr>\<rparr> else s)
                in if prev_min (ui s1) \<noteq> tm_min (t s1) then
                     (let time_str = fmt_0d 2 (tm_hour (t s1)) @ '':'' @ fmt_0d 2 (tm_min (t s1))
                      in if 6 \<le> length time_str then Inl (BufferOverflow ''time_str'' (Suc (length time_str)))
                         else Inr (s1\<lparr>ui := (ui s1)\<lparr>prev_min := tm_min (t s1)\<rparr>\<rparr>))
                   else Inr s1)))"

section \<open>The menus (drawMenu, updateMenuHighlight)\<close>

text \<open>A rectangle \<open>(x, y, w, h)\<close> as the TFT calls take it; row \<open>i\<close> of a menu.\<close>

type_synonym rect = "int \<times> int \<times> int \<times> int"

definition menu_rect :: "int \<Rightarrow> rect" where
  "menu_rect i = (0, STATUS_BAR_HEIGHT + MENU_ITEM_HEIGHT * i, SCREEN_WIDTH, MENU_ITEM_HEIGHT)"

text \<open>
  \<open>drawMenu\<close>: for \<open>i < num_items\<close> fill and outline row \<open>i\<close> and draw \<open>menu[i].label\<close> in it,
  then outline the highlighted row \<open>button_index\<close> and remember it.
\<close>

definition drawMenu :: "menu_item list \<Rightarrow> int \<Rightarrow> sys \<Rightarrow> (sys \<times> rect list) result" where
  "drawMenu menu num_items s =
     (case map_result (\<lambda>i. c_index ''menu'' menu i) [0..num_items - 1] of
        Inl e \<Rightarrow> Inl e
      | Inr labels \<Rightarrow>
          Inr (s\<lparr>ui := (ui s)\<lparr>last_button_index := button_index s\<rparr>\<rparr>,
               map menu_rect [0..num_items - 1] @ [menu_rect (button_index s)]))"

text \<open>When the selection moved: outline the old row, highlight the new one, remember it.\<close>

definition updateMenuHighlight :: "menu_item list \<Rightarrow> int \<Rightarrow> sys \<Rightarrow> sys \<times> rect list" where
  "updateMenuHighlight menu num_items s =
     (if last_button_index (ui s) \<noteq> button_index s
      then (s\<lparr>ui := (ui s)\<lparr>last_button_index := button_index s\<rparr>\<rparr>,
            [menu_rect (last_button_index (ui s)), menu_rect (button_index s)])
      else (s, []))"

text \<open>
  When the status bar can be drawn: both frame rates convert to \<open>int\<close> and the clock's
  hour and minute print in two characters.
\<close>

definition status_ok :: "sys \<Rightarrow> bool" where
  "status_ok s \<longleftrightarrow> c_float_ok (prev_fps (ui s)) \<and> c_float_ok (fps (ui s)) \<and>
     - 9 \<le> tm_hour (t s) \<and> tm_hour (t s) \<le> 99 \<and> - 9 \<le> tm_min (t s) \<and> tm_min (t s) \<le> 99"

declare drawStatusBar_def [model_defs] updateMenuHighlight_def [model_defs]

section \<open>The status bar\<close>

lemma dec_digits_length_1: "n < 10 \<Longrightarrow> length (dec_digits n) = 1"
  by (subst dec_digits.simps) simp

lemma dec_digits_length_2: "10 \<le> n \<Longrightarrow> n < 100 \<Longrightarrow> length (dec_digits n) = 2"
  by (subst dec_digits.simps) (simp add: dec_digits_length_1)

lemma dec_digits_length_3: "100 \<le> n \<Longrightarrow> 3 \<le> length (dec_digits n)"
proof -
  assume n: "100 \<le> n"
  have "2 \<le> length (dec_digits (n div 10))"
  proof (cases "n div 10 < 100")
    case True
    with n show ?thesis using dec_digits_length_2 [of "n div 10"] by simp
  next
    case False
    then show ?thesis by (subst dec_digits.simps) simp
  qed
  with n show ?thesis by (subst dec_digits.simps) simp
qed

text \<open>\<open>%02d\<close> prints two characters from -9 to 99, three or more from 100 on.\<close>

lemma fmt_0d_2_length: "- 9 \<le> i \<Longrightarrow> i \<le> 99 \<Longrightarrow> length (fmt_0d 2 i) = 2"
proof -
  assume "- 9 \<le> i" "i \<le> 99"
  then consider "i < 0" | "0 \<le> i" "i < 10" | "10 \<le> i" by linarith
  then show ?thesis
  proof cases
    case 1
    then show ?thesis using \<open>- 9 \<le> i\<close> dec_digits_length_1 [of "nat (- i)"] by (simp add: fmt_0d_def zpad_def)
  next
    case 2
    then show ?thesis using dec_digits_length_1 [of "nat i"] by (simp add: fmt_0d_def zpad_def)
  next
    case 3
    then show ?thesis using \<open>i \<le> 99\<close> dec_digits_length_2 [of "nat i"] by (simp add: fmt_0d_def zpad_def)
  qed
qed

lemma zpad_length: "length (zpad w xs) = max w (length xs)"
  by (simp add: zpad_def)

lemma fmt_0d_min_length: "w \<le> length (fmt_0d w i)"
  by (simp add: fmt_0d_def zpad_length max_def) linarith

lemma fmt_0d_2_long: "100 \<le> i \<Longrightarrow> 3 \<le> length (fmt_0d 2 i)"
  using dec_digits_length_3 [of "nat i"] by (simp add: fmt_0d_def zpad_def)

lemma drawStatusBar_ui: "drawStatusBar s = Inr s' \<Longrightarrow> s' = s\<lparr>ui := ui s'\<rparr>"
  by (auto simp: drawStatusBar_def Let_def split: sum.splits if_splits)

lemma drawStatusBar_errors:
  "drawStatusBar s = Inl e \<Longrightarrow>
   e = FloatToInt ''prev_fps'' \<or> e = FloatToInt ''fps'' \<or> (\<exists>n. e = BufferOverflow ''time_str'' n)"
  by (auto simp: drawStatusBar_def Let_def split: sum.splits if_splits dest: c_float_to_int_Inl)

lemma drawStatusBar_Inr:
  assumes "c_float_to_int ''prev_fps'' (fst (prev_fps (ui s))) (snd (prev_fps (ui s))) = Inr pf"
    and "c_float_to_int ''fps'' (fst (fps (ui s))) (snd (fps (ui s))) = Inr f"
    and "- 9 \<le> tm_hour (t s)" "tm_hour (t s) \<le> 99" "- 9 \<le> tm_min (t s)" "tm_min (t s) \<le> 99"
  shows "drawStatusBar s = Inr (s\<lparr>ui := (ui s)\<lparr>prev_fps := (if pf \<noteq> f then fps (ui s) else prev_fps (ui s)),
                                               prev_min := tm_min (t s)\<rparr>\<rparr>)"
  using assms fmt_0d_2_length [of "tm_hour (t s)"] fmt_0d_2_length [of "tm_min (t s)"]
  by (simp add: drawStatusBar_def Let_def)

lemma drawStatusBar_ok:
  assumes "status_ok s"
  shows "drawStatusBar s = Inr (s\<lparr>ui := (ui s)\<lparr>prev_fps :=
           (if fst (prev_fps (ui s)) sdiv snd (prev_fps (ui s)) \<noteq> fst (fps (ui s)) sdiv snd (fps (ui s))
            then fps (ui s) else prev_fps (ui s)), prev_min := tm_min (t s)\<rparr>\<rparr>)"
  using assms drawStatusBar_Inr [of s] c_float_to_int_ok [of "fst (prev_fps (ui s))" "snd (prev_fps (ui s))"]
    c_float_to_int_ok [of "fst (fps (ui s))" "snd (fps (ui s))"]
  by (simp add: status_ok_def)

lemma drawStatusBar_time_overflow:
  assumes "c_float_to_int ''prev_fps'' (fst (prev_fps (ui s))) (snd (prev_fps (ui s))) = Inr pf"
    and "c_float_to_int ''fps'' (fst (fps (ui s))) (snd (fps (ui s))) = Inr f"
    and "100 \<le> tm_hour (t s)" and "prev_min (ui s) \<noteq> tm_min (t s)"
  shows "\<exists>n. drawStatusBar s = Inl (BufferOverflow ''time_str'' n) \<and> 7 \<le> n"
  using assms fmt_0d_2_long [of "tm_hour (t s)"] fmt_0d_min_length [of 2 "tm_min (t s)"]
  by (simp add: drawStatusBar_def Let_def)

text \<open>
  The status bar reads only the clock and its own globals and writes only the latter, so it
  commutes with any code that leaves those alone.
\<close>

lemma drawStatusBar_frame:
  assumes "ui (g s) = ui s" and "t (g s) = t s" and "\<And>u. g (s\<lparr>ui := u\<rparr>) = (g s)\<lparr>ui := u\<rparr>"
  shows "drawStatusBar (g s) = map_sum id g (drawStatusBar s)"
  using assms by (auto simp: drawStatusBar_def Let_def split: sum.splits)

lemma drawStatusBar_menu_init [simp]:
  "drawStatusBar (s\<lparr>menu_init := b\<rparr>) = map_sum id (\<lambda>s'. s'\<lparr>menu_init := b\<rparr>) (drawStatusBar s)"
  using drawStatusBar_frame [of "\<lambda>s. s\<lparr>menu_init := b\<rparr>" s] by simp

lemma drawStatusBar_last:
  "drawStatusBar (s\<lparr>ui := (ui s)\<lparr>last_button_index := x\<rparr>\<rparr>) =
   map_sum id (\<lambda>s'. s'\<lparr>ui := (ui s')\<lparr>last_button_index := x\<rparr>\<rparr>) (drawStatusBar s)"
  by (auto simp: drawStatusBar_def Let_def split: sum.splits)

section \<open>The menus\<close>

text \<open>With at most as many rows as the menu has items, no label is read out of range.\<close>

lemma drawMenu_rows [simp]:
  assumes "n \<le> int (length menu)"
  shows "drawMenu menu n s =
     Inr (s\<lparr>ui := (ui s)\<lparr>last_button_index := button_index s\<rparr>\<rparr>,
          map menu_rect [0..n - 1] @ [menu_rect (button_index s)])"
proof -
  have "map_result (\<lambda>i. c_index ''menu'' menu i) [0..n - 1] = Inr (map (\<lambda>i. menu ! nat i) [0..n - 1])"
    using assms by (intro map_result_Inr) (simp add: c_index_def)
  then show ?thesis by (simp add: drawMenu_def)
qed

lemma drawMenu_Inr:
  "drawMenu menu (int (length menu)) s =
     Inr (s\<lparr>ui := (ui s)\<lparr>last_button_index := button_index s\<rparr>\<rparr>,
          map menu_rect [0..int (length menu) - 1] @ [menu_rect (button_index s)])"
  by simp

lemma updateMenuHighlight_last:
  "last_button_index (ui (fst (updateMenuHighlight menu n s))) = button_index s \<and>
   fst (updateMenuHighlight menu n s) = s\<lparr>ui := (ui s)\<lparr>last_button_index := button_index s\<rparr>\<rparr>"
  by (simp add: updateMenuHighlight_def)

text \<open>Row \<open>i\<close> lies on the 240 x 320 screen, below the status bar, exactly for \<open>0 \<le> i < 5\<close>.\<close>

definition on_screen :: "rect \<Rightarrow> bool" where
  "on_screen r = (case r of (x, y, w, h) \<Rightarrow>
     0 \<le> x \<and> STATUS_BAR_HEIGHT \<le> y \<and> 0 \<le> w \<and> 0 \<le> h \<and> x + w \<le> SCREEN_WIDTH \<and> y + h \<le> SCREEN_HEIGHT)"

lemma menu_rect_on_screen: "on_screen (menu_rect i) \<longleftrightarrow> 0 \<le> i \<and> i < 5"
  by (auto simp: on_screen_def menu_rect_def config_defs)

end
