(* ===== verification/Files.thy ===== *)
theory Files
  imports StatusBar
begin

text \<open>
  The file browser of the SD_CARD screen and its delete worker.  \<open>loadFileNames\<close>
  (src/helpers.cpp) rebuilds the vector \<open>filenames\<close> and the count \<open>num_files\<close> from the
  card's root directory; \<open>handleButtonFiles\<close> (src/button_handlers.cpp) moves the
  selection in list mode, clamps it, opens the image viewer, and in viewer mode sends the
  selected name to \<open>file_delete_queue\<close>; \<open>drawFiles\<close> and \<open>drawImageViewer\<close>
  (src/display.cpp) keep a static viewport of ten rows and read the names they draw; one
  iteration of \<open>deleteFromSDTask\<close> (src/tasks.cpp) removes a requested file and reloads
  the names; \<open>sd_card_tick\<close> is the SD_CARD case of the display task, whose setup block
  creates the delete worker whenever \<open>menu_init\<close> is false.
\<close>

section \<open>Loading the file names (loadFileNames)\<close>

text \<open>
  The directory loop: every entry's name gets a leading slash and is kept unless it is
  empty or the hidden \<open>System Volume Information\<close> folder.
\<close>

fun collect_names :: "string list \<Rightarrow> string list \<Rightarrow> int \<Rightarrow> string list \<times> int" where
  "collect_names [] acc n = (acc, n)"
| "collect_names (f # fs) acc n =
     (let name = ''/'' @ f
      in if name \<noteq> [] \<and> name \<noteq> ''/System Volume Information''
         then collect_names fs (acc @ [name]) (n + 1)
         else collect_names fs acc n)"

text \<open>\<open>root_ok\<close>: whether \<open>SD_MMC.open("/")\<close> gave a directory (else the function returns early).\<close>

definition loadFileNames :: "bool \<Rightarrow> sys \<Rightarrow> sys" where
  "loadFileNames root_ok s =
     (let s1 = s\<lparr>num_files := 0, filenames := []\<rparr>
      in if \<not> root_ok then s1
         else (let (names, n) = collect_names (sd_root s) [] 0
               in s1\<lparr>filenames := names, num_files := n\<rparr>))"

section \<open>Button handling (handleButtonFiles)\<close>

definition clamp_file_index :: "int \<Rightarrow> int \<Rightarrow> int" where
  "clamp_file_index n i = (if i < 0 then 0 else if i \<ge> n then n - 1 else i)"

text \<open>\<open>strncpy(filename, name, 31); filename[31] = '\0'\<close>: the name, cut to 31 characters.\<close>

definition c_filename :: "string \<Rightarrow> string" where
  "c_filename nm = take (MAX_FILENAME_LENGTH - 1) nm"

definition files_list_event :: "sys \<Rightarrow> sys result" where
  "files_list_event s =
     (if button_state s = DOWN then Inr (s\<lparr>file_index := file_index s + 1\<rparr>)
      else if button_state s = UP then Inr (s\<lparr>file_index := file_index s - 1\<rparr>)
      else if button_state s = SELECT then Inr (s\<lparr>image_view := True\<rparr>)
      else if button_state s = BACK then
        (case deleteFromSDTask_handle s of
           None \<Rightarrow> Inl DeletedCaller
         | Some _ \<Rightarrow>
             Inr (s\<lparr>os := vTaskDelete (display_tid s) (deleteFromSDTask_handle s) (os s),
                    deleteFromSDTask_handle := None, display_state := MENU, prev_state := MENU,
                    menu_init := False, image_view := False, button_index := 0,
                    prev_file_index := -1\<rparr>))
      else Inr s)"

definition files_viewer_event :: "sys \<Rightarrow> sys result" where
  "files_viewer_event s =
     (if button_state s = SELECT then
        (case c_index ''filenames'' (filenames s) (file_index s) of
           Inl e \<Rightarrow> Inl e
         | Inr nm \<Rightarrow>
             Inr (s\<lparr>file_delete_queue := snd (xQueueSend (file_delete_queue s) (c_filename nm)),
                    image_view := False, image_shown := False, prev_file_index := -1\<rparr>))
      else if button_state s = BACK then
        Inr (s\<lparr>image_view := False, image_shown := False, menu_init := False, prev_file_index := -1\<rparr>)
      else Inr s)"

definition handleButtonFiles :: "sys \<Rightarrow> sys result" where
  "handleButtonFiles s =
     (case button_receive s of
        (False, s1) \<Rightarrow> Inr s1
      | (True, s1) \<Rightarrow>
          (if \<not> image_view s1 then
             (case files_list_event s1 of
                Inl e \<Rightarrow> Inl e
              | Inr s2 \<Rightarrow> Inr (s2\<lparr>file_index := clamp_file_index (num_files s2) (file_index s2)\<rparr>))
           else files_viewer_event s1))"

section \<open>The file list and the viewer (drawFiles, drawImageViewer)\<close>

text \<open>
  The viewport update of \<open>drawFiles\<close>: shift by one when the selection left the window,
  clamp the start at 0, clamp the end to the last file, then (the source's "temporary
  fix") force the window back to ten rows.
\<close>

definition viewport_step :: "int \<Rightarrow> int \<Rightarrow> int \<Rightarrow> int \<Rightarrow> int \<times> int" where
  "viewport_step n fi st en =
     (let (st1, en1) = (if fi > en then (st + 1, en + 1) else if fi < st then (st - 1, en - 1) else (st, en));
          st2 = (if st1 < 0 then 0 else st1);
          en2 = (if en1 > n then n - 1 else en1);
          en3 = (if en2 \<noteq> st2 + 10 - 1 then st2 + 10 - 1 else en2)
      in (st2, en3))"

text \<open>The row loop reads \<open>filenames[i]\<close> for every row \<open>i\<close> of the window.\<close>

fun read_rows :: "string list \<Rightarrow> int list \<Rightarrow> unit result" where
  "read_rows xs [] = Inr ()"
| "read_rows xs (i # is) =
     (case c_index ''filenames'' xs i of Inl e \<Rightarrow> Inl e | Inr _ \<Rightarrow> read_rows xs is)"

definition drawFiles :: "sys \<Rightarrow> sys result" where
  "drawFiles s =
     (if file_index s \<noteq> prev_file_index s then
        (let (st, en) = viewport_step (num_files s) (file_index s) (files_start s) (files_end s)
         in case read_rows (filenames s) [st..en] of
              Inl e \<Rightarrow> Inl e
            | Inr _ \<Rightarrow> Inr (s\<lparr>files_start := st, files_end := en, prev_file_index := file_index s\<rparr>))
      else Inr s)"

definition drawImageViewer :: "sys \<Rightarrow> sys result" where
  "drawImageViewer s =
     (if \<not> image_shown s then
        (case c_index ''filenames'' (filenames s) (file_index s) of
           Inl e \<Rightarrow> Inl e
         | Inr _ \<Rightarrow> Inr (s\<lparr>image_shown := True\<rparr>))
      else Inr s)"

section \<open>The delete worker (one iteration of deleteFromSDTask)\<close>

text \<open>
  \<open>SD_MMC.remove(filename)\<close> succeeds when the path names a file of the root directory
  (the path is \<open>/\<close> followed by the directory entry's name).
\<close>

definition sd_remove :: "string \<Rightarrow> string list \<Rightarrow> string list option" where
  "sd_remove p root =
     (case p of
        CHR ''/'' # nm \<Rightarrow> (if nm \<in> set root then Some (remove1 nm root) else None)
      | _ \<Rightarrow> None)"

definition deleteFromSD_iter :: "bool \<Rightarrow> sys \<Rightarrow> sys" where
  "deleteFromSD_iter root_ok s =
     (case xQueueReceive (file_delete_queue s) of
        None \<Rightarrow> s
      | Some (nm, q) \<Rightarrow>
          (let s1 = s\<lparr>file_delete_queue := q\<rparr>
           in case sd_remove nm (sd_root s1) of
                Some root' \<Rightarrow> loadFileNames root_ok (s1\<lparr>sd_root := root'\<rparr>)
              | None \<Rightarrow> s1))"

section \<open>The SD_CARD tick of the display task\<close>

definition sd_card_setup :: "bool \<Rightarrow> sys \<Rightarrow> sys" where
  "sd_card_setup root_ok s =
     (let (td, r) = xTaskCreate deleteFromSDTask (os s)
      in (loadFileNames root_ok (s\<lparr>os := r, deleteFromSDTask_handle := Some td\<rparr>))\<lparr>menu_init := True\<rparr>)"

definition sd_card_tick :: "bool \<Rightarrow> sys \<Rightarrow> sys result" where
  "sd_card_tick root_ok s =
     (let s1 = (if \<not> menu_init s then sd_card_setup root_ok s else s)
      in case drawStatusBar s1 of
           Inl e \<Rightarrow> Inl e
         | Inr s2 \<Rightarrow>
             (case (if \<not> image_view s2 then drawFiles s2 else drawImageViewer s2) of
                Inl e \<Rightarrow> Inl e
              | Inr s3 \<Rightarrow> handleButtonFiles s3))"

declare loadFileNames_def [model_defs] clamp_file_index_def [model_defs]
  files_list_event_def [model_defs] files_viewer_event_def [model_defs]
  handleButtonFiles_def [model_defs] drawFiles_def [model_defs] drawImageViewer_def [model_defs]
  deleteFromSD_iter_def [model_defs] sd_card_setup_def [model_defs] sd_card_tick_def [model_defs]

section \<open>The directory loop\<close>

definition shown_name :: "string \<Rightarrow> bool" where
  "shown_name name \<longleftrightarrow> name \<noteq> [] \<and> name \<noteq> ''/System Volume Information''"

section \<open>Concrete states\<close>

text \<open>The SD_CARD screen on a card holding the given root entries, its queues created.\<close>

definition files_example :: "string list \<Rightarrow> sys" where
  "files_example root =
     (globals_init tm_example root)\<lparr>display_state := SD_CARD, prev_state := MENU,
        button_queue := xQueueCreate 3, file_delete_queue := xQueueCreate 5\<rparr>"

definition three_files :: "string list" where
  "three_files = [''IMG_001.rgb'', ''IMG_002.rgb'', ''IMG_003.rgb'']"

lemma collect_names_eq:
  "collect_names fs acc n =
     (acc @ filter shown_name (map ((@) ''/'') fs),
      n + int (length (filter shown_name (map ((@) ''/'') fs))))"
  by (induction fs arbitrary: acc n) (simp_all add: shown_name_def Let_def)

lemma loadFileNames_fields:
  "filenames (loadFileNames root_ok s) =
     (if root_ok then filter shown_name (map ((@) ''/'') (sd_root s)) else []) \<and>
   num_files (loadFileNames root_ok s) = int (length (filenames (loadFileNames root_ok s)))"
  by (simp add: loadFileNames_def collect_names_eq)

lemma loadFileNames_other [simp]:
  "display_state (loadFileNames ok s) = display_state s \<and> os (loadFileNames ok s) = os s \<and>
   deleteFromSDTask_handle (loadFileNames ok s) = deleteFromSDTask_handle s \<and>
   menu_init (loadFileNames ok s) = menu_init s \<and> sd_root (loadFileNames ok s) = sd_root s \<and>
   image_view (loadFileNames ok s) = image_view s \<and> file_index (loadFileNames ok s) = file_index s \<and>
   game1 (loadFileNames ok s) = game1 s"
  by (simp add: loadFileNames_def Let_def case_prod_unfold)

section \<open>Clamping and list-mode events\<close>

lemma clamp_file_index_range: "0 < n \<Longrightarrow> 0 \<le> clamp_file_index n i \<and> clamp_file_index n i < n"
  by (simp add: clamp_file_index_def)

lemma clamp_file_index_empty: "n \<le> 0 \<Longrightarrow> clamp_file_index n i = (if i < 0 then 0 else n - 1)"
  by (simp add: clamp_file_index_def)

lemma files_list_event_num_files:
  "files_list_event s = Inr s' \<Longrightarrow> num_files s' = num_files s \<and> filenames s' = filenames s"
  by (auto simp: files_list_event_def split: if_splits option.splits)

lemma files_list_event_select:
  "button_state s = SELECT \<Longrightarrow> files_list_event s = Inr (s\<lparr>image_view := True\<rparr>)"
  by (simp add: files_list_event_def)

lemma handleButtonFiles_list:
  assumes "q_items (button_queue s) = b # bs" and "\<not> image_view s"
  shows "handleButtonFiles s =
    (case files_list_event (s\<lparr>button_state := b, button_queue := button_queue s\<lparr>q_items := bs\<rparr>\<rparr>) of
       Inl e \<Rightarrow> Inl e
     | Inr s2 \<Rightarrow> Inr (s2\<lparr>file_index := clamp_file_index (num_files s2) (file_index s2)\<rparr>))"
  using assms by (simp add: handleButtonFiles_def button_receive_front)

lemma handleButtonFiles_viewer:
  assumes "q_items (button_queue s) = b # bs" and "image_view s"
  shows "handleButtonFiles s =
           files_viewer_event (s\<lparr>button_state := b, button_queue := button_queue s\<lparr>q_items := bs\<rparr>\<rparr>)"
  using assms by (simp add: handleButtonFiles_def button_receive_front)

section \<open>Reading the rows\<close>

lemma read_rows_all_in:
  "(\<forall>i \<in> set rs. 0 \<le> i \<and> i < int (length xs)) \<Longrightarrow> read_rows xs rs = Inr ()"
  by (induction rs) auto

lemma read_rows_first_out:
  assumes "0 \<le> a" and "a \<le> int (length xs)" and "int (length xs) \<le> b"
  shows "read_rows xs [a..b] = Inl (OutOfRange ''filenames'' (int (length xs)))"
  using assms
proof (induction "nat (int (length xs) - a)" arbitrary: a)
  case 0
  then have "a = int (length xs)" by simp
  with "0.prems" show ?case by (simp add: upto_rec1)
next
  case (Suc k)
  then have lt: "a < int (length xs)" by simp
  have "read_rows xs [a + 1..b] = Inl (OutOfRange ''filenames'' (int (length xs)))"
    using Suc.hyps(1) [of "a + 1"] Suc.hyps(2) Suc.prems lt by simp
  with Suc.prems lt show ?case by (simp add: upto_rec1)
qed

section \<open>The viewport\<close>

lemma viewport_step_shape:
  "viewport_step n fi st en = (st', en') \<Longrightarrow> en' = st' + 9 \<and> 0 \<le> st'"
  by (auto simp: viewport_step_def Let_def split: if_splits prod.splits)

lemma viewport_step_contains:
  assumes "viewport_step n fi st en = (st', en')"
    and "0 \<le> fi" and "en = st + 9" and "st - 1 \<le> fi" and "fi \<le> en + 1"
  shows "st' \<le> fi \<and> fi \<le> en'"
  using assms by (auto simp: viewport_step_def Let_def split: if_splits prod.splits)

section \<open>Setup and delete requests\<close>

lemma sd_card_setup_fields:
  "os (sd_card_setup ok s) = snd (xTaskCreate deleteFromSDTask (os s)) \<and>
   deleteFromSDTask_handle (sd_card_setup ok s) = Some (next_tid (os s)) \<and>
   menu_init (sd_card_setup ok s) \<and> image_view (sd_card_setup ok s) = image_view s \<and>
   display_state (sd_card_setup ok s) = display_state s \<and> sd_root (sd_card_setup ok s) = sd_root s"
  by (simp add: sd_card_setup_def xTaskCreate_def)

lemma files_viewer_back:
  assumes "image_view s" and "q_items (button_queue s) = BACK # bs"
  shows "handleButtonFiles s = Inr (s\<lparr>button_state := BACK, button_queue := button_queue s\<lparr>q_items := bs\<rparr>,
           image_view := False, image_shown := False, menu_init := False, prev_file_index := -1\<rparr>)"
  using assms by (simp add: handleButtonFiles_viewer files_viewer_event_def)

lemma files_list_back:
  assumes "\<not> image_view s" and "q_items (button_queue s) = BACK # bs" and "deleteFromSDTask_handle s = Some tk"
  shows "\<exists>s'. handleButtonFiles s = Inr s' \<and> display_state s' = MENU \<and> deleteFromSDTask_handle s' = None \<and>
           os s' = vTaskDelete (display_tid s) (Some tk) (os s)"
  using assms by (simp add: handleButtonFiles_list files_list_event_def)

lemma c_filename_short: "length nm \<le> 31 \<Longrightarrow> c_filename nm = nm"
  by (simp add: c_filename_def MAX_FILENAME_LENGTH_def)

lemma files_viewer_select:
  assumes "image_view s" and "q_items (button_queue s) = SELECT # bs"
    and "0 \<le> file_index s" and "file_index s < int (length (filenames s))"
    and "q_items (file_delete_queue s) = []" and "0 < q_len (file_delete_queue s)"
  shows "\<exists>s1. handleButtonFiles s = Inr s1 \<and> sd_root s1 = sd_root s \<and> filenames s1 = filenames s \<and>
           file_delete_queue s1 = (file_delete_queue s)\<lparr>q_items := [c_filename (filenames s ! nat (file_index s))]\<rparr>"
  using assms by (simp add: handleButtonFiles_viewer files_viewer_event_def xQueueSend_def)

lemma deleteFromSD_iter_request:
  assumes "q_items (file_delete_queue s) = [nm]"
  shows "deleteFromSD_iter ok s =
           (case sd_remove nm (sd_root s) of
              Some root' \<Rightarrow> loadFileNames ok (s\<lparr>file_delete_queue := (file_delete_queue s)\<lparr>q_items := []\<rparr>, sd_root := root'\<rparr>)
            | None \<Rightarrow> s\<lparr>file_delete_queue := (file_delete_queue s)\<lparr>q_items := []\<rparr>\<rparr>)"
  using assms by (simp add: deleteFromSD_iter_def xQueueReceive_def split: option.splits)

section \<open>Properties of the file browser\<close>

text \<open>
  C14: in list mode, whenever the card holds at least one file, the selection after a
  handled button event lies within the file list: \<open>0 \<le> file_index < num_files\<close>.
\<close>

theorem files_list_clamp:
  assumes "q_items (button_queue s) = b # bs" and "\<not> image_view s" and "0 < num_files s"
    and "handleButtonFiles s = Inr s'"
  shows "0 \<le> file_index s' \<and> file_index s' < num_files s'"
proof -
  let ?s1 = "s\<lparr>button_state := b, button_queue := button_queue s\<lparr>q_items := bs\<rparr>\<rparr>"
  obtain s2 where e: "files_list_event ?s1 = Inr s2"
    and s': "s' = s2\<lparr>file_index := clamp_file_index (num_files s2) (file_index s2)\<rparr>"
    using assms(4) handleButtonFiles_list [OF assms(1,2)] by (auto split: sum.splits)
  have "num_files s2 = num_files s" using files_list_event_num_files [OF e] by simp
  then show ?thesis using s' clamp_file_index_range assms(3) by simp
qed

theorem files_list_clamp_witness:
  "\<exists>s'. handleButtonFiles ((loadFileNames True (files_example three_files))
           \<lparr>button_queue := \<lparr>q_len = 3, q_items = [DOWN]\<rparr>, file_index := 2\<rparr>) = Inr s' \<and>
         0 \<le> file_index s' \<and> file_index s' < num_files s'"
proof -
  let ?s = "(loadFileNames True (files_example three_files))
              \<lparr>button_queue := \<lparr>q_len = 3, q_items = [DOWN]\<rparr>, file_index := 2\<rparr>"
  have n: "num_files ?s = 3"
    by (simp add: loadFileNames_fields shown_name_def three_files_def files_example_def globals_init_def)
  have v: "\<not> image_view ?s"
    by (simp add: loadFileNames_def files_example_def globals_init_def Let_def case_prod_unfold)
  obtain s' where h: "handleButtonFiles ?s = Inr s'"
    using handleButtonFiles_list [of ?s DOWN "[]"] v by (simp add: files_list_event_def)
  show ?thesis using files_list_clamp [of ?s DOWN "[]" s'] h n v by simp
qed

text \<open>
  C15: on an empty card the clamp sets the selection to \<open>num_files - 1 = -1\<close> (or leaves
  it at 0), Select still opens the image viewer, and the viewer's first draw reads
  \<open>filenames[file_index]\<close> out of range: undefined behaviour on the empty vector.
\<close>

theorem empty_card_viewer_out_of_range:
  assumes "filenames s = []" and "num_files s = 0" and "\<not> image_view s" and "\<not> image_shown s"
    and "q_items (button_queue s) = SELECT # bs"
  shows "\<exists>s1. handleButtonFiles s = Inr s1 \<and> image_view s1 \<and> file_index s1 \<in> {-1, 0} \<and>
           drawImageViewer s1 = Inl (OutOfRange ''filenames'' (file_index s1))"
  using assms
  by (simp add: handleButtonFiles_list files_list_event_select clamp_file_index_empty
      drawImageViewer_def)

theorem empty_card_viewer_out_of_range_witness:
  "\<exists>s1. handleButtonFiles ((loadFileNames True (files_example []))
            \<lparr>button_queue := \<lparr>q_len = 3, q_items = [SELECT]\<rparr>\<rparr>) = Inr s1 \<and>
          image_view s1 \<and> file_index s1 \<in> {-1, 0} \<and>
          drawImageViewer s1 = Inl (OutOfRange ''filenames'' (file_index s1))"
proof -
  let ?s = "(loadFileNames True (files_example []))\<lparr>button_queue := \<lparr>q_len = 3, q_items = [SELECT]\<rparr>\<rparr>"
  have "filenames ?s = []" and "num_files ?s = 0" and "\<not> image_view ?s" and "\<not> image_shown ?s"
    by (simp_all add: loadFileNames_def files_example_def globals_init_def Let_def)
  then show ?thesis using empty_card_viewer_out_of_range [of ?s "[]"] by simp
qed

text \<open>
  C16: with fewer than ten files, the file list's draw with the viewport at its initial
  rows 0..9 reads \<open>filenames[num_files]\<close>: the end clamp is undone by the forced
  ten-row window, so the row loop runs past the vector's end (undefined behaviour on the
  first draw of every card holding fewer than ten files).
\<close>

theorem drawFiles_reads_past_end:
  assumes "files_start s = 0" and "files_end s = 9" and "0 \<le> file_index s" and "file_index s \<le> 9"
    and "file_index s \<noteq> prev_file_index s" and "num_files s = int (length (filenames s))"
    and "num_files s < 10"
  shows "drawFiles s = Inl (OutOfRange ''filenames'' (num_files s))"
proof -
  have "viewport_step (num_files s) (file_index s) 0 9 = (0, 9)"
    using assms(3,4) by (simp add: viewport_step_def)
  moreover have "read_rows (filenames s) [0..9] = Inl (OutOfRange ''filenames'' (num_files s))"
    using read_rows_first_out [of 0 "filenames s" 9] assms(6,7) by simp
  ultimately show ?thesis using assms(1,2,5) by (simp add: drawFiles_def)
qed

theorem drawFiles_reads_past_end_witness:
  "drawFiles (loadFileNames True (files_example three_files)) = Inl (OutOfRange ''filenames'' 3)"
proof -
  let ?s = "loadFileNames True (files_example three_files)"
  have n: "num_files ?s = 3" and "filenames ?s = [''/IMG_001.rgb'', ''/IMG_002.rgb'', ''/IMG_003.rgb'']"
    by (simp_all add: loadFileNames_fields shown_name_def three_files_def files_example_def globals_init_def)
  moreover have "files_start ?s = 0" and "files_end ?s = 9" and "file_index ?s = 0" and "prev_file_index ?s = -1"
    by (simp_all add: loadFileNames_def files_example_def globals_init_def Let_def case_prod_unfold)
  ultimately show ?thesis using drawFiles_reads_past_end [of ?s] by simp
qed

text \<open>
  C17: the viewport update of \<open>drawFiles\<close> always yields a window of exactly ten rows
  starting at a non-negative row, and when the selection moved by at most one row from a
  ten-row window it stays inside the new window.
\<close>

theorem viewport_window_invariant:
  assumes "viewport_step n fi st en = (st', en')"
    and "0 \<le> fi" and "en = st + 9" and "st - 1 \<le> fi" and "fi \<le> en + 1"
  shows "en' = st' + 9 \<and> 0 \<le> st' \<and> st' \<le> fi \<and> fi \<le> en'"
  using viewport_step_shape [OF assms(1)] viewport_step_contains [OF assms] by simp

theorem viewport_window_invariant_witness:
  "(case viewport_step 3 10 0 9 of (st', en') \<Rightarrow> en' = st' + 9 \<and> 0 \<le> st' \<and> st' \<le> 10 \<and> 10 \<le> en')"
  using viewport_window_invariant [of 3 10 0 9 1 10] by (simp add: viewport_step_def)

text \<open>
  C18: Back in the image viewer clears \<open>menu_init\<close> while the screen stays SD_CARD and the
  delete worker stays alive, so the setup block of the next tick creates a second
  delete worker over the live one and overwrites its handle.  A second Back (in list
  mode) then deletes only the new worker and clears the handle: the first worker is
  left running with no handle, although the spec requires setup to observe a cleared
  handle before creating a worker.
\<close>

theorem viewer_back_orphans_delete_worker:
  assumes "image_view s" and "q_items (button_queue s) = [BACK]"
    and "deleteFromSDTask_handle s = Some td" and "(td, deleteFromSDTask) \<in> set (live (os s))"
    and "rtos_wf (os s)"
  shows "\<exists>s1 s3. handleButtonFiles s = Inr s1 \<and> \<not> menu_init s1 \<and> display_state s1 = display_state s \<and>
           instances deleteFromSDTask (os (sd_card_setup ok s1)) = instances deleteFromSDTask (os s) + 1 \<and>
           handleButtonFiles ((sd_card_setup ok s1)\<lparr>button_queue := button_queue s\<rparr>) = Inr s3 \<and>
           display_state s3 = MENU \<and> deleteFromSDTask_handle s3 = None \<and>
           (td, deleteFromSDTask) \<in> set (live (os s3))"
proof -
  define s1 where "s1 = s\<lparr>button_state := BACK, button_queue := button_queue s\<lparr>q_items := []\<rparr>,
           image_view := False, image_shown := False, menu_init := False, prev_file_index := -1\<rparr>"
  have h1: "handleButtonFiles s = Inr s1"
    using files_viewer_back [OF assms(1,2)] by (simp add: s1_def)
  define s2 where "s2 = (sd_card_setup ok s1)\<lparr>button_queue := button_queue s\<rparr>"
  have f2: "\<not> image_view s2" "deleteFromSDTask_handle s2 = Some (next_tid (os s))"
    "os s2 = snd (xTaskCreate deleteFromSDTask (os s))"
    using sd_card_setup_fields [of ok s1] by (simp_all add: s1_def s2_def)
  obtain s3 where h3: "handleButtonFiles s2 = Inr s3" and m: "display_state s3 = MENU"
    and n: "deleteFromSDTask_handle s3 = None"
    and o: "os s3 = vTaskDelete (display_tid s2) (Some (next_tid (os s))) (os s2)"
    using files_list_back [OF f2(1) _ f2(2)] assms(2) by (auto simp: s2_def)
  have "td < next_tid (os s)" using assms(4,5) by (auto simp: rtos_wf_def)
  then have "(td, deleteFromSDTask) \<in> set (live (os s3))"
    using assms(4) o f2(3) by (simp add: vTaskDelete_def target_def xTaskCreate_def)
  moreover have "instances deleteFromSDTask (os (sd_card_setup ok s1)) = instances deleteFromSDTask (os s) + 1"
    using sd_card_setup_fields [of ok s1] by (simp add: s1_def)
  ultimately show ?thesis using h1 h3 m n by (auto simp: s1_def s2_def)
qed

theorem viewer_back_orphans_delete_worker_witness:
  "\<exists>s1 s3. handleButtonFiles ((sd_card_setup True (files_example three_files))
             \<lparr>image_view := True, button_queue := \<lparr>q_len = 3, q_items = [BACK]\<rparr>\<rparr>) = Inr s1 \<and>
     \<not> menu_init s1 \<and> display_state s1 = SD_CARD \<and>
     instances deleteFromSDTask (os (sd_card_setup True s1)) = 2 \<and>
     handleButtonFiles ((sd_card_setup True s1)\<lparr>button_queue := \<lparr>q_len = 3, q_items = [BACK]\<rparr>\<rparr>) = Inr s3 \<and>
     display_state s3 = MENU \<and> deleteFromSDTask_handle s3 = None \<and>
     (1, deleteFromSDTask) \<in> set (live (os s3))"
proof -
  let ?s = "(sd_card_setup True (files_example three_files))
              \<lparr>image_view := True, button_queue := \<lparr>q_len = 3, q_items = [BACK]\<rparr>\<rparr>"
  have o: "os ?s = \<lparr>next_tid = 2, live = [(0, loopTask), (1, deleteFromSDTask)], suspended = []\<rparr>"
    and "deleteFromSDTask_handle ?s = Some 1" and "display_state ?s = SD_CARD"
    using sd_card_setup_fields [of True "files_example three_files"]
    by (simp_all add: files_example_def globals_init_def xTaskCreate_def)
  moreover have "rtos_wf (os ?s)" and "instances deleteFromSDTask (os ?s) = 1"
    by (simp_all only: o) (simp_all add: rtos_wf_def instances_def)
  ultimately show ?thesis
    using viewer_back_orphans_delete_worker [of ?s 1 True] by (simp add: numeral_2_eq_2)
qed

text \<open>
  C19: deleting a file with a short name works end to end: Select in the viewer on the
  entry \<open>/f\<close> of a file \<open>f\<close> of the card queues its name, and the delete worker's next
  iteration removes \<open>f\<close> from the card and reloads the list from the card.
\<close>

theorem viewer_delete_removes_file:
  assumes "image_view s" and "q_items (button_queue s) = SELECT # bs"
    and "0 \<le> file_index s" and "file_index s < int (length (filenames s))"
    and "filenames s ! nat (file_index s) = ''/'' @ f" and "f \<in> set (sd_root s)" and "length f < 31"
    and "q_items (file_delete_queue s) = []" and "0 < q_len (file_delete_queue s)"
  shows "\<exists>s1. handleButtonFiles s = Inr s1 \<and>
           sd_root (deleteFromSD_iter ok s1) = remove1 f (sd_root s) \<and>
           filenames (deleteFromSD_iter ok s1) =
             (if ok then filter shown_name (map ((@) ''/'') (remove1 f (sd_root s))) else [])"
proof -
  obtain s1 where h: "handleButtonFiles s = Inr s1" and r: "sd_root s1 = sd_root s"
    and q: "q_items (file_delete_queue s1) = [''/'' @ f]"
    using files_viewer_select [OF assms(1-4,8,9)] assms(5,7) c_filename_short [of "''/'' @ f"] by auto
  have "sd_remove (''/'' @ f) (sd_root s1) = Some (remove1 f (sd_root s))"
    using assms(6) r by (simp add: sd_remove_def)
  then show ?thesis
    using h deleteFromSD_iter_request [OF q, of ok] by (simp add: loadFileNames_fields)
qed

theorem viewer_delete_removes_file_witness:
  "\<exists>s1. handleButtonFiles ((loadFileNames True (files_example three_files))
          \<lparr>image_view := True, file_index := 1, button_queue := \<lparr>q_len = 3, q_items = [SELECT]\<rparr>\<rparr>) = Inr s1 \<and>
        sd_root (deleteFromSD_iter True s1) = [''IMG_001.rgb'', ''IMG_003.rgb''] \<and>
        filenames (deleteFromSD_iter True s1) = [''/IMG_001.rgb'', ''/IMG_003.rgb'']"
proof -
  let ?s = "(loadFileNames True (files_example three_files))
              \<lparr>image_view := True, file_index := 1, button_queue := \<lparr>q_len = 3, q_items = [SELECT]\<rparr>\<rparr>"
  have "filenames ?s = [''/IMG_001.rgb'', ''/IMG_002.rgb'', ''/IMG_003.rgb'']" and "sd_root ?s = three_files"
    by (simp_all add: loadFileNames_fields shown_name_def three_files_def files_example_def globals_init_def)
  moreover have "q_items (file_delete_queue ?s) = []" and "q_len (file_delete_queue ?s) = 5"
    by (simp_all add: loadFileNames_def files_example_def xQueueCreate_def Let_def case_prod_unfold)
  ultimately show ?thesis
    using viewer_delete_removes_file [of ?s "[]" "''IMG_002.rgb''" True]
    by (simp add: three_files_def shown_name_def)
qed

text \<open>
  C20: a file whose name is 31 characters or longer cannot be deleted: the request holds
  the path cut to 31 characters, \<open>SD_MMC.remove\<close> finds no such file, and the worker
  consumes the request without deleting anything and without reloading the list (the
  spec refreshes the list after every delete attempt).
\<close>

theorem long_name_delete_fails:
  assumes "image_view s" and "q_items (button_queue s) = SELECT # bs"
    and "0 \<le> file_index s" and "file_index s < int (length (filenames s))"
    and "filenames s ! nat (file_index s) = ''/'' @ f" and "31 \<le> length f"
    and "take 30 f \<notin> set (sd_root s)"
    and "q_items (file_delete_queue s) = []" and "0 < q_len (file_delete_queue s)"
  shows "\<exists>s1. handleButtonFiles s = Inr s1 \<and> q_items (file_delete_queue s1) = [''/'' @ take 30 f] \<and>
           sd_root (deleteFromSD_iter ok s1) = sd_root s \<and>
           filenames (deleteFromSD_iter ok s1) = filenames s \<and>
           q_items (file_delete_queue (deleteFromSD_iter ok s1)) = []"
proof -
  have c: "c_filename (''/'' @ f) = ''/'' @ take 30 f"
    by (simp add: c_filename_def MAX_FILENAME_LENGTH_def)
  obtain s1 where h: "handleButtonFiles s = Inr s1" and r: "sd_root s1 = sd_root s"
    and fn: "filenames s1 = filenames s" and q: "q_items (file_delete_queue s1) = [''/'' @ take 30 f]"
    using files_viewer_select [OF assms(1-4,8,9)] assms(5) c by auto
  have "sd_remove (''/'' @ take 30 f) (sd_root s1) = None"
    using assms(7) r by (simp add: sd_remove_def)
  then show ?thesis
    using h q r fn deleteFromSD_iter_request [OF q, of ok] by simp
qed

theorem long_name_delete_fails_witness:
  "\<exists>s1. handleButtonFiles ((loadFileNames True (files_example [''IMG_2026-11-09_12-30-05_front_cam.rgb'']))
          \<lparr>image_view := True, button_queue := \<lparr>q_len = 3, q_items = [SELECT]\<rparr>\<rparr>) = Inr s1 \<and>
        q_items (file_delete_queue s1) = [''/'' @ take 30 ''IMG_2026-11-09_12-30-05_front_cam.rgb''] \<and>
        sd_root (deleteFromSD_iter True s1) = [''IMG_2026-11-09_12-30-05_front_cam.rgb''] \<and>
        filenames (deleteFromSD_iter True s1) = [''/IMG_2026-11-09_12-30-05_front_cam.rgb''] \<and>
        q_items (file_delete_queue (deleteFromSD_iter True s1)) = []"
proof -
  let ?f = "''IMG_2026-11-09_12-30-05_front_cam.rgb''"
  let ?s = "(loadFileNames True (files_example [?f]))
              \<lparr>image_view := True, button_queue := \<lparr>q_len = 3, q_items = [SELECT]\<rparr>\<rparr>"
  have "filenames ?s = [''/'' @ ?f]" and "sd_root ?s = [?f]"
    by (simp_all add: loadFileNames_fields shown_name_def files_example_def globals_init_def)
  moreover have "q_items (file_delete_queue ?s) = []" and "q_len (file_delete_queue ?s) = 5"
    and "file_index ?s = 0"
    by (simp_all add: loadFileNames_def files_example_def globals_init_def xQueueCreate_def Let_def
        case_prod_unfold)
  ultimately show ?thesis
    using long_name_delete_fails [of ?s "[]" ?f True] by simp
qed

text \<open>
  C21: \<open>loadFileNames\<close> computes exactly the slash-prefixed names of the root entries
  other than the hidden system folder, in directory order, and keeps the count
  \<open>num_files\<close> equal to the length of the vector; a failed open leaves both empty.
\<close>

theorem loadFileNames_spec:
  "filenames (loadFileNames root_ok s) =
     (if root_ok then map ((@) ''/'') (filter (\<lambda>f. f \<noteq> ''System Volume Information'') (sd_root s))
      else []) \<and>
   num_files (loadFileNames root_ok s) = int (length (filenames (loadFileNames root_ok s)))"
  by (simp add: loadFileNames_fields shown_name_def filter_map comp_def)

end
