(* ===== verification/Camera.thy ===== *)
theory Camera
  imports StatusBar
begin

text \<open>
  The camera subsystem and its resource lifecycle: the setup run by the display task on
  the first tick of the CAMERA_FEED screen (src/tasks.cpp, \<open>displayTask\<close>), the capture
  worker \<open>frameCaptureTask\<close> and the persist worker \<open>saveFrameToSDTask\<close> (one loop
  iteration each, src/tasks.cpp), the frame consumer \<open>drawCameraFeed\<close>
  (src/display.cpp), and \<open>handleButtonCamera\<close> (src/button_handlers.cpp), whose Back
  branch tears the subsystem down: delete both workers, drain the two frame queues,
  return every buffer, deinitialise the driver.  The frame buffers are the pairs of
  CameraDriver: dereferencing a stale one is an error value.
\<close>

section \<open>Setup\<close>

text \<open>
  The \<open>if (!camera_init)\<close> block of the CAMERA_FEED case: initialise the driver (a failure
  is only logged), create the capture and save workers, set the flags.
\<close>

definition camera_setup :: "bool \<Rightarrow> sys \<Rightarrow> sys" where
  "camera_setup probe_ok s =
     (let c = snd (esp_camera_init probe_ok camera_fb_count (camera s));
          (t1, r1) = xTaskCreate frameCaptureTask (os s);
          (t2, r2) = xTaskCreate saveFrameToSDTask r1
      in s\<lparr>camera := c, os := r2, frameCaptureTask_handle := Some t1,
           saveFrameToSDTask_handle := Some t2, camera_init := True, save_next_frame := False\<rparr>)"

section \<open>The capture worker (one iteration of frameCaptureTask)\<close>

definition frameCapture_iter :: "sys \<Rightarrow> sys" where
  "frameCapture_iter s =
     (case esp_camera_fb_get (camera s) of
        None \<Rightarrow> s
      | Some (f, c) \<Rightarrow>
          (let s1 = s\<lparr>camera := c, frame_display_queue := snd (xQueueSend (frame_display_queue s) f)\<rparr>
           in if save_next_frame s1
              then s1\<lparr>frame_save_queue := snd (xQueueSend (frame_save_queue s1) f)\<rparr>
              else s1))"

section \<open>The frame consumer (drawCameraFeed)\<close>

text \<open>
  \<open>pushImage\<close> reads \<open>fb->buf\<close>; the buffer is returned to the driver only when no save
  is pending (the save worker is expected to return it).
\<close>

definition drawCameraFeed :: "sys \<Rightarrow> sys result" where
  "drawCameraFeed s =
     (case xQueueReceive (frame_display_queue s) of
        None \<Rightarrow> Inr s
      | Some (f, q) \<Rightarrow>
          (if stale (camera s) f then Inl (UseAfterFree ''fb'')
           else if save_next_frame s then Inr (s\<lparr>frame_display_queue := q\<rparr>)
           else Inr (s\<lparr>frame_display_queue := q, camera := esp_camera_fb_return f (camera s)\<rparr>)))"

section \<open>The persist worker (one iteration of saveFrameToSDTask)\<close>

text \<open>
  The file name is \<open>sprintf(f, "/%04d-%02d-%02d_%02d-%02d-%02d.raw", ...)\<close> of the clock
  \<open>t\<close>, written into \<open>char f[32]\<close>, with \<open>fmt_0d\<close> (StatusBar) for each \<open>%0wd\<close>.
\<close>

definition frame_filename :: "tm \<Rightarrow> string" where
  "frame_filename c =
     ''/'' @ fmt_0d 4 (tm_year c + 1900) @ ''-'' @ fmt_0d 2 (tm_mon c + 1) @ ''-'' @ fmt_0d 2 (tm_mday c) @
     ''_'' @ fmt_0d 2 (tm_hour c) @ ''-'' @ fmt_0d 2 (tm_min c) @ ''-'' @ fmt_0d 2 (tm_sec c) @ ''.raw''"

text \<open>
  \<open>SD_MMC.open(f, FILE_WRITE)\<close> creates the file in the root directory (or truncates an
  existing one); \<open>open_ok\<close> is whether the card accepted it.  The directory lists names
  without the leading slash, as \<open>File::name()\<close> returns them.
\<close>

definition sd_create :: "string \<Rightarrow> string list \<Rightarrow> string list" where
  "sd_create nm root = (if nm \<in> set root then root else root @ [nm])"

definition saveFrame_iter :: "bool \<Rightarrow> sys \<Rightarrow> sys result" where
  "saveFrame_iter open_ok s =
     (case xQueueReceive (frame_save_queue s) of
        None \<Rightarrow> Inr s
      | Some (f, q) \<Rightarrow>
          (let nm = frame_filename (t s); s1 = s\<lparr>frame_save_queue := q\<rparr>
           in if MAX_FILENAME_LENGTH \<le> length nm then Inl (BufferOverflow ''f'' (Suc (length nm)))
              else if stale (camera s1) f then Inl (UseAfterFree ''fb'')
              else
                (let s2 = (if open_ok then s1\<lparr>sd_root := sd_create (tl nm) (sd_root s1),
                                             save_next_frame := False\<rparr>
                           else s1)
                 in Inr (s2\<lparr>camera := esp_camera_fb_return f (camera s2)\<rparr>))))"

section \<open>Teardown (handleButtonCamera)\<close>

text \<open>
  The drain loop of the Back branch,
  \<open>while (xQueueReceive(frame_display_queue, &fb, 0) == pdTRUE &&
          xQueueReceive(frame_save_queue, &fb, 0) == pdTRUE) {}\<close>:
  each test takes a frame from the display queue and, only if that succeeded, one from the
  save queue (\<open>&&\<close> short-circuits); no frame taken is returned.
\<close>

function teardown_drain :: "fb queue \<Rightarrow> fb queue \<Rightarrow> fb queue \<times> fb queue" where
  "teardown_drain dq sq =
     (case xQueueReceive dq of
        None \<Rightarrow> (dq, sq)
      | Some (_, dq') \<Rightarrow>
          (case xQueueReceive sq of
             None \<Rightarrow> (dq', sq)
           | Some (_, sq') \<Rightarrow> teardown_drain dq' sq'))"
  by pat_completeness auto
termination
  by (relation "measure (\<lambda>(dq, sq). length (q_items dq))")
     (auto simp: xQueueReceive_Some_iff)

text \<open>
  \<open>vTaskDelete\<close> of a \<open>NULL\<close> handle deletes the calling task, here the display task
  itself, and never returns: the error value \<open>DeletedCaller\<close>.
\<close>

definition delete_worker :: "tid option \<Rightarrow> sys \<Rightarrow> sys result" where
  "delete_worker h s =
     (case h of None \<Rightarrow> Inl DeletedCaller | Some _ \<Rightarrow> Inr (s\<lparr>os := vTaskDelete (display_tid s) h (os s)\<rparr>))"

definition camera_teardown :: "sys \<Rightarrow> sys result" where
  "camera_teardown s =
     (let s1 = s\<lparr>display_state := MENU\<rparr>
      in case delete_worker (frameCaptureTask_handle s1) s1 of
           Inl e \<Rightarrow> Inl e
         | Inr s2 \<Rightarrow>
             (let s3 = s2\<lparr>frameCaptureTask_handle := None\<rparr>
              in case delete_worker (saveFrameToSDTask_handle s3) s3 of
                   Inl e \<Rightarrow> Inl e
                 | Inr s4 \<Rightarrow>
                     (let s5 = s4\<lparr>saveFrameToSDTask_handle := None\<rparr>;
                          (dq, sq) = teardown_drain (frame_display_queue s5) (frame_save_queue s5)
                      in Inr (s5\<lparr>frame_display_queue := dq, frame_save_queue := sq,
                                 camera := esp_camera_deinit (esp_camera_return_all (camera s5)),
                                 camera_init := False, menu_init := False, save_next_frame := False,
                                 button_index := 0\<rparr>))))"

definition handleButtonCamera :: "sys \<Rightarrow> sys result" where
  "handleButtonCamera s =
     (case button_receive s of
        (False, s1) \<Rightarrow> Inr s1
      | (True, s1) \<Rightarrow>
          (if button_state s1 = SELECT then Inr (s1\<lparr>save_next_frame := True\<rparr>)
           else if button_state s1 = BACK then camera_teardown s1
           else Inr s1))"

section \<open>The CAMERA_FEED tick of the display task\<close>

definition camera_feed_tick :: "bool \<Rightarrow> sys \<Rightarrow> sys result" where
  "camera_feed_tick probe_ok s =
     (let s1 = (if \<not> camera_init s then camera_setup probe_ok s else s)
      in case drawStatusBar s1 of
           Inl e \<Rightarrow> Inl e
         | Inr s2 \<Rightarrow> (case drawCameraFeed s2 of Inl e \<Rightarrow> Inl e | Inr s3 \<Rightarrow> handleButtonCamera s3))"

section \<open>Frame ownership\<close>

text \<open>
  Who holds each frame buffer: the driver's free list and the two frame queues.  In a
  balanced state every buffer of the current pool is held exactly once and nothing else
  is held: no buffer leaked, none returned twice.
\<close>

definition holders :: "sys \<Rightarrow> fb multiset" where
  "holders s = mset (cam_free (camera s)) + mset (q_items (frame_display_queue s)) +
               mset (q_items (frame_save_queue s))"

definition balanced :: "sys \<Rightarrow> bool" where
  "balanced s \<longleftrightarrow> cam_on (camera s) \<and> holders s = mset (cam_pool (camera s))"

declare camera_setup_def [model_defs] frameCapture_iter_def [model_defs]
  drawCameraFeed_def [model_defs] saveFrame_iter_def [model_defs]
  delete_worker_def [model_defs] camera_teardown_def [model_defs]
  handleButtonCamera_def [model_defs] holders_def [model_defs]

section \<open>Concrete states\<close>

text \<open>
  A camera session just set up from the menu example, and states reached from it by
  the interleavings the properties below are about.
\<close>

definition camera_session_example :: sys where
  "camera_session_example =
     camera_setup True
       (menu_screen_example\<lparr>display_state := CAMERA_FEED, frame_display_queue := xQueueCreate 1,
                              frame_save_queue := xQueueCreate 1\<rparr>)"

definition stale_save_example :: sys where
  "stale_save_example =
     camera_session_example\<lparr>button_queue := \<lparr>q_len = 3, q_items = [BACK]\<rparr>,
        frame_save_queue := \<lparr>q_len = 1, q_items = [(1, 0)]\<rparr>,
        camera := \<lparr>cam_on = True, cam_gen = 1, cam_slots = 5,
                   cam_free = [(1, 1), (1, 2), (1, 3), (1, 4)]\<rparr>\<rparr>"

definition full_queue_example :: sys where
  "full_queue_example =
     camera_session_example\<lparr>frame_display_queue := \<lparr>q_len = 1, q_items = [(1, 0)]\<rparr>,
        camera := \<lparr>cam_on = True, cam_gen = 1, cam_slots = 5,
                   cam_free = [(1, 1), (1, 2), (1, 3), (1, 4)]\<rparr>\<rparr>"

definition save_pending_example :: sys where
  "save_pending_example =
     camera_session_example\<lparr>save_next_frame := True,
        frame_display_queue := \<lparr>q_len = 1, q_items = [(1, 1)]\<rparr>,
        frame_save_queue := \<lparr>q_len = 1, q_items = [(1, 0)]\<rparr>,
        camera := \<lparr>cam_on = True, cam_gen = 1, cam_slots = 5, cam_free = [(1, 2), (1, 3), (1, 4)]\<rparr>\<rparr>"

definition double_return_example :: sys where
  "double_return_example =
     camera_session_example\<lparr>save_next_frame := True,
        frame_display_queue := \<lparr>q_len = 1, q_items = [(1, 0)]\<rparr>,
        frame_save_queue := \<lparr>q_len = 1, q_items = [(1, 0)]\<rparr>,
        camera := \<lparr>cam_on = True, cam_gen = 1, cam_slots = 5,
                   cam_free = [(1, 1), (1, 2), (1, 3), (1, 4)]\<rparr>\<rparr>"

section \<open>The drain loop\<close>

declare teardown_drain.simps [simp del]

lemma teardown_drain_Nil [simp]: "q_items dq = [] \<Longrightarrow> teardown_drain dq sq = (dq, sq)"
  by (simp add: teardown_drain.simps)

lemma teardown_drain_Cons_Nil [simp]:
  "q_items dq = x # xs \<Longrightarrow> q_items sq = [] \<Longrightarrow> teardown_drain dq sq = (dq\<lparr>q_items := xs\<rparr>, sq)"
  by (simp add: teardown_drain.simps)

lemma teardown_drain_Cons_Cons:
  "q_items dq = x # xs \<Longrightarrow> q_items sq = y # ys \<Longrightarrow>
   teardown_drain dq sq = teardown_drain (dq\<lparr>q_items := xs\<rparr>) (sq\<lparr>q_items := ys\<rparr>)"
  by (simp add: teardown_drain.simps)

lemma teardown_drain_items:
  "teardown_drain dq sq = (dq', sq') \<Longrightarrow>
   q_items dq' = drop (Suc (length (q_items sq))) (q_items dq) \<and>
   q_items sq' = drop (length (q_items dq)) (q_items sq) \<and>
   q_len dq' = q_len dq \<and> q_len sq' = q_len sq"
proof (induction "length (q_items dq)" arbitrary: dq sq dq' sq')
  case 0
  then show ?case by simp
next
  case (Suc n)
  from Suc.hyps(2) obtain x xs where dx: "q_items dq = x # xs" by (cases "q_items dq") auto
  show ?case
  proof (cases "q_items sq")
    case Nil
    with dx Suc.prems show ?thesis by auto
  next
    case (Cons y ys)
    with dx Suc.prems have rec: "teardown_drain (dq\<lparr>q_items := xs\<rparr>) (sq\<lparr>q_items := ys\<rparr>) = (dq', sq')"
      by (simp add: teardown_drain_Cons_Cons)
    from Suc.hyps(1) [of "dq\<lparr>q_items := xs\<rparr>" "sq\<lparr>q_items := ys\<rparr>" dq' sq'] Suc.hyps(2) dx rec
    have "q_items dq' = drop (Suc (length ys)) xs \<and> q_items sq' = drop (length xs) ys \<and>
          q_len dq' = q_len dq \<and> q_len sq' = q_len sq"
      by simp
    with dx Cons show ?thesis by simp
  qed
qed

lemma teardown_drain_display_empty:
  assumes "length (q_items dq) \<le> 1"
  shows "q_items (fst (teardown_drain dq sq)) = []"
proof -
  obtain dq' sq' where d: "teardown_drain dq sq = (dq', sq')" by fastforce
  from teardown_drain_items [OF d] assms show ?thesis by (simp add: d)
qed

lemma teardown_drain_save_left:
  "q_items dq = [] \<Longrightarrow> teardown_drain dq sq = (dq, sq)"
  by simp

section \<open>The teardown\<close>

lemma camera_teardown_result:
  assumes "frameCaptureTask_handle s = Some tc" and "saveFrameToSDTask_handle s = Some ts"
  shows "camera_teardown s =
    Inr (s\<lparr>display_state := MENU,
           os := vTaskDelete (display_tid s) (Some ts) (vTaskDelete (display_tid s) (Some tc) (os s)),
           frameCaptureTask_handle := None, saveFrameToSDTask_handle := None,
           frame_display_queue := fst (teardown_drain (frame_display_queue s) (frame_save_queue s)),
           frame_save_queue := snd (teardown_drain (frame_display_queue s) (frame_save_queue s)),
           camera := esp_camera_deinit (esp_camera_return_all (camera s)),
           camera_init := False, menu_init := False, save_next_frame := False, button_index := 0\<rparr>)"
  using assms by (simp add: camera_teardown_def delete_worker_def split: prod.splits)

lemma live_delete_two:
  "live (vTaskDelete d (Some ts) (vTaskDelete d (Some tc) r)) =
   filter (\<lambda>x. fst x \<noteq> tc \<and> fst x \<noteq> ts) (live r)"
  by (simp add: vTaskDelete_def target_def filter_filter case_prod_beta conj_commute)

section \<open>Ownership accounting\<close>

lemma balanced_count_pool:
  assumes "balanced s" and "f \<in> set (cam_pool (camera s))"
  shows "count (holders s) f = 1"
proof -
  have "count (mset (cam_pool (camera s))) f = 1"
    using mset_cam_pool_distinct assms(2) by (rule distinct_count_mset_1)
  with assms(1) show ?thesis by (simp add: balanced_def)
qed

lemma balanced_holder_in_pool:
  assumes "balanced s" and "f \<in># holders s"
  shows "f \<in> set (cam_pool (camera s))"
  using assms by (simp add: balanced_def)

lemma balanced_queue_not_stale:
  assumes "balanced s" and "f \<in> set (q_items (frame_display_queue s)) \<or> f \<in> set (q_items (frame_save_queue s))"
  shows "\<not> stale (camera s) f"
proof -
  from assms have "f \<in> set (cam_pool (camera s))"
    by (intro balanced_holder_in_pool) (auto simp: holders_def)
  with assms(1) show ?thesis by (auto simp: stale_def balanced_def cam_pool_def)
qed

lemma frameCapture_iter_fields:
  assumes "esp_camera_fb_get (camera s) = Some (f, c)"
  shows "camera (frameCapture_iter s) = c"
    and "q_items (frame_display_queue (frameCapture_iter s)) =
           q_items (snd (xQueueSend (frame_display_queue s) f))"
    and "q_items (frame_save_queue (frameCapture_iter s)) =
           (if save_next_frame s then q_items (snd (xQueueSend (frame_save_queue s) f))
            else q_items (frame_save_queue s))"
    and "save_next_frame (frameCapture_iter s) = save_next_frame s"
  using assms by (simp_all add: frameCapture_iter_def Let_def)

lemma mset_send: "mset (q_items (snd (xQueueSend q f))) =
    mset (q_items q) + (if length (q_items q) < q_len q then {#f#} else {#})"
  by (simp add: xQueueSend_def)

lemma holders_capture:
  assumes "cam_free (camera s) = f # fs" and "cam_on (camera s)"
  shows "holders (frameCapture_iter s) + {#f#} =
           holders s +
           (if length (q_items (frame_display_queue s)) < q_len (frame_display_queue s) then {#f#} else {#}) +
           (if save_next_frame s \<and> length (q_items (frame_save_queue s)) < q_len (frame_save_queue s)
            then {#f#} else {#})"
proof -
  have get: "esp_camera_fb_get (camera s) = Some (f, camera s\<lparr>cam_free := fs\<rparr>)"
    using assms by (simp add: esp_camera_fb_get_def)
  show ?thesis
    by (simp add: holders_def frameCapture_iter_fields [OF get] mset_send assms(1))
qed

lemma capture_keeps_pool [simp]:
  "cam_pool (camera (frameCapture_iter s)) = cam_pool (camera s) \<and>
   cam_on (camera (frameCapture_iter s)) = cam_on (camera s)"
proof (cases "esp_camera_fb_get (camera s)")
  case None
  then show ?thesis by (simp add: frameCapture_iter_def)
next
  case (Some a)
  then obtain f c where get: "esp_camera_fb_get (camera s) = Some (f, c)" by (cases a) auto
  then have "c = camera s\<lparr>cam_free := tl (cam_free (camera s))\<rparr>" and "cam_on (camera s)"
    by (auto simp: esp_camera_fb_get_def split: if_splits list.splits)
  then show ?thesis by (simp add: frameCapture_iter_fields(1) [OF get] cam_pool_def)
qed

lemma handleButtonCamera_back:
  "q_items (button_queue s) = BACK # bs \<Longrightarrow>
   handleButtonCamera s = camera_teardown (s\<lparr>button_state := BACK, button_queue := button_queue s\<lparr>q_items := bs\<rparr>\<rparr>)"
  by (simp add: handleButtonCamera_def button_receive_front)

lemma balanced_free_in_pool:
  "balanced s \<Longrightarrow> cam_free (camera s) = f # fs \<Longrightarrow> f \<in> set (cam_pool (camera s))"
  by (rule balanced_holder_in_pool) (simp_all add: holders_def)

lemma holders_capture_none:
  "cam_free (camera s) = [] \<Longrightarrow> frameCapture_iter s = s"
  by (simp add: frameCapture_iter_def esp_camera_fb_get_def)

lemma handleButtonCamera_back_result:
  assumes "q_items (button_queue s) = BACK # bs"
    and "frameCaptureTask_handle s = Some tc" and "saveFrameToSDTask_handle s = Some ts"
  shows "handleButtonCamera s =
    Inr (s\<lparr>button_state := BACK, button_queue := button_queue s\<lparr>q_items := bs\<rparr>, display_state := MENU,
           os := vTaskDelete (display_tid s) (Some ts) (vTaskDelete (display_tid s) (Some tc) (os s)),
           frameCaptureTask_handle := None, saveFrameToSDTask_handle := None,
           frame_display_queue := fst (teardown_drain (frame_display_queue s) (frame_save_queue s)),
           frame_save_queue := snd (teardown_drain (frame_display_queue s) (frame_save_queue s)),
           camera := esp_camera_deinit (esp_camera_return_all (camera s)),
           camera_init := False, menu_init := False, save_next_frame := False, button_index := 0\<rparr>)"
  using assms by (simp add: handleButtonCamera_back camera_teardown_result)

lemma count_holders_capture_full:
  assumes "balanced s" and "\<not> save_next_frame s"
    and "cam_free (camera s) = f # fs"
    and "q_len (frame_display_queue s) \<le> length (q_items (frame_display_queue s))"
  shows "holders (frameCapture_iter s) + {#f#} = holders s"
proof -
  have "cam_on (camera s)" using assms(1) by (simp add: balanced_def)
  with holders_capture [OF assms(3)] assms(2,4) show ?thesis by simp
qed

lemma capture_balanced:
  assumes "balanced s" and "\<not> save_next_frame s"
    and "length (q_items (frame_display_queue s)) < q_len (frame_display_queue s)"
  shows "balanced (frameCapture_iter s)"
proof (cases "cam_free (camera s)")
  case Nil
  with assms(1) show ?thesis by (simp add: holders_capture_none)
next
  case (Cons f fs)
  have on: "cam_on (camera s)" using assms(1) by (simp add: balanced_def)
  from holders_capture [OF Cons on] assms(2,3)
  have "holders (frameCapture_iter s) = holders s" by simp
  with assms(1) show ?thesis by (simp add: balanced_def)
qed

lemma fb_return_on [simp]:
  "cam_on c \<Longrightarrow> cam_free (esp_camera_fb_return f c) = cam_free c @ [f] \<and>
                 cam_pool (esp_camera_fb_return f c) = cam_pool c \<and> cam_on (esp_camera_fb_return f c)"
  by (simp add: esp_camera_fb_return_def cam_pool_def)

lemma draw_balanced:
  assumes "balanced s" and "\<not> save_next_frame s"
  shows "\<exists>s'. drawCameraFeed s = Inr s' \<and> balanced s'"
proof (cases "q_items (frame_display_queue s)")
  case Nil
  with assms(1) show ?thesis by (simp add: drawCameraFeed_def)
next
  case (Cons f ds)
  have ns: "\<not> stale (camera s) f" using assms(1) Cons by (intro balanced_queue_not_stale) auto
  have on: "cam_on (camera s)" using assms(1) by (simp add: balanced_def)
  let ?s' = "s\<lparr>frame_display_queue := frame_display_queue s\<lparr>q_items := ds\<rparr>,
                camera := esp_camera_fb_return f (camera s)\<rparr>"
  have d: "drawCameraFeed s = Inr ?s'" using Cons ns assms(2) by (simp add: drawCameraFeed_def)
  have "holders ?s' = holders s" using Cons on by (simp add: holders_def)
  with assms(1) on d show ?thesis by (simp add: balanced_def)
qed

lemma save_balanced:
  assumes "balanced s" and "length (frame_filename (t s)) < MAX_FILENAME_LENGTH"
  shows "\<exists>s'. saveFrame_iter open_ok s = Inr s' \<and> balanced s'"
proof (cases "q_items (frame_save_queue s)")
  case Nil
  with assms(1) show ?thesis by (simp add: saveFrame_iter_def)
next
  case (Cons f fs)
  have ns: "\<not> stale (camera s) f" using assms(1) Cons by (intro balanced_queue_not_stale) auto
  have on: "cam_on (camera s)" using assms(1) by (simp add: balanced_def)
  obtain s' where r: "saveFrame_iter open_ok s = Inr s'"
    and cs: "camera s' = esp_camera_fb_return f (camera s)"
    and dq: "frame_display_queue s' = frame_display_queue s"
    and sq: "q_items (frame_save_queue s') = fs"
    using Cons ns assms(2) by (simp add: saveFrame_iter_def Let_def)
  have "holders s' = holders s" using Cons on cs dq sq by (simp add: holders_def)
  with assms(1) on cs r show ?thesis by (simp add: balanced_def)
qed

section \<open>Properties of the camera lifecycle\<close>

text \<open>
  C6: Back on the camera screen tears the subsystem down: the display returns to the
  menu, the capture and save workers are deleted (and no other task) and their handles
  cleared, the display queue is left empty, the driver is deinitialised with no buffer
  left in its free list, and the camera, entered and save flags and the selection index
  are reset (spec, section 4.2, CameraFeed teardown).
\<close>

theorem camera_back_teardown:
  assumes "q_items (button_queue s) = BACK # bs"
    and "frameCaptureTask_handle s = Some tc" and "saveFrameToSDTask_handle s = Some ts"
    and "length (q_items (frame_display_queue s)) \<le> 1"
  shows "\<exists>s'. handleButtonCamera s = Inr s' \<and> display_state s' = MENU \<and>
              prev_state s' = prev_state s \<and>
              frameCaptureTask_handle s' = None \<and> saveFrameToSDTask_handle s' = None \<and>
              live (os s') = filter (\<lambda>x. fst x \<noteq> tc \<and> fst x \<noteq> ts) (live (os s)) \<and>
              \<not> cam_on (camera s') \<and> cam_free (camera s') = [] \<and>
              q_items (frame_display_queue s') = [] \<and>
              \<not> camera_init s' \<and> \<not> menu_init s' \<and> \<not> save_next_frame s' \<and> button_index s' = 0"
  using handleButtonCamera_back_result [OF assms(1-3)] teardown_drain_display_empty [OF assms(4)]
  by (simp add: live_delete_two esp_camera_deinit_def)

lemma camera_session_example_simps [simp]:
  "frameCaptureTask_handle camera_session_example = Some 1"
  "saveFrameToSDTask_handle camera_session_example = Some 2"
  "camera camera_session_example =
     \<lparr>cam_on = True, cam_gen = 1, cam_slots = 5, cam_free = [(1, 0), (1, 1), (1, 2), (1, 3), (1, 4)]\<rparr>"
  "q_len (frame_display_queue camera_session_example) = 1"
  "q_len (frame_save_queue camera_session_example) = 1"
  "q_items (frame_display_queue camera_session_example) = []"
  "q_items (frame_save_queue camera_session_example) = []"
  "save_next_frame camera_session_example = False"
  "t camera_session_example = tm_example"
  "display_tid camera_session_example = 0"
  "prev_state camera_session_example = MENU"
  "display_state camera_session_example = CAMERA_FEED"
  "camera_init camera_session_example"
  "live (os camera_session_example) = [(0, loopTask), (1, frameCaptureTask), (2, saveFrameToSDTask)]"
  by (simp_all add: camera_session_example_def camera_setup_def menu_screen_example_def globals_init_def
      esp_camera_init_def cam_off_def xTaskCreate_def xQueueCreate_def camera_fb_count_def
      upt_conv_Cons)

theorem camera_back_teardown_witness:
  "\<exists>s'. handleButtonCamera (camera_session_example\<lparr>button_queue := \<lparr>q_len = 3, q_items = [BACK]\<rparr>\<rparr>) = Inr s' \<and>
        display_state s' = MENU \<and> prev_state s' = MENU \<and>
        frameCaptureTask_handle s' = None \<and> saveFrameToSDTask_handle s' = None \<and>
        live (os s') = [(0, loopTask)] \<and>
        \<not> cam_on (camera s') \<and> cam_free (camera s') = [] \<and>
        q_items (frame_display_queue s') = [] \<and>
        \<not> camera_init s' \<and> \<not> menu_init s' \<and> \<not> save_next_frame s' \<and> button_index s' = 0"
  using camera_back_teardown [of "camera_session_example\<lparr>button_queue := \<lparr>q_len = 3, q_items = [BACK]\<rparr>\<rparr>"
      "[]" 1 2]
  by simp

text \<open>
  C7: the drain loop of the teardown does not drain the save queue when the display
  queue is empty: \<open>&&\<close> never evaluates the second receive.  A frame waiting for the
  (now deleted) save worker survives the teardown in the save queue, although the
  driver has freed the pool it points into.
\<close>

theorem camera_back_keeps_stale_save_frame:
  assumes "q_items (button_queue s) = BACK # bs"
    and "frameCaptureTask_handle s = Some tc" and "saveFrameToSDTask_handle s = Some ts"
    and "q_items (frame_display_queue s) = []" and "q_items (frame_save_queue s) = [f]"
  shows "\<exists>s'. handleButtonCamera s = Inr s' \<and> q_items (frame_save_queue s') = [f] \<and>
              stale (camera s') f"
  using handleButtonCamera_back_result [OF assms(1-3)] assms(4,5) by simp

theorem camera_back_keeps_stale_save_frame_witness:
  "\<exists>s'. handleButtonCamera stale_save_example = Inr s' \<and>
        q_items (frame_save_queue s') = [(1, 0)] \<and> stale (camera s') (1, 0)"
  using camera_back_keeps_stale_save_frame [of stale_save_example "[]" 1 2 "(1, 0)"]
  by (simp add: stale_save_example_def)

text \<open>
  C8: that stale frame is used after free on the next visit to the camera screen: the
  setup re-initialises the driver (a new pool) and creates a new save worker, whose first
  iteration receives the old pointer and writes the freed buffer to the SD card.
\<close>

theorem camera_reentry_saves_freed_frame:
  assumes "q_items (button_queue s) = BACK # bs"
    and "frameCaptureTask_handle s = Some tc" and "saveFrameToSDTask_handle s = Some ts"
    and "q_items (frame_display_queue s) = []" and "q_items (frame_save_queue s) = [f]"
    and "fst f \<le> cam_gen (camera s)" and "length (frame_filename (t s)) < MAX_FILENAME_LENGTH"
  shows "\<exists>s'. handleButtonCamera s = Inr s' \<and>
              saveFrame_iter open_ok (camera_setup True s') = Inl (UseAfterFree ''fb'')"
proof -
  from handleButtonCamera_back_result [OF assms(1-3)] assms(4,5)
  obtain s' where h: "handleButtonCamera s = Inr s'" and sq: "q_items (frame_save_queue s') = [f]"
    and c: "camera s' = esp_camera_deinit (esp_camera_return_all (camera s))" and tt: "t s' = t s"
    by simp
  have cam2: "camera (camera_setup True s') =
      \<lparr>cam_on = True, cam_gen = Suc (cam_gen (camera s)), cam_slots = camera_fb_count,
       cam_free = map (Pair (Suc (cam_gen (camera s)))) [0..<camera_fb_count]\<rparr>"
    by (simp add: camera_setup_def c esp_camera_init_def esp_camera_deinit_def
        esp_camera_return_all_def split: prod.splits)
  have "frame_save_queue (camera_setup True s') = frame_save_queue s'"
    and "t (camera_setup True s') = t s'"
    by (simp_all add: camera_setup_def split: prod.splits)
  with sq tt cam2 assms(6,7) have "saveFrame_iter open_ok (camera_setup True s') = Inl (UseAfterFree ''fb'')"
    by (simp add: saveFrame_iter_def stale_def Let_def)
  with h show ?thesis by blast
qed

theorem camera_reentry_saves_freed_frame_witness:
  "\<exists>s'. handleButtonCamera stale_save_example = Inr s' \<and>
        saveFrame_iter True (camera_setup True s') = Inl (UseAfterFree ''fb'')"
proof -
  have len: "length (frame_filename tm_example) = 24"
    by (simp add: frame_filename_def fmt_0d_def zpad_def tm_example_def)
  show ?thesis
    using camera_reentry_saves_freed_frame [of stale_save_example "[]" 1 2 "(1, 0)" True] len
    by (simp add: stale_save_example_def MAX_FILENAME_LENGTH_def)
qed

text \<open>
  C9: the capture worker leaks a frame when the display queue is full: with no save
  pending, the frame it took from the driver is neither sent anywhere nor returned, so
  from a balanced state no one holds it any more and the state is no longer balanced.
\<close>

theorem frameCapture_full_queue_leaks:
  assumes "balanced s" and "\<not> save_next_frame s"
    and "q_len (frame_display_queue s) \<le> length (q_items (frame_display_queue s))"
    and "cam_free (camera s) = f # fs"
  shows "count (holders (frameCapture_iter s)) f = 0 \<and> \<not> balanced (frameCapture_iter s)"
proof -
  have hc: "holders (frameCapture_iter s) + {#f#} = holders s"
    using count_holders_capture_full [OF assms(1,2,4,3)] .
  have pool: "f \<in> set (cam_pool (camera s))" by (rule balanced_free_in_pool [OF assms(1,4)])
  have "count (holders s) f = 1" by (rule balanced_count_pool [OF assms(1) pool])
  moreover have "count (holders (frameCapture_iter s)) f + 1 = count (holders s) f"
    using arg_cong [OF hc, of "\<lambda>M. count M f"] by simp
  ultimately have c0: "count (holders (frameCapture_iter s)) f = 0" by simp
  have "count (mset (cam_pool (camera (frameCapture_iter s)))) f = 1"
    using pool by (simp add: distinct_count_mset_1 mset_cam_pool_distinct)
  with c0 show ?thesis by (auto simp: balanced_def)
qed

lemma upt_5: "[0..<5] = [0, 1, 2, 3, (4::nat)]"
  by (simp add: upt_rec)

lemma full_queue_example_balanced: "balanced full_queue_example"
  by (simp add: full_queue_example_def balanced_def holders_def cam_pool_def upt_5 add_mset_commute)

theorem frameCapture_full_queue_leaks_witness:
  "count (holders (frameCapture_iter full_queue_example)) (1, 1) = 0 \<and>
   \<not> balanced (frameCapture_iter full_queue_example)"
  using frameCapture_full_queue_leaks [OF full_queue_example_balanced, of "(1, 1)" "[(1, 2), (1, 3), (1, 4)]"]
  by (simp add: full_queue_example_def)

text \<open>
  C10: with no save pending, the capture-and-display pipeline keeps every frame buffer
  held exactly once: from a balanced state, a capture into a display queue with room, a
  display step, and a save-worker iteration (when the file name fits its buffer) each
  lead to a balanced state, and the display step raises no error.
\<close>

theorem steady_state_balanced:
  assumes "balanced s" and "\<not> save_next_frame s"
  shows "(length (q_items (frame_display_queue s)) < q_len (frame_display_queue s) \<longrightarrow>
            balanced (frameCapture_iter s)) \<and>
         (\<exists>s'. drawCameraFeed s = Inr s' \<and> balanced s') \<and>
         (length (frame_filename (t s)) < MAX_FILENAME_LENGTH \<longrightarrow>
            (\<exists>s'. saveFrame_iter open_ok s = Inr s' \<and> balanced s'))"
  using capture_balanced [OF assms] draw_balanced [OF assms] save_balanced [OF assms(1)] by blast

lemma camera_session_example_balanced: "balanced camera_session_example"
  by (simp add: balanced_def holders_def cam_pool_def upt_5)

theorem steady_state_balanced_witness:
  "balanced (frameCapture_iter camera_session_example) \<and>
   (\<exists>s'. drawCameraFeed (frameCapture_iter camera_session_example) = Inr s' \<and> balanced s')"
proof -
  have b1: "balanced (frameCapture_iter camera_session_example)"
    using steady_state_balanced [OF camera_session_example_balanced] by simp
  have f1: "\<not> save_next_frame (frameCapture_iter camera_session_example)"
    by (simp add: frameCapture_iter_def esp_camera_fb_get_def Let_def)
  show ?thesis using b1 steady_state_balanced [OF b1 f1] by blast
qed

text \<open>
  C11: a frame shown while a save is pending is never returned: \<open>drawCameraFeed\<close> skips
  the return whenever \<open>save_next_frame\<close> is set, even for a frame that never went to
  the save queue (captured before Select, or dropped by a full save queue).  A frame only
  the display queue held is then held by no one: it leaks.
\<close>

theorem draw_save_pending_leaks:
  assumes "q_items (frame_display_queue s) = f # ds" and "save_next_frame s"
    and "\<not> stale (camera s) f" and "count (holders s) f = 1"
  shows "\<exists>s'. drawCameraFeed s = Inr s' \<and> count (holders s') f = 0 \<and> camera s' = camera s"
proof -
  let ?s' = "s\<lparr>frame_display_queue := frame_display_queue s\<lparr>q_items := ds\<rparr>\<rparr>"
  have d: "drawCameraFeed s = Inr ?s'" using assms(1-3) by (simp add: drawCameraFeed_def)
  have "holders s = holders ?s' + {#f#}" using assms(1) by (simp add: holders_def)
  with assms(4) have "count (holders ?s') f = 0" by simp
  with d show ?thesis by simp
qed

theorem draw_save_pending_leaks_witness:
  "\<exists>s'. drawCameraFeed save_pending_example = Inr s' \<and> count (holders s') (1, 1) = 0 \<and>
        camera s' = camera save_pending_example"
  using draw_save_pending_leaks [of save_pending_example "(1, 1)" "[]"]
  by (simp add: save_pending_example_def holders_def stale_def)

text \<open>
  C12: a frame sent to both queues is returned twice when the save worker runs first: it
  saves the frame, returns it and clears \<open>save_next_frame\<close>; the display task then
  shows the same frame with no save pending and returns it again, so the driver's free
  list holds it twice.
\<close>

theorem save_then_draw_double_return:
  assumes "q_items (frame_display_queue s) = [f]" and "q_items (frame_save_queue s) = [f]"
    and "save_next_frame s" and "\<not> stale (camera s) f" and "f \<notin> set (cam_free (camera s))"
    and "length (frame_filename (t s)) < MAX_FILENAME_LENGTH"
  shows "\<exists>s1 s2. saveFrame_iter True s = Inr s1 \<and> drawCameraFeed s1 = Inr s2 \<and>
                 count (mset (cam_free (camera s2))) f = 2"
proof -
  have on: "cam_on (camera s)" using assms(4) by (simp add: stale_def)
  obtain s1 where r1: "saveFrame_iter True s = Inr s1"
    and c1: "camera s1 = esp_camera_fb_return f (camera s)"
    and dq1: "frame_display_queue s1 = frame_display_queue s"
    and fl1: "\<not> save_next_frame s1"
    using assms(2,4,6) by (simp add: saveFrame_iter_def Let_def)
  have ns1: "\<not> stale (camera s1) f"
    using assms(4) c1 on by (simp add: stale_def esp_camera_fb_return_def)
  obtain s2 where r2: "drawCameraFeed s1 = Inr s2"
    and c2: "camera s2 = esp_camera_fb_return f (camera s1)"
    using assms(1) dq1 ns1 fl1 by (simp add: drawCameraFeed_def)
  have "count (mset (cam_free (camera s2))) f = 2"
    using c1 c2 on assms(5) by (simp add: count_mset_0_iff)
  with r1 r2 show ?thesis by blast
qed

theorem save_then_draw_double_return_witness:
  "\<exists>s1 s2. saveFrame_iter True double_return_example = Inr s1 \<and> drawCameraFeed s1 = Inr s2 \<and>
           count (mset (cam_free (camera s2))) (1, 0) = 2"
proof -
  have len: "length (frame_filename tm_example) = 24"
    by (simp add: frame_filename_def fmt_0d_def zpad_def tm_example_def)
  show ?thesis
    using save_then_draw_double_return [of double_return_example "(1, 0)"] len
    by (simp add: double_return_example_def stale_def MAX_FILENAME_LENGTH_def)
qed

end
