(* ===== verification/Workers.thy ===== *)
theory Workers
  imports Camera
begin

text \<open>
  The permanent workers created by \<open>setup()\<close> (src/tasks.cpp), one loop iteration each:
  the button sampler \<open>buttonTask\<close>, which classifies a 12-bit ADC reading into a button
  event and sends it into \<open>button_queue\<close>; the telemetry worker \<open>systemDataTask\<close>, which
  keeps the rolling heap history \<open>heap_usage\<close> and the peak \<open>max_heap\<close> and overwrites
  \<open>sys_info_queue\<close>; the WiFi worker \<open>wifiDataTask\<close>, which packs a scan into a
  \<open>WiFiInfo\<close> and overwrites \<open>wifi_queue\<close> (the clock worker is in System).  Their
  consumers in src/display.cpp and src/helpers.cpp are here too: \<open>drawSystemData\<close> with
  \<open>generateXYArrays\<close>, \<open>drawGraph\<close> and \<open>initHeapQueue\<close>, and \<open>drawWifi\<close>.  Hardware readings (the
  ADC value, heap counters, \<open>millis()\<close>, the scan result, the local time) are inputs.
\<close>

section \<open>The button sampler (buttonTask)\<close>

text \<open>
  The C enum \<open>ButtonState\<close> numbers its values in declaration order; the order of these
  numbers is the order of the ADC bands, which makes \<open>button_state\<close> a linear order.
\<close>

primrec button_code :: "button_state \<Rightarrow> nat" where
  "button_code NONE = 0"
| "button_code UP = 1"
| "button_code DOWN = 2"
| "button_code SELECT = 3"
| "button_code BACK = 4"

instantiation button_state :: linorder
begin

definition less_eq_button_state :: "button_state \<Rightarrow> button_state \<Rightarrow> bool" where
  "x \<le> y \<longleftrightarrow> button_code x \<le> button_code y"

definition less_button_state :: "button_state \<Rightarrow> button_state \<Rightarrow> bool" where
  "x < y \<longleftrightarrow> button_code x < button_code y"

instance
proof
  fix x y z :: button_state
  show "x < y \<longleftrightarrow> x \<le> y \<and> \<not> y \<le> x"
    by (auto simp: less_eq_button_state_def less_button_state_def)
  show "x \<le> x" by (simp add: less_eq_button_state_def)
  show "x \<le> y \<Longrightarrow> y \<le> z \<Longrightarrow> x \<le> z" by (simp add: less_eq_button_state_def)
  show "x \<le> y \<Longrightarrow> y \<le> x \<Longrightarrow> x = y"
    by (cases x; cases y) (simp_all add: less_eq_button_state_def)
  show "x \<le> y \<or> y \<le> x" by (auto simp: less_eq_button_state_def)
qed

end

text \<open>
  \<open>analogRead\<close> returns a 12-bit value, held in \<open>int reading\<close>.  The if-chain leaves the
  local \<open>state\<close> uninitialised when no band matches; that case is \<open>None\<close>, and sending
  the uninitialised \<open>state\<close> is the error \<open>Uninitialised\<close>.
\<close>

definition classify_reading :: "12 word \<Rightarrow> button_state option" where
  "classify_reading w =
     (let reading = uint w
      in if reading < 100 then Some NONE
         else if reading \<le> UP_ADC then Some UP
         else if reading \<le> DOWN_ADC then Some DOWN
         else if reading \<le> SELECT_ADC then Some SELECT
         else if reading \<le> BACK_ADC then Some BACK
         else None)"

text \<open>One iteration: classify, then \<open>xQueueSend(button_queue, &state, 0)\<close> (the delay is not modelled).\<close>

definition buttonTask_iter :: "12 word \<Rightarrow> sys \<Rightarrow> sys result" where
  "buttonTask_iter w s =
     (case classify_reading w of
        None \<Rightarrow> Inl (Uninitialised ''state'')
      | Some st \<Rightarrow> Inr (s\<lparr>button_queue := snd (xQueueSend (button_queue s) st)\<rparr>))"

section \<open>The telemetry worker (systemDataTask) and its history\<close>

text \<open>
  \<open>initHeapQueue\<close> (src/helpers.cpp) pushes \<open>min_heap\<close> sixty times; a \<open>std::queue\<close> is a
  list, front first.
\<close>

definition initHeapQueue :: "sys \<Rightarrow> sys" where
  "initHeapQueue s = s\<lparr>heap_usage := heap_usage s @ replicate NUM_SYS_DATA_POINTS (min_heap s)\<rparr>"

text \<open>
  Heap use in kB: \<open>(ESP.getHeapSize() - ESP.getFreeHeap()) / 1000\<close> is computed in
  \<open>uint32_t\<close> (wrapping subtraction, unsigned division) and stored in an \<open>int\<close>.
\<close>

definition heap_used_kb :: "32 word \<Rightarrow> 32 word \<Rightarrow> int" where
  "heap_used_kb heap_size free_heap = uint ((heap_size - free_heap) div 1000)"

text \<open>
  One iteration, from the readings \<open>ESP.getMinFreeHeap()\<close>, \<open>getCpuFrequencyMhz()\<close>,
  \<open>millis()\<close>, \<open>ESP.getHeapSize()\<close> and \<open>ESP.getFreeHeap()\<close>.
\<close>

definition systemDataTask_iter :: "int \<Rightarrow> int \<Rightarrow> 32 word \<Rightarrow> 32 word \<Rightarrow> 32 word \<Rightarrow> sys \<Rightarrow> sys" where
  "systemDataTask_iter mfh cf ms hs fh s =
     (let info = \<lparr>min_free_heap = mfh, cpu_freq = cf, uptime = unat ms div 1000\<rparr>;
          used = heap_used_kb hs fh;
          s1 = (if used > max_heap s then s\<lparr>max_heap := used\<rparr> else s);
          s2 = (if length (heap_usage s1) > NUM_SYS_DATA_POINTS
                then s1\<lparr>heap_usage := tl (heap_usage s1)\<rparr>
                else s1\<lparr>heap_usage := heap_usage s1 @ [used]\<rparr>)
      in s2\<lparr>sys_info_queue := xQueueOverwrite (sys_info_queue s2) info\<rparr>)"

text \<open>
  \<open>generateXYArrays\<close>: the loop over a copy of the history, writing \<open>x_c[i] = i + 1\<close> and
  \<open>y_c[i] = q.front()\<close>, popping, and leaving the loop once the copy is empty.
  \<open>front()\<close> of an empty \<open>std::queue\<close> is undefined: an out-of-range read.
\<close>

fun gen_xy_loop :: "nat \<Rightarrow> int list \<Rightarrow> int list \<Rightarrow> int list \<Rightarrow> (int list \<times> int list) result" where
  "gen_xy_loop i q xs ys =
     (if i < NUM_SYS_DATA_POINTS then
        (case q of
           [] \<Rightarrow> Inl (OutOfRange ''heap_usage'' 0)
         | y # q' \<Rightarrow>
             (let xs' = xs[i := int i + 1]; ys' = ys[i := y]
              in if q' = [] then Inr (xs', ys') else gen_xy_loop (Suc i) q' xs' ys'))
      else Inr (xs, ys))"

definition generateXYArrays :: "int list \<Rightarrow> (int list \<times> int list) result" where
  "generateXYArrays h =
     gen_xy_loop 0 h (replicate NUM_SYS_DATA_POINTS 0) (replicate NUM_SYS_DATA_POINTS 0)"

text \<open>
  \<open>drawGraph\<close> (src/display.cpp): the axes, ten x ticks labelled \<open>x_c[(i - 1) * len / 10]\<close>,
  four y tick values \<open>y_min + (i - 1) * tick_val_spacing\<close>, and the polyline through the
  points \<open>(x_axis_start + i * x_point_spacing, y_axis_end - (y_c[i] - y_min) / (float)
  y_coord_range * num_pixels_y_axis)\<close>, the first one taken before the loop.  The result is
  what the TFT calls receive: the x tick labels with their positions, the y tick values
  with theirs, and the points.  Its only caller passes \<open>len = NUM_SYS_DATA_POINTS\<close>, so the
  integer division by \<open>len\<close> is defined.
\<close>

definition drawGraph :: "int list \<Rightarrow> int list \<Rightarrow> int \<Rightarrow> int \<Rightarrow> int \<Rightarrow> int \<Rightarrow> int \<Rightarrow> int \<Rightarrow> int \<Rightarrow>
    ((int \<times> int) list \<times> (int \<times> int) list \<times> (int \<times> int) list) result" where
  "drawGraph x_c y_c len y_min y_max x y w h =
     (let graph_offset = 20;
          x_axis_start = x + graph_offset; x_axis_end = x + w - graph_offset;
          y_axis_start = y + graph_offset sdiv 2; y_axis_end = y + h - graph_offset;
          num_x_ticks = 10; num_y_ticks = 4;
          num_pixels_x_axis = x_axis_end - x_axis_start;
          spacing_x = num_pixels_x_axis sdiv (num_x_ticks - 1);
          num_pixels_y_axis = y_axis_end - y_axis_start;
          spacing_y = num_pixels_y_axis sdiv (num_y_ticks - 1);
          y_coord_range = y_max - y_min;
          tick_val_spacing = y_coord_range sdiv (num_y_ticks - 1);
          y_ticks = map (\<lambda>i. (y_min + (i - 1) * tick_val_spacing, y_axis_end - (i - 1) * spacing_y))
                      [1..num_y_ticks];
          x_point_spacing = num_pixels_x_axis sdiv len
      in case map_result (\<lambda>i. case c_index ''x_c'' x_c ((i - 1) * len sdiv num_x_ticks) of
                                Inl e \<Rightarrow> Inl e
                              | Inr v \<Rightarrow> Inr (v, x_axis_start + (i - 1) * spacing_x))
                [1..num_x_ticks] of
           Inl e \<Rightarrow> Inl e
         | Inr x_ticks \<Rightarrow>
             (case map_result (\<lambda>i. case c_index ''y_c'' y_c i of
                                     Inl e \<Rightarrow> Inl e
                                   | Inr v \<Rightarrow>
                                       (case c_float_to_int ''drawGraph''
                                               (y_axis_end * y_coord_range - (v - y_min) * num_pixels_y_axis)
                                               y_coord_range of
                                          Inl e \<Rightarrow> Inl e
                                        | Inr py \<Rightarrow> Inr (x_axis_start + i * x_point_spacing, py)))
                     [0..len - 1] of
                Inl e \<Rightarrow> Inl e
              | Inr pts \<Rightarrow> Inr (x_ticks, y_ticks, pts)))"

text \<open>
  \<open>drawSystemData\<close>: when a snapshot is waiting, the three text lines (which move \<open>y\<close> from
  \<open>STATUS_BAR_HEIGHT + 10\<close> down by 20 four times), then the graph of the history over
  \<open>[min_heap, max_heap]\<close> in a 220 by 200 box at \<open>(10, y)\<close>.
\<close>

definition drawSystemData :: "sys \<Rightarrow> sys result" where
  "drawSystemData s =
     (case xQueueReceive (sys_info_queue s) of
        None \<Rightarrow> Inr s
      | Some (info, q) \<Rightarrow>
          (case generateXYArrays (heap_usage s) of
             Inl e \<Rightarrow> Inl e
           | Inr (x_c, y_c) \<Rightarrow>
               (case drawGraph x_c y_c (int NUM_SYS_DATA_POINTS) (min_heap s) (max_heap s)
                       10 (STATUS_BAR_HEIGHT + 10 + 4 * 20) 220 200 of
                  Inl e \<Rightarrow> Inl e
                | Inr _ \<Rightarrow> Inr (s\<lparr>sys_info_queue := q\<rparr>))))"

declare classify_reading_def [model_defs] buttonTask_iter_def [model_defs]
  initHeapQueue_def [model_defs] systemDataTask_iter_def [model_defs]
  generateXYArrays_def [model_defs] drawGraph_def [model_defs] drawSystemData_def [model_defs]

section \<open>The WiFi worker (wifiDataTask) and its screen (drawWifi)\<close>

text \<open>
  \<open>String::toCharArray(buf, n)\<close> copies at most \<open>n - 1\<close> characters and a terminator;
  \<open>String(int)\<close> is the decimal text of the value.
\<close>

definition str_copy :: "nat \<Rightarrow> string \<Rightarrow> string" where
  "str_copy n x = take (n - 1) x"

definition int_String :: "int \<Rightarrow> string" where
  "int_String i = (if i < 0 then CHR ''-'' # dec_digits (nat (- i)) else dec_digits (nat i))"

text \<open>
  The scan is an input: \<open>n\<close> is the value of \<open>WiFi.scanNetworks()\<close> (negative on a
  failed scan) and \<open>nets\<close> the SSID and RSSI the driver reports for each index; for an
  index it has no entry for, \<open>WiFi.SSID(i)\<close> is empty and \<open>WiFi.RSSI(i)\<close> is 0.
\<close>

definition nearby_entry :: "(string \<times> int) list \<Rightarrow> nat \<Rightarrow> string" where
  "nearby_entry nets i =
     (let (ss, r) = (if i < length nets then nets ! i else ([], 0))
      in str_copy 33 (ss @ '' ('' @ int_String r @ '' dBm)''))"

function wifi_fill :: "nat \<Rightarrow> nat \<Rightarrow> (string \<times> int) list \<Rightarrow> string list \<Rightarrow> string list" where
  "wifi_fill i cnt nets arr =
     (if i < cnt then wifi_fill (Suc i) cnt nets (arr[i := nearby_entry nets i]) else arr)"
  by pat_completeness auto
termination by (relation "measure (\<lambda>(i, cnt, _, _). cnt - i)") auto

text \<open>One iteration: \<open>WiFiInfo info = {}\<close> (all zero), filled and overwritten into \<open>wifi_queue\<close>.\<close>

definition wifiDataTask_iter ::
  "string \<Rightarrow> string \<Rightarrow> int \<Rightarrow> string \<Rightarrow> int \<Rightarrow> (string \<times> int) list \<Rightarrow> sys \<Rightarrow> sys" where
  "wifiDataTask_iter ssid ip rssi mac n nets s =
     (let cnt = (if n > 0 then min n MAX_WIFI else 0);
          info = \<lparr>wifi_ssid = str_copy 32 ssid, wifi_ip = str_copy 20 ip, wifi_rssi = rssi,
                  wifi_mac = str_copy 20 mac,
                  nearby = wifi_fill 0 (nat cnt) nets (replicate (nat MAX_WIFI) []),
                  nearbyCount = cnt\<rparr>
      in s\<lparr>wifi_queue := xQueueOverwrite (wifi_queue s) info\<rparr>)"

text \<open>
  The loop of \<open>drawWifi\<close> over \<open>info.nearby[i]\<close>, for \<open>i < n && i < MAX_WIFI\<close>: the
  nearby-network lines drawn (the fixed lines above them read no array).
\<close>

function wifi_lines :: "nat \<Rightarrow> int \<Rightarrow> string list \<Rightarrow> string list result" where
  "wifi_lines i n arr =
     (if int i < n \<and> int i < MAX_WIFI then
        (case c_index ''nearby'' arr (int i) of
           Inl e \<Rightarrow> Inl e
         | Inr x \<Rightarrow> (case wifi_lines (Suc i) n arr of Inl e \<Rightarrow> Inl e | Inr xs \<Rightarrow> Inr (x # xs)))
      else Inr [])"
  by pat_completeness auto
termination by (relation "measure (\<lambda>(i, _, _). nat MAX_WIFI - i)") (auto simp: MAX_WIFI_def)

definition drawWifi :: "sys \<Rightarrow> (sys \<times> string list) result" where
  "drawWifi s =
     (case xQueueReceive (wifi_queue s) of
        None \<Rightarrow> Inr (s, [])
      | Some (info, q) \<Rightarrow>
          (if nearbyCount info = 0 then Inr (s\<lparr>wifi_queue := q\<rparr>, [''No networks found''])
           else (case wifi_lines 0 (nearbyCount info) (nearby info) of
                   Inl e \<Rightarrow> Inl e
                 | Inr ls \<Rightarrow> Inr (s\<lparr>wifi_queue := q\<rparr>, ls))))"

declare wifiDataTask_iter_def [model_defs] drawWifi_def [model_defs]

text \<open>
  The history the spec's rolling window would keep if every sample were pushed and the
  source's rule applied: every second sample of a run (the first, third, ...).
\<close>

fun every_other :: "'a list \<Rightarrow> 'a list" where
  "every_other [] = []"
| "every_other [x] = [x]"
| "every_other (x # y # r) = x # every_other r"

text \<open>A run of the telemetry worker over a sequence of readings.\<close>

fun systemData_run :: "(int \<times> int \<times> 32 word \<times> 32 word \<times> 32 word) list \<Rightarrow> sys \<Rightarrow> sys" where
  "systemData_run [] s = s"
| "systemData_run ((mfh, cf, ms, hs, fh) # rs) s = systemData_run rs (systemDataTask_iter mfh cf ms hs fh s)"

definition sample_kb :: "int \<times> int \<times> 32 word \<times> 32 word \<times> 32 word \<Rightarrow> int" where
  "sample_kb r = (case r of (_, _, _, hs, fh) \<Rightarrow> heap_used_kb hs fh)"

section \<open>Concrete readings\<close>

definition boot_heap_readings :: "(int \<times> int \<times> 32 word \<times> 32 word \<times> 32 word) list" where
  "boot_heap_readings =
     [(200000, 240, 2000, 327680, 180000), (199000, 240, 3000, 327680, 170000),
      (198000, 240, 4000, 327680, 160000)]"

section \<open>Button classification\<close>

lemma classify_reading_total: "\<exists>b. classify_reading w = Some b"
proof -
  have "uint w < 2 ^ 12" using uint_lt2p [of w] by simp
  then show ?thesis by (simp add: classify_reading_def BACK_ADC_def Let_def)
qed

lemma classify_reading_code:
  "classify_reading w = Some b \<Longrightarrow>
     button_code b = (if uint w < 100 then 0 else if uint w \<le> 1015 then 1 else if uint w \<le> 2048 then 2
                      else if uint w \<le> 3141 then 3 else 4)"
  by (auto simp: classify_reading_def UP_ADC_def DOWN_ADC_def SELECT_ADC_def BACK_ADC_def Let_def
      split: if_splits)

section \<open>The heap history\<close>

lemma sample_kb_simp [simp]: "sample_kb (m, c, ms, hs, fh) = heap_used_kb hs fh"
  by (simp add: sample_kb_def)

lemma systemDataTask_iter_fields:
  "heap_usage (systemDataTask_iter mfh cf ms hs fh s) =
     (if length (heap_usage s) > NUM_SYS_DATA_POINTS then tl (heap_usage s)
      else heap_usage s @ [heap_used_kb hs fh]) \<and>
   max_heap (systemDataTask_iter mfh cf ms hs fh s) = max (max_heap s) (heap_used_kb hs fh) \<and>
   sys_info_queue (systemDataTask_iter mfh cf ms hs fh s) =
     xQueueOverwrite (sys_info_queue s) \<lparr>min_free_heap = mfh, cpu_freq = cf, uptime = unat ms div 1000\<rparr>"
  by (simp add: systemDataTask_iter_def Let_def)

lemma heap_history_pair:
  assumes "length (heap_usage s) = NUM_SYS_DATA_POINTS"
  shows "heap_usage (systemDataTask_iter m2 c2 t2 h2 f2 (systemDataTask_iter m1 c1 t1 h1 f1 s)) =
           tl (heap_usage s @ [heap_used_kb h1 f1])"
  using assms by (simp add: systemDataTask_iter_fields)

lemma systemData_run_history:
  assumes "length (heap_usage s) = NUM_SYS_DATA_POINTS"
  shows "heap_usage (systemData_run rs s) =
           drop (length rs div 2) (heap_usage s @ every_other (map sample_kb rs))"
  using assms
proof (induction rs arbitrary: s rule: every_other.induct)
  case 1
  then show ?case by simp
next
  case (2 r)
  then show ?case
    by (cases r) (simp add: systemDataTask_iter_fields)
next
  case (3 r1 r2 rs)
  obtain m1 c1 t1 h1 f1 where r1: "r1 = (m1, c1, t1, h1, f1)" by (cases r1) auto
  obtain m2 c2 t2 h2 f2 where r2: "r2 = (m2, c2, t2, h2, f2)" by (cases r2) auto
  let ?s2 = "systemDataTask_iter m2 c2 t2 h2 f2 (systemDataTask_iter m1 c1 t1 h1 f1 s)"
  have h2: "heap_usage ?s2 = tl (heap_usage s @ [heap_used_kb h1 f1])"
    using heap_history_pair [OF "3.prems"] .
  have ne: "heap_usage s \<noteq> []" using "3.prems" by (auto simp: NUM_SYS_DATA_POINTS_def)
  have "length (heap_usage ?s2) = NUM_SYS_DATA_POINTS" using h2 "3.prems" by simp
  then have "heap_usage (systemData_run rs ?s2) =
               drop (length rs div 2) (heap_usage ?s2 @ every_other (map sample_kb rs))"
    by (rule "3.IH")
  also have "\<dots> = drop (Suc (length rs div 2)) (heap_usage s @ heap_used_kb h1 f1 # every_other (map sample_kb rs))"
    using ne h2 by (simp only: drop_Suc tl_append2 [OF ne] append_assoc append.simps)
  finally show ?case by (simp add: r1 r2)
qed

lemma Suc_div_two: "Suc n div 2 = n div 2 + n mod (2::nat)"
  by arith

lemma length_every_other: "length (every_other xs) = (length xs + 1) div 2"
  by (induction xs rule: every_other.induct) simp_all

lemma systemData_run_max_heap:
  "max_heap (systemData_run rs s) = fold max (map sample_kb rs) (max_heap s)"
proof (induction rs arbitrary: s)
  case Nil
  then show ?case by simp
next
  case (Cons r rs)
  obtain m c ms h f where "r = (m, c, ms, h, f)" by (cases r) auto
  with Cons show ?case by (simp add: systemDataTask_iter_fields max.commute)
qed

section \<open>The graph arrays\<close>

lemma gen_xy_loop_result:
  "q \<noteq> [] \<Longrightarrow> i \<le> NUM_SYS_DATA_POINTS \<Longrightarrow> length xs = NUM_SYS_DATA_POINTS \<Longrightarrow>
   length ys = NUM_SYS_DATA_POINTS \<Longrightarrow>
   gen_xy_loop i q xs ys =
     Inr (take i xs @ map int [Suc i..<Suc (i + min (NUM_SYS_DATA_POINTS - i) (length q))] @
            drop (i + min (NUM_SYS_DATA_POINTS - i) (length q)) xs,
          take i ys @ take (NUM_SYS_DATA_POINTS - i) q @
            drop (i + min (NUM_SYS_DATA_POINTS - i) (length q)) ys)"
proof (induction i q xs ys rule: gen_xy_loop.induct)
  case (1 i q xs ys)
  let ?N = NUM_SYS_DATA_POINTS
  show ?case
  proof (cases "i < ?N")
    case False
    with "1.prems" show ?thesis by simp
  next
    case True
    then obtain y q' where q: "q = y # q'" using "1.prems"(1) by (cases q) auto
    show ?thesis
    proof (cases "q' = []")
      case True
      have "min (?N - i) (Suc 0) = 1" using \<open>i < ?N\<close> by simp
      with \<open>i < ?N\<close> q True "1.prems" show ?thesis
        by (simp add: upd_conv_take_nth_drop)
    next
      case False
      define k where "k = min (?N - Suc i) (length q')"
      have ih: "gen_xy_loop (Suc i) q' (xs[i := int i + 1]) (ys[i := y]) =
        Inr (take (Suc i) (xs[i := int i + 1]) @ map int [Suc (Suc i)..<Suc (Suc i + k)] @
               drop (Suc i + k) (xs[i := int i + 1]),
             take (Suc i) (ys[i := y]) @ take (?N - Suc i) q' @ drop (Suc i + k) (ys[i := y]))"
        unfolding k_def
        by (rule "1.IH" [OF \<open>i < ?N\<close> q refl refl False]) (use \<open>i < ?N\<close> "1.prems" False in auto)
      have m: "min (?N - i) (length q) = Suc k"
        using \<open>i < ?N\<close> q by (simp add: k_def)
      have tq: "take (?N - i) q = y # take (?N - Suc i) q'"
        using \<open>i < ?N\<close> q by (simp add: take_Cons' Suc_diff_Suc)
      have step: "gen_xy_loop i q xs ys = gen_xy_loop (Suc i) q' (xs[i := int i + 1]) (ys[i := y])"
        using \<open>i < ?N\<close> q False by simp
      have tx: "take (Suc i) (zs[i := v]) = take i zs @ [v]" if "i < length zs" for zs :: "int list" and v
        using that by (simp add: take_Suc_conv_app_nth take_update_cancel)
      have dx: "drop (Suc i + k) (zs[i := v]) = drop (i + Suc k) zs" for zs :: "int list" and v
        by simp
      have ux: "[Suc i..<Suc (i + Suc k)] = Suc i # [Suc (Suc i)..<Suc (Suc i + k)]"
        by (simp add: upt_conv_Cons)
      show ?thesis
        unfolding step ih m
        using \<open>i < ?N\<close> "1.prems" tq by (simp only: tx dx ux) simp
    qed
  qed
qed

declare gen_xy_loop.simps [simp del]

lemma generateXYArrays_empty: "generateXYArrays [] = Inl (OutOfRange ''heap_usage'' 0)"
  by (simp add: generateXYArrays_def gen_xy_loop.simps NUM_SYS_DATA_POINTS_def)

lemma generateXYArrays_nonempty:
  assumes "h \<noteq> []"
  shows "generateXYArrays h =
           Inr (map int [1..<Suc (min NUM_SYS_DATA_POINTS (length h))] @
                  replicate (NUM_SYS_DATA_POINTS - length h) 0,
                take NUM_SYS_DATA_POINTS h @ replicate (NUM_SYS_DATA_POINTS - length h) 0)"
  using gen_xy_loop_result [OF assms, of 0 "replicate NUM_SYS_DATA_POINTS 0" "replicate NUM_SYS_DATA_POINTS 0"]
  by (simp add: generateXYArrays_def)

section \<open>The WiFi snapshot\<close>

lemma wifi_fill_result:
  "i \<le> cnt \<Longrightarrow> cnt \<le> length arr \<Longrightarrow>
   wifi_fill i cnt nets arr = take i arr @ map (nearby_entry nets) [i..<cnt] @ drop cnt arr"
proof (induction i cnt nets arr rule: wifi_fill.induct)
  case (1 i cnt nets arr)
  show ?case
  proof (cases "i < cnt")
    case True
    then have "wifi_fill i cnt nets arr = wifi_fill (Suc i) cnt nets (arr[i := nearby_entry nets i])"
      by simp
    also have "\<dots> = take (Suc i) (arr[i := nearby_entry nets i]) @ map (nearby_entry nets) [Suc i..<cnt] @
                       drop cnt (arr[i := nearby_entry nets i])"
      using "1.IH" [OF True] True "1.prems" by simp
    also have "\<dots> = take i arr @ map (nearby_entry nets) [i..<cnt] @ drop cnt arr"
      using True "1.prems" by (simp add: take_Suc_conv_app_nth take_update_cancel upt_conv_Cons)
    finally show ?thesis .
  next
    case False
    with "1.prems" show ?thesis by simp
  qed
qed

declare wifi_fill.simps [simp del]

lemma wifi_lines_result:
  "length arr = nat MAX_WIFI \<Longrightarrow>
   wifi_lines i n arr = Inr (map (\<lambda>j. arr ! j) [i..<nat (min n MAX_WIFI)])"
proof (induction i n arr rule: wifi_lines.induct)
  case (1 i n arr)
  show ?case
  proof (cases "int i < n \<and> int i < MAX_WIFI")
    case True
    then have "wifi_lines i n arr = (case wifi_lines (Suc i) n arr of Inl e \<Rightarrow> Inl e | Inr xs \<Rightarrow> Inr (arr ! i # xs))"
      using "1.prems" by (simp add: MAX_WIFI_def)
    moreover have "i < nat (min n MAX_WIFI)" using True by (auto simp: MAX_WIFI_def min_def)
    ultimately show ?thesis using "1.IH" [OF True _ "1.prems"] "1.prems" True
      by (simp add: upt_conv_Cons)
  next
    case False
    then show ?thesis by (auto simp: MAX_WIFI_def)
  qed
qed

declare wifi_lines.simps [simp del]

lemma wifiDataTask_iter_info:
  "wifi_queue (wifiDataTask_iter ssid ip rssi mac n nets s) =
     (wifi_queue s)\<lparr>q_items := [\<lparr>wifi_ssid = str_copy 32 ssid, wifi_ip = str_copy 20 ip, wifi_rssi = rssi,
        wifi_mac = str_copy 20 mac,
        nearby = map (nearby_entry nets) [0..<nat (if n > 0 then min n MAX_WIFI else 0)] @
                 replicate (nat MAX_WIFI - nat (if n > 0 then min n MAX_WIFI else 0)) [],
        nearbyCount = (if n > 0 then min n MAX_WIFI else 0)\<rparr>]\<rparr>"
proof -
  have "nat (if n > 0 then min n MAX_WIFI else 0) \<le> length (replicate (nat MAX_WIFI) ([] :: string))"
    by (auto simp: MAX_WIFI_def min_def)
  then show ?thesis
    by (simp add: wifiDataTask_iter_def xQueueOverwrite_def wifi_fill_result Let_def del: of_nat_eq_iff)
qed

section \<open>Properties of the workers\<close>

text \<open>
  C22: every 12-bit ADC reading is classified (the branch that would leave \<open>state\<close>
  uninitialised is unreachable), and one iteration of the sampler sends exactly that
  event into \<open>button_queue\<close>; the event is the band of the reading: below 100 none, up to
  1015 Up, up to 2048 Down, up to 3141 Select, otherwise Back.
\<close>

theorem buttonTask_samples_every_reading:
  "\<exists>b s'. buttonTask_iter w s = Inr s' \<and> classify_reading w = Some b \<and>
      button_queue s' = snd (xQueueSend (button_queue s) b) \<and>
      button_code b = (if uint w < 100 then 0 else if uint w \<le> 1015 then 1 else if uint w \<le> 2048 then 2
                       else if uint w \<le> 3141 then 3 else 4)"
proof -
  obtain b where c: "classify_reading w = Some b" using classify_reading_total by blast
  then show ?thesis using classify_reading_code [OF c] by (simp add: buttonTask_iter_def)
qed

text \<open>
  The classification is monotone: a higher reading never gives a lower event in the
  order of the enum (none, Up, Down, Select, Back), so the ADC bands do not overlap.
\<close>

theorem classify_reading_mono:
  assumes "v \<le> w" and "classify_reading v = Some a" and "classify_reading w = Some b"
  shows "a \<le> b"
proof -
  have "uint v \<le> uint w" using assms(1) by (simp add: word_le_def)
  then show ?thesis
    using classify_reading_code [OF assms(2)] classify_reading_code [OF assms(3)]
    by (auto simp: less_eq_button_state_def split: if_splits)
qed

theorem classify_reading_mono_witness:
  "classify_reading 500 = Some UP \<and> classify_reading 3000 = Some SELECT \<and> UP \<le> SELECT"
proof -
  have a: "classify_reading 500 = Some UP" and b: "classify_reading 3000 = Some SELECT"
    by (simp_all add: classify_reading_def UP_ADC_def DOWN_ADC_def SELECT_ADC_def Let_def)
  show ?thesis using classify_reading_mono [OF _ a b] a b by simp
qed

text \<open>
  C24: the heap history keeps only every second sample.  From a full window of sixty
  entries (as \<open>initHeapQueue\<close> leaves it), a run of the telemetry worker alternates
  between pushing a sample (61 entries) and popping the oldest entry instead of pushing
  (60 entries): after \<open>n\<close> samples the history is the initial window followed by the
  first, third, fifth, ... sample, with the oldest \<open>n div 2\<close> entries dropped, and its
  length is \<open>60 + n mod 2\<close>.
\<close>

theorem heap_history_every_other_sample:
  assumes "length (heap_usage s) = NUM_SYS_DATA_POINTS"
  shows "heap_usage (systemData_run rs s) =
           drop (length rs div 2) (heap_usage s @ every_other (map sample_kb rs)) \<and>
         length (heap_usage (systemData_run rs s)) = NUM_SYS_DATA_POINTS + length rs mod 2"
proof -
  note h = systemData_run_history [OF assms]
  have "length (heap_usage (systemData_run rs s)) =
          length (heap_usage s) + (length rs + 1) div 2 - length rs div 2"
    by (simp only: h length_drop length_append length_every_other length_map)
  also have "\<dots> = NUM_SYS_DATA_POINTS + length rs mod 2"
    using assms by (simp add: Suc_div_two)
  finally show ?thesis using h by simp
qed

theorem heap_history_every_other_sample_witness:
  "heap_usage (systemData_run boot_heap_readings (initHeapQueue (globals_init tm_example []))) =
     replicate 59 100 @ [147, 167] \<and>
   length (heap_usage (systemData_run boot_heap_readings (initHeapQueue (globals_init tm_example [])))) = 61"
proof -
  have l: "length (heap_usage (initHeapQueue (globals_init tm_example []))) = NUM_SYS_DATA_POINTS"
    by (simp add: initHeapQueue_def globals_init_def)
  have e: "every_other (map sample_kb boot_heap_readings) = [147, 167]"
    by (simp add: boot_heap_readings_def heap_used_kb_def)
  show ?thesis
    using heap_history_every_other_sample [OF l, of boot_heap_readings] e
    by (simp add: initHeapQueue_def globals_init_def NUM_SYS_DATA_POINTS_def boot_heap_readings_def
        del: systemData_run.simps)
qed

text \<open>
  \<open>generateXYArrays\<close> plots the first sixty entries of the history against
  \<open>1, 2, ...\<close> and leaves the rest of both arrays at zero; with the 61-entry window the
  newest sample is not plotted; on an empty history it reads the front of an empty
  queue.
\<close>

theorem generateXYArrays_graph:
  "generateXYArrays h =
     (if h = [] then Inl (OutOfRange ''heap_usage'' 0)
      else Inr (map int [1..<Suc (min NUM_SYS_DATA_POINTS (length h))] @
                  replicate (NUM_SYS_DATA_POINTS - length h) 0,
                take NUM_SYS_DATA_POINTS h @ replicate (NUM_SYS_DATA_POINTS - length h) 0))"
  by (simp add: generateXYArrays_empty generateXYArrays_nonempty)

lemma drawGraph_errors:
  "drawGraph x_c y_c len y_min y_max x y w h = Inl e \<Longrightarrow>
   (\<exists>i. e = OutOfRange ''x_c'' i) \<or> (\<exists>i. e = OutOfRange ''y_c'' i) \<or> e = FloatToInt ''drawGraph''"
  by (auto simp: drawGraph_def Let_def c_index_def split: sum.splits if_splits
      dest!: map_result_Inl dest: c_float_to_int_Inl)

lemma drawGraph_sixty:
  assumes "length x_c = 60" and "length y_c = 60"
    and "drawGraph x_c y_c 60 y_min y_max x y w h = Inl e"
  shows "e = FloatToInt ''drawGraph''"
  using assms
  by (auto simp: drawGraph_def Let_def c_index_def sdiv_nonneg_int split: sum.splits if_splits
      dest!: map_result_Inl dest: c_float_to_int_Inl)

lemma drawGraph_flat:
  assumes "length x_c = 60" and "length y_c = 60"
  shows "drawGraph x_c y_c 60 y_min y_min x y w h = Inl (FloatToInt ''drawGraph'')"
  using assms by (simp add: drawGraph_def Let_def c_float_to_int_def upto.simps signed_divide_int_def c_index_def)

lemma generateXYArrays_lengths:
  "generateXYArrays h = Inr (x_c, y_c) \<Longrightarrow> length x_c = 60 \<and> length y_c = 60"
  by (cases "h = []") (auto simp: generateXYArrays_empty generateXYArrays_nonempty NUM_SYS_DATA_POINTS_def)

lemma drawSystemData_nonempty_errors:
  assumes "heap_usage s \<noteq> []" and "drawSystemData s = Inl e"
  shows "e = FloatToInt ''drawGraph''"
proof -
  obtain x_c y_c where g: "generateXYArrays (heap_usage s) = Inr (x_c, y_c)"
    using assms(1) by (simp add: generateXYArrays_nonempty)
  then have "length x_c = 60" and "length y_c = 60" using generateXYArrays_lengths by blast+
  then show ?thesis using assms(2) g drawGraph_sixty [of x_c y_c]
    by (auto simp: drawSystemData_def NUM_SYS_DATA_POINTS_def split: option.splits sum.splits)
qed

lemma drawSystemData_errors:
  "drawSystemData s = Inl e \<Longrightarrow> e = OutOfRange ''heap_usage'' 0 \<or> e = FloatToInt ''drawGraph''"
  using drawSystemData_nonempty_errors [of s e]
  by (cases "heap_usage s = []") (auto simp: drawSystemData_def generateXYArrays_empty split: option.splits)

lemma drawSystemData_flat:
  assumes "q_items (sys_info_queue s) \<noteq> []" and "heap_usage s \<noteq> []" and "max_heap s = min_heap s"
  shows "drawSystemData s = Inl (FloatToInt ''drawGraph'')"
proof -
  obtain x_c y_c where g: "generateXYArrays (heap_usage s) = Inr (x_c, y_c)"
    using assms(2) by (simp add: generateXYArrays_nonempty)
  then have "length x_c = 60" and "length y_c = 60" using generateXYArrays_lengths by blast+
  with g assms show ?thesis
    by (auto simp: drawSystemData_def xQueueReceive_def NUM_SYS_DATA_POINTS_def drawGraph_flat
        split: list.splits)
qed

text \<open>
  Once \<open>initHeapQueue\<close> has filled the history, no run of the telemetry worker
  empties it, so the System Data screen's draw never reads an empty queue and reads the
  graph's arrays only in range: it returns normally, or fails only where \<open>drawGraph\<close>
  converts a point's \<open>float\<close> to \<open>int\<close>.
\<close>

theorem drawSystemData_after_init_safe:
  assumes "length (heap_usage s) = NUM_SYS_DATA_POINTS"
  shows "(\<exists>s'. drawSystemData (systemData_run rs s) = Inr s') \<or>
         drawSystemData (systemData_run rs s) = Inl (FloatToInt ''drawGraph'')"
proof -
  have "heap_usage (systemData_run rs s) \<noteq> []"
    using systemData_run_history [OF assms] assms
    by (auto simp: NUM_SYS_DATA_POINTS_def length_every_other)
  then show ?thesis using drawSystemData_nonempty_errors [of "systemData_run rs s"]
    by (cases "drawSystemData (systemData_run rs s)") auto
qed

theorem drawSystemData_after_init_safe_witness:
  "(\<exists>s'. drawSystemData (systemData_run boot_heap_readings (initHeapQueue (globals_init tm_example []))) = Inr s') \<or>
   drawSystemData (systemData_run boot_heap_readings (initHeapQueue (globals_init tm_example []))) =
     Inl (FloatToInt ''drawGraph'')"
proof -
  have "length (heap_usage (initHeapQueue (globals_init tm_example []))) = NUM_SYS_DATA_POINTS"
    by (simp add: initHeapQueue_def globals_init_def)
  then show ?thesis by (rule drawSystemData_after_init_safe)
qed

text \<open>
  C27: a WiFi scan reaches the screen intact: after one iteration of the WiFi worker,
  the next draw of the WiFi screen consumes the snapshot and shows the first
  \<open>min(n, MAX_WIFI)\<close> networks of a scan of \<open>n > 0\<close> networks, each as
  \<open>SSID (RSSI dBm)\<close> cut to 32 characters, and "No networks found" for an empty or
  failed scan.
\<close>

theorem wifi_scan_shown:
  "drawWifi (wifiDataTask_iter ssid ip rssi mac n nets s) =
     Inr ((wifiDataTask_iter ssid ip rssi mac n nets s)\<lparr>wifi_queue := (wifi_queue s)\<lparr>q_items := []\<rparr>\<rparr>,
          if n > 0 then map (nearby_entry nets) [0..<nat (min n MAX_WIFI)] else [''No networks found''])"
proof -
  let ?k = "nat (if n > 0 then min n MAX_WIFI else 0)"
  let ?arr = "map (nearby_entry nets) [0..<?k] @ replicate (nat MAX_WIFI - ?k) []"
  have len: "length ?arr = nat MAX_WIFI" by (auto simp: MAX_WIFI_def min_def)
  have sel: "map (\<lambda>j. ?arr ! j) [0..<?k] = map (nearby_entry nets) [0..<?k]"
    by (rule map_cong) (simp_all add: nth_append)
  have "min (if n > 0 then min n MAX_WIFI else 0) MAX_WIFI = (if n > 0 then min n MAX_WIFI else 0)"
    by (simp add: MAX_WIFI_def)
  then show ?thesis
    using wifi_lines_result [OF len, of 0 "if n > 0 then min n MAX_WIFI else 0"] sel
    by (auto simp: drawWifi_def wifiDataTask_iter_info MAX_WIFI_def min_def)
qed

text \<open>
  C28: the WiFi screen never reads past the \<open>nearby\<close> array, whatever count the snapshot
  carries: the loop's second guard \<open>i < MAX_WIFI\<close> bounds it by the array's size, so at
  most \<open>MAX_WIFI\<close> lines are drawn.
\<close>

theorem drawWifi_bounded:
  assumes "length (nearby info) = nat MAX_WIFI" and "q_items (wifi_queue s) = info # rest"
  shows "\<exists>s' ls. drawWifi s = Inr (s', ls) \<and> length ls \<le> nat MAX_WIFI"
  using assms wifi_lines_result [OF assms(1), of 0 "nearbyCount info"]
  by (auto simp: drawWifi_def xQueueReceive_def MAX_WIFI_def)

theorem drawWifi_bounded_witness:
  "\<exists>s' ls. drawWifi ((globals_init tm_example [])\<lparr>wifi_queue := \<lparr>q_len = 1, q_items =
       [\<lparr>wifi_ssid = ''home'', wifi_ip = ''10.0.0.2'', wifi_rssi = -40, wifi_mac = ''AA:BB'',
         nearby = replicate 8 ''net'', nearbyCount = 100\<rparr>]\<rparr>\<rparr>) = Inr (s', ls) \<and> length ls \<le> 8"
  using drawWifi_bounded [of "\<lparr>wifi_ssid = ''home'', wifi_ip = ''10.0.0.2'', wifi_rssi = -40, wifi_mac = ''AA:BB'',
         nearby = replicate 8 ''net'', nearbyCount = 100\<rparr>"
      "(globals_init tm_example [])\<lparr>wifi_queue := \<lparr>q_len = 1, q_items =
       [\<lparr>wifi_ssid = ''home'', wifi_ip = ''10.0.0.2'', wifi_rssi = -40, wifi_mac = ''AA:BB'',
         nearby = replicate 8 ''net'', nearbyCount = 100\<rparr>]\<rparr>\<rparr>" "[]"]
  by (simp add: MAX_WIFI_def)

end
