(* ===== verification/Game.thy ===== *)
theory Game
  imports Navigation
begin

text \<open>
  The Pong game of the GAME1 screen: the rectangle test \<open>checkCollision\<close>
  (src/helpers.cpp) and one frame of \<open>updateGame1\<close> (src/display.cpp), in the three phases
  the code runs in order: the reset on Back, the paddle move with its clamp, and the ball
  move with its collision and wall handling.  The function's \<open>static\<close> locals are the
  record \<open>pong\<close> (Globals), held in the globals as \<open>game1\<close>; the tick of the GAME1 case of
  \<open>displayTask\<close> (src/tasks.cpp) passes the character \<open>handleButtonGame\<close> returns.  The
  sprites and the TFT drawing are not modelled.  The lemmas show that every frame keeps the
  paddle and the ball inside the screen below the status bar, whatever the statics held
  before, and that Back does not reset the ball's vertical direction.
\<close>

section \<open>The collision test (src/helpers.cpp, checkCollision)\<close>

text \<open>
  Two rectangles, each given by its top-left corner and its size, collide when both their
  vertical and their horizontal extents overlap, edges included.  Screen coordinates are
  far from the \<open>int\<close> limits, so the sums are taken in \<open>int\<close>.
\<close>

definition checkCollision ::
  "int \<Rightarrow> int \<Rightarrow> int \<Rightarrow> int \<Rightarrow> int \<Rightarrow> int \<Rightarrow> int \<Rightarrow> int \<Rightarrow> bool" where
  "checkCollision x1 y1 w1 h1 x2 y2 w2 h2 =
     (let right_edge_1 = x1 + w1; bottom_edge_1 = y1 + h1;
          right_edge_2 = x2 + w2; bottom_edge_2 = y2 + h2
      in (bottom_edge_2 \<ge> y1 \<and> y2 \<le> bottom_edge_1) \<and> (right_edge_2 \<ge> x1 \<and> x2 \<le> right_edge_1))"

section \<open>One frame of the game (src/display.cpp, updateGame1)\<close>

text \<open>The reset of the statics when the handler returned \<open>'B'\<close>.\<close>

definition game1_reset :: "char \<Rightarrow> pong \<Rightarrow> pong" where
  "game1_reset res p =
     (if res = CHR ''B'' then
        (let px = 0; py = STATUS_BAR_HEIGHT + (SCREEN_HEIGHT - STATUS_BAR_HEIGHT) div 2 - 60 div 2
         in p\<lparr>paddle_hit := False, lose_flag := False, paddle_x := px, paddle_y := py,
               ball_x := px + 10, ball_y := py + 60 div 2 - 7\<rparr>)
      else p)"

text \<open>The \<open>switch (game_input)\<close>: Up and Down move the paddle by ten pixels; then the clamp.\<close>

definition move_paddle :: "char \<Rightarrow> pong \<Rightarrow> pong" where
  "move_paddle gi p =
     (let py = (if gi = CHR ''U'' then paddle_y p - 10
                else if gi = CHR ''D'' then paddle_y p + 10 else paddle_y p);
          py' = (if py \<le> STATUS_BAR_HEIGHT then STATUS_BAR_HEIGHT
                 else if py \<ge> SCREEN_HEIGHT - 60 then SCREEN_HEIGHT - 60 else py)
      in p\<lparr>paddle_y := py'\<rparr>)"

text \<open>
  The ball moves one pixel along each axis; the paddle test is taken at the new position;
  then the horizontal cases (right wall, paddle, left edge, where the game is lost) and the
  vertical ones (status bar, bottom), each reversing the direction it hits.
\<close>

definition move_ball :: "pong \<Rightarrow> pong" where
  "move_ball p =
     (let nx = (if x_rev p then ball_x p - 1 else ball_x p + 1);
          ny = (if y_rev p then ball_y p - 1 else ball_y p + 1);
          hit = checkCollision (paddle_x p) (paddle_y p) 10 60 nx ny (7 * 2) (7 * 2);
          p1 = p\<lparr>ball_x := nx, ball_y := ny, paddle_hit := hit\<rparr>;
          p2 = (if nx \<ge> SCREEN_WIDTH - 2 * 7 then p1\<lparr>ball_x := SCREEN_WIDTH - 2 * 7, x_rev := \<not> x_rev p1\<rparr>
                else if hit then p1\<lparr>ball_x := 10, x_rev := \<not> x_rev p1\<rparr>
                else if nx \<le> 0 then p1\<lparr>ball_x := 0, x_rev := \<not> x_rev p1, lose_flag := True\<rparr>
                else p1)
      in if ny \<le> STATUS_BAR_HEIGHT then p2\<lparr>ball_y := STATUS_BAR_HEIGHT, y_rev := \<not> y_rev p2\<rparr>
         else if ny \<ge> SCREEN_HEIGHT - 2 * 7 then p2\<lparr>ball_y := SCREEN_HEIGHT - 2 * 7, y_rev := \<not> y_rev p2\<rparr>
         else p2)"

definition updateGame1 :: "char \<Rightarrow> char \<Rightarrow> pong \<Rightarrow> pong" where
  "updateGame1 gi res p = move_ball (move_paddle gi (game1_reset res p))"

text \<open>
  The GAME1 case of \<open>displayTask\<close> after its setup block: \<open>res = handleButtonGame()\<close>,
  then \<open>updateGame1(&paddle, &ball, NULL, res)\<close>, which reads the global \<open>game_input\<close>.
\<close>

definition game1_tick :: "sys \<Rightarrow> sys" where
  "game1_tick s =
     (let (res, s1) = handleButtonGame s
      in s1\<lparr>game1 := updateGame1 (game_input s1) res (game1 s1)\<rparr>)"

text \<open>The rectangle the paddle and the ball stay in: below the status bar, on the screen.\<close>

definition pong_ok :: "pong \<Rightarrow> bool" where
  "pong_ok p \<longleftrightarrow>
     paddle_x p = 0 \<and> STATUS_BAR_HEIGHT \<le> paddle_y p \<and> paddle_y p \<le> SCREEN_HEIGHT - 60 \<and>
     0 \<le> ball_x p \<and> ball_x p \<le> SCREEN_WIDTH - 2 * 7 \<and>
     STATUS_BAR_HEIGHT \<le> ball_y p \<and> ball_y p \<le> SCREEN_HEIGHT - 2 * 7"

declare checkCollision_def [model_defs] game1_reset_def [model_defs] move_paddle_def [model_defs]
  move_ball_def [model_defs] updateGame1_def [model_defs] game1_tick_def [model_defs]

section \<open>Bounds of a frame\<close>

lemma checkCollision_overlap:
  "0 \<le> w1 \<Longrightarrow> 0 \<le> h1 \<Longrightarrow> 0 \<le> w2 \<Longrightarrow> 0 \<le> h2 \<Longrightarrow>
   checkCollision x1 y1 w1 h1 x2 y2 w2 h2 \<longleftrightarrow>
     max x1 x2 \<le> min (x1 + w1) (x2 + w2) \<and> max y1 y2 \<le> min (y1 + h1) (y2 + h2)"
  by (auto simp: checkCollision_def Let_def)

lemma game1_reset_paddle_x: "paddle_x p = 0 \<Longrightarrow> paddle_x (game1_reset res p) = 0"
  by (simp add: game1_reset_def Let_def)

lemma move_paddle_bounds:
  "STATUS_BAR_HEIGHT \<le> paddle_y (move_paddle gi p) \<and> paddle_y (move_paddle gi p) \<le> SCREEN_HEIGHT - 60"
  by (simp add: move_paddle_def Let_def config_defs)

lemma move_paddle_other [simp]:
  "paddle_x (move_paddle gi p) = paddle_x p" "ball_x (move_paddle gi p) = ball_x p"
  "ball_y (move_paddle gi p) = ball_y p" "x_rev (move_paddle gi p) = x_rev p"
  "y_rev (move_paddle gi p) = y_rev p"
  by (simp_all add: move_paddle_def Let_def)

lemma move_ball_keeps_paddle [simp]:
  "paddle_x (move_ball p) = paddle_x p" "paddle_y (move_ball p) = paddle_y p"
  by (simp_all add: move_ball_def Let_def)

lemma move_ball_x_bounds: "0 \<le> ball_x (move_ball p) \<and> ball_x (move_ball p) \<le> SCREEN_WIDTH - 2 * 7"
  by (simp add: move_ball_def Let_def config_defs)

lemma move_ball_y_bounds:
  "STATUS_BAR_HEIGHT \<le> ball_y (move_ball p) \<and> ball_y (move_ball p) \<le> SCREEN_HEIGHT - 2 * 7"
  by (simp add: move_ball_def Let_def config_defs)

lemma updateGame1_ok: "paddle_x p = 0 \<Longrightarrow> pong_ok (updateGame1 gi res p)"
  using move_paddle_bounds [of gi "game1_reset res p"] game1_reset_paddle_x [of p res]
    move_ball_x_bounds [of "move_paddle gi (game1_reset res p)"]
    move_ball_y_bounds [of "move_paddle gi (game1_reset res p)"]
  by (simp add: pong_ok_def updateGame1_def)

lemma pong_init_ok: "pong_ok pong_init"
  by (simp add: pong_ok_def pong_init_def config_defs)

lemma handleButtonGame_game1 [simp]: "game1 (snd (handleButtonGame s)) = game1 s"
  by (simp add: handleButtonGame_def button_receive_def Let_def split: option.splits)

lemma game1_tick_eq:
  "game1_tick s = (snd (handleButtonGame s))\<lparr>game1 :=
     updateGame1 (game_input (snd (handleButtonGame s))) (fst (handleButtonGame s)) (game1 s)\<rparr>"
  by (simp add: game1_tick_def case_prod_unfold Let_def)

lemma game1_tick_ok: "pong_ok (game1 s) \<Longrightarrow> pong_ok (game1 (game1_tick s))"
  using updateGame1_ok by (simp add: game1_tick_def case_prod_unfold Let_def pong_ok_def)

section \<open>Leaving the game\<close>

text \<open>
  Back resets the paddle, the ball's position and the two flags, but not the direction
  flags: the ball of the next game starts in the vertical direction the last one left it in.
\<close>

lemma move_ball_y_inner:
  assumes "STATUS_BAR_HEIGHT < ball_y p - 1" and "ball_y p + 1 < SCREEN_HEIGHT - 2 * 7"
  shows "y_rev (move_ball p) = y_rev p \<and> ball_y (move_ball p) = (if y_rev p then ball_y p - 1 else ball_y p + 1)"
  using assms by (simp add: move_ball_def Let_def)

lemma game1_back_keeps_y_direction:
  "y_rev (updateGame1 gi (CHR ''B'') p) = y_rev p \<and>
   ball_y (updateGame1 gi (CHR ''B'') p) = (if y_rev p then 162 else 164)"
proof -
  let ?q = "move_paddle gi (game1_reset (CHR ''B'') p)"
  have "ball_y ?q = 163" and "y_rev ?q = y_rev p"
    by (simp_all add: game1_reset_def Let_def config_defs)
  then show ?thesis using move_ball_y_inner [of ?q] by (simp add: updateGame1_def config_defs)
qed

end
