(* ===== verification/System.thy ===== *)
theory System
  imports Files Workers Game
begin

text \<open>
  The whole program: \<open>setup()\<close> (src/main.cpp), the display task's loop body
  \<open>displayTask\<close> (src/tasks.cpp) dispatching over the ten screens, the status bar's
  frame-rate window, and the interleaving of all task loops.  An \<open>event\<close> is one loop
  iteration of one task together with the hardware readings it makes; \<open>exec_event\<close>
  runs it, \<open>step\<close> allows it when a live, unsuspended task runs that function, and
  \<open>reach\<close> is the set of outcomes reachable from the state \<open>setup()\<close> leaves.  An outcome
  is a state or an error value: the first undefined behaviour the run performs.  The
  lemmas prove the reachable-state invariants by rule induction over \<open>reach\<close> (navigation,
  task handles, shapes of the shared data, the Pong statics), the refinement of the spec's
  navigation contract, the list of the undefined behaviours a run can reach, and two
  concrete runs from boot that reach them.  A scheduling invariant (no step suspends a
  task or deletes a permanent one) gives the liveness of the leaf screens: from WiFi and
  the games some short run returns to the menu.  A saved frame is listed by the next
  \<open>loadFileNames\<close>.  \<open>initWiFi\<close>'s connection wait is a \<open>partial_function (option)\<close>,
  and \<open>setup()\<close> is proved to return exactly when a connection is eventually made and the
  allocations succeed; the frame rate \<open>fps_update\<close> stores is shown to be inverted.
\<close>

section \<open>Boot (setup)\<close>

text \<open>
  \<open>initWiFi\<close> (src/helpers.cpp) calls \<open>WiFi.begin\<close> and then waits in
  \<open>while (WiFi.status() != WL_CONNECTED) { delay(1000); ... }\<close>.  \<open>connected k\<close> is
  whether the \<open>k\<close>-th status test reports \<open>WL_CONNECTED\<close>; the loop may wait for ever, so it
  is a \<open>partial_function (option)\<close>: \<open>None\<close> is the boot that never gets past it, and
  \<open>Some k\<close> says it returned after \<open>k\<close> one-second delays.
\<close>

partial_function (option) initWiFi :: "(nat \<Rightarrow> bool) \<Rightarrow> nat \<Rightarrow> nat option" where
  "initWiFi connected k = (if connected k then Some k else initWiFi connected (Suc k))"

text \<open>
  \<open>setup()\<close> runs in the Arduino loop task \<open>me\<close>: the queues, the WiFi wait, then (\<open>initNTP\<close>
  sets the clock, an input of \<open>globals_init\<close>; \<open>initSD\<close> and \<open>initTFT\<close> only talk to
  drivers) the heap history, the file names and the tasks.  The two \<open>vTaskSuspend\<close> calls
  pass the still-\<open>NULL\<close> worker handles.
\<close>

definition setup_main :: "(nat \<Rightarrow> bool) \<Rightarrow> bool list \<Rightarrow> bool \<Rightarrow> tid \<Rightarrow> sys \<Rightarrow> sys option" where
  "setup_main connected alloc root_ok me s =
     (case initQueues alloc s of
        None \<Rightarrow> None
      | Some s1 \<Rightarrow>
          (case initWiFi connected 0 of
             None \<Rightarrow> None
           | Some _ \<Rightarrow>
               (let s2 = loadFileNames root_ok (initHeapQueue s1);
                    (d, r1) = xTaskCreate displayTask (os s2);
                    (_, r2) = xTaskCreate buttonTask r1;
                    (_, r3) = xTaskCreate systemDataTask r2;
                    (_, r4) = xTaskCreate wifiDataTask r3;
                    (_, r5) = xTaskCreate ntpTimeTask r4;
                    r6 = vTaskSuspend me (saveFrameToSDTask_handle s2) r5;
                    r7 = vTaskSuspend me (deleteFromSDTask_handle s2) r6
                in Some (s2\<lparr>os := r7, display_tid := d\<rparr>))))"

section \<open>The display task (displayTask)\<close>

text \<open>
  The frame-rate window at the end of every tick: \<open>frames++\<close>, and once
  \<open>now - before >= 1000\<close> in \<open>unsigned long\<close> (32-bit) arithmetic, \<open>frames\<close> restarts
  and \<open>before = now\<close>, after \<open>fps = frames / 1000.f * (now - before)\<close>: the exact value
  of that \<open>float\<close> expression is the fraction \<open>frames * (now - before) / 1000\<close>.
\<close>

definition fps_update :: "sys \<Rightarrow> sys" where
  "fps_update s =
     (let s1 = s\<lparr>frames := frames s + 1\<rparr>
      in if 1000 \<le> now_ms s1 - before_ms s1
         then s1\<lparr>ui := (ui s1)\<lparr>fps := (frames s1 * uint (now_ms s1 - before_ms s1), 1000)\<rparr>,
                 frames := 0, before_ms := now_ms s1\<rparr>
         else s1)"

text \<open>
  One tick, at time \<open>now = millis()\<close>: the screen's case of the switch, then the frame-rate
  window.  The menus' sizes are \<open>sizeof(menu) / sizeof(MenuItem)\<close>, their lengths.  Every
  case but BOOT draws the status bar; the menus draw their rows on entry and move the
  highlight before handling the button.  The \<open>tft\<close> fills, the sprites of the games
  (\<open>initGame1\<close>) and the titles of games 2 and 3 are drawing only and are not modelled.
\<close>

definition display_dispatch :: "bool \<Rightarrow> bool \<Rightarrow> sys \<Rightarrow> sys result" where
  "display_dispatch probe_ok root_ok s0 =
     (case display_state s0 of
        BOOT \<Rightarrow> Inr (s0\<lparr>display_state := MENU\<rparr>)
      | MENU \<Rightarrow>
          (case (if \<not> menu_init s0 then drawMenu main_menu (int (length main_menu)) s0 else Inr (s0, [])) of
             Inl e \<Rightarrow> Inl e
           | Inr (s1, _) \<Rightarrow>
               (case drawStatusBar (s1\<lparr>menu_init := True\<rparr>) of
                  Inl e \<Rightarrow> Inl e
                | Inr s2 \<Rightarrow>
                    handleButtonMenu main_menu (int (length main_menu))
                      (fst (updateMenuHighlight main_menu (int (length main_menu)) s2))))
      | CAMERA_FEED \<Rightarrow> camera_feed_tick probe_ok s0
      | SD_CARD \<Rightarrow> sd_card_tick root_ok s0
      | SYSTEM_DATA \<Rightarrow>
          (case drawStatusBar (s0\<lparr>menu_init := True\<rparr>) of
             Inl e \<Rightarrow> Inl e
           | Inr s1 \<Rightarrow>
               (case drawSystemData s1 of
                  Inl e \<Rightarrow> Inl e
                | Inr s2 \<Rightarrow> Inr (handleButtonSimple s2)))
      | WIFI \<Rightarrow>
          (case drawStatusBar (s0\<lparr>menu_init := True\<rparr>) of
             Inl e \<Rightarrow> Inl e
           | Inr s1 \<Rightarrow>
               (case drawWifi s1 of
                  Inl e \<Rightarrow> Inl e
                | Inr (s2, _) \<Rightarrow> Inr (handleButtonSimple s2)))
      | GAMES \<Rightarrow>
          (case (if \<not> menu_init s0 then drawMenu games_menu (int (length games_menu)) s0 else Inr (s0, [])) of
             Inl e \<Rightarrow> Inl e
           | Inr (s1, _) \<Rightarrow>
               (case drawStatusBar (s1\<lparr>menu_init := True\<rparr>) of
                  Inl e \<Rightarrow> Inl e
                | Inr s2 \<Rightarrow>
                    handleButtonMenu games_menu (int (length games_menu))
                      (fst (updateMenuHighlight games_menu (int (length games_menu)) s2))))
      | GAME1 \<Rightarrow>
          (case drawStatusBar (s0\<lparr>menu_init := True\<rparr>) of Inl e \<Rightarrow> Inl e | Inr s1 \<Rightarrow> Inr (game1_tick s1))
      | GAME2 \<Rightarrow>
          (case drawStatusBar (s0\<lparr>menu_init := True\<rparr>) of Inl e \<Rightarrow> Inl e | Inr s1 \<Rightarrow> Inr (snd (handleButtonGame s1)))
      | GAME3 \<Rightarrow>
          (case drawStatusBar (s0\<lparr>menu_init := True\<rparr>) of Inl e \<Rightarrow> Inl e | Inr s1 \<Rightarrow> Inr (snd (handleButtonGame s1))))"

definition display_tick :: "bool \<Rightarrow> bool \<Rightarrow> 32 word \<Rightarrow> sys \<Rightarrow> sys result" where
  "display_tick probe_ok root_ok now s =
     (case display_dispatch probe_ok root_ok (s\<lparr>now_ms := now\<rparr>) of
        Inl e \<Rightarrow> Inl e
      | Inr s1 \<Rightarrow> Inr (fps_update s1))"

text \<open>
  The same tick with the status bar and the menu highlight taken out: \<open>status_step\<close> is
  their effect (on \<open>ui\<close> only), \<open>screen_dispatch\<close> the rest of each case, with the camera
  and SD cases' bodies \<open>camera_feed_body\<close> and \<open>sd_card_body\<close>.  Lemma
  \<open>display_dispatch_status\<close> shows that \<open>display_dispatch\<close> is \<open>status_step\<close> followed by
  \<open>screen_dispatch\<close>; the lemmas about the screens' handlers are stated over the latter.
\<close>

definition status_step :: "sys \<Rightarrow> sys result" where
  "status_step s0 =
     (case drawStatusBar s0 of
        Inl e \<Rightarrow> Inl e
      | Inr s1 \<Rightarrow>
          Inr (if display_state s0 = MENU \<or> display_state s0 = GAMES
               then s1\<lparr>ui := (ui s1)\<lparr>last_button_index := button_index s0\<rparr>\<rparr> else s1))"

definition camera_feed_body :: "bool \<Rightarrow> sys \<Rightarrow> sys result" where
  "camera_feed_body probe_ok s =
     (let s1 = (if \<not> camera_init s then camera_setup probe_ok s else s)
      in case drawCameraFeed s1 of Inl e \<Rightarrow> Inl e | Inr s2 \<Rightarrow> handleButtonCamera s2)"

definition sd_card_body :: "bool \<Rightarrow> sys \<Rightarrow> sys result" where
  "sd_card_body root_ok s =
     (let s1 = (if \<not> menu_init s then sd_card_setup root_ok s else s)
      in case (if \<not> image_view s1 then drawFiles s1 else drawImageViewer s1) of
           Inl e \<Rightarrow> Inl e
         | Inr s2 \<Rightarrow> handleButtonFiles s2)"

definition screen_dispatch :: "bool \<Rightarrow> bool \<Rightarrow> sys \<Rightarrow> sys result" where
  "screen_dispatch probe_ok root_ok s0 =
     (case display_state s0 of
        BOOT \<Rightarrow> Inr (s0\<lparr>display_state := MENU\<rparr>)
      | MENU \<Rightarrow> handleButtonMenu main_menu (int (length main_menu)) (s0\<lparr>menu_init := True\<rparr>)
      | CAMERA_FEED \<Rightarrow> camera_feed_body probe_ok s0
      | SD_CARD \<Rightarrow> sd_card_body root_ok s0
      | SYSTEM_DATA \<Rightarrow>
          (case drawSystemData (s0\<lparr>menu_init := True\<rparr>) of
             Inl e \<Rightarrow> Inl e
           | Inr s1 \<Rightarrow> Inr (handleButtonSimple s1))
      | WIFI \<Rightarrow>
          (case drawWifi (s0\<lparr>menu_init := True\<rparr>) of
             Inl e \<Rightarrow> Inl e
           | Inr (s1, _) \<Rightarrow> Inr (handleButtonSimple s1))
      | GAMES \<Rightarrow> handleButtonMenu games_menu (int (length games_menu)) (s0\<lparr>menu_init := True\<rparr>)
      | GAME1 \<Rightarrow> Inr (game1_tick (s0\<lparr>menu_init := True\<rparr>))
      | GAME2 \<Rightarrow> Inr (snd (handleButtonGame (s0\<lparr>menu_init := True\<rparr>)))
      | GAME3 \<Rightarrow> Inr (snd (handleButtonGame (s0\<lparr>menu_init := True\<rparr>))))"


section \<open>The clock worker (ntpTimeTask)\<close>

text \<open>\<open>getLocalTime(&t)\<close> writes the local time it obtained into the global \<open>t\<close>.\<close>

definition ntpTimeTask_iter :: "tm \<Rightarrow> sys \<Rightarrow> sys" where
  "ntpTimeTask_iter lt s = s\<lparr>t := lt\<rparr>"

section \<open>Interleaving of the task loops\<close>

datatype event =
    Display bool bool "32 word"   \<comment> \<open>camera probe result, SD root open result, \<open>millis()\<close>\<close>
  | Button "12 word"              \<comment> \<open>ADC reading\<close>
  | SysData int int "32 word" "32 word" "32 word"
  | Wifi string string int string int "(string \<times> int) list"
  | Ntp tm
  | Capture
  | Save bool                     \<comment> \<open>whether the SD card accepted the file\<close>
  | Delete bool                   \<comment> \<open>SD root open result of the reload\<close>

primrec task_of :: "event \<Rightarrow> task_fn" where
  "task_of (Display _ _ _) = displayTask"
| "task_of (Button _) = buttonTask"
| "task_of (SysData _ _ _ _ _) = systemDataTask"
| "task_of (Wifi _ _ _ _ _ _) = wifiDataTask"
| "task_of (Ntp _) = ntpTimeTask"
| "task_of Capture = frameCaptureTask"
| "task_of (Save _) = saveFrameToSDTask"
| "task_of (Delete _) = deleteFromSDTask"

primrec exec_event :: "event \<Rightarrow> sys \<Rightarrow> sys result" where
  "exec_event (Display p r now) s = display_tick p r now s"
| "exec_event (Button w) s = buttonTask_iter w s"
| "exec_event (SysData m c ms hs fh) s = Inr (systemDataTask_iter m c ms hs fh s)"
| "exec_event (Wifi ss ip rs mac n nets) s = Inr (wifiDataTask_iter ss ip rs mac n nets s)"
| "exec_event (Ntp lt) s = Inr (ntpTimeTask_iter lt s)"
| "exec_event Capture s = Inr (frameCapture_iter s)"
| "exec_event (Save ok) s = saveFrame_iter ok s"
| "exec_event (Delete ok) s = Inr (deleteFromSD_iter ok s)"

text \<open>A task function can take a step when some live instance of it is not suspended.\<close>

definition may_run :: "task_fn \<Rightarrow> sys \<Rightarrow> bool" where
  "may_run f s = list_ex (\<lambda>(i, g). g = f \<and> i \<notin> set (suspended (os s))) (live (os s))"

inductive step :: "sys \<Rightarrow> sys result \<Rightarrow> bool" where
  exec: "may_run (task_of e) s \<Longrightarrow> step s (exec_event e s)"

inductive reach :: "sys result \<Rightarrow> bool" where
  boot: "setup_main connected alloc root_ok 0 (globals_init t0 root) = Some s \<Longrightarrow> reach (Inr s)"
| run: "reach (Inr s) \<Longrightarrow> step s r \<Longrightarrow> reach r"

text \<open>An executable run of a sequence of events (\<open>None\<close>: some event's task could not run).\<close>

fun run_events :: "event list \<Rightarrow> sys \<Rightarrow> sys result option" where
  "run_events [] s = Some (Inr s)"
| "run_events (e # es) s =
     (if may_run (task_of e) s then
        (case exec_event e s of Inl err \<Rightarrow> Some (Inl err) | Inr s' \<Rightarrow> run_events es s')
      else None)"

section \<open>Reachable-state invariants\<close>

text \<open>
  The navigation state a screen change acts on: active screen, previous screen and
  selection index.  \<open>nav_inv\<close> is the invariant of the navigation state machine: on a
  list screen the selection lies within that list, elsewhere it is 0, and the previous
  screen is the games menu inside a game and the main menu everywhere else.
\<close>

definition screen :: "sys \<Rightarrow> display_state \<times> display_state \<times> int" where
  "screen s = (display_state s, prev_state s, button_index s)"

text \<open>The effect of one button event of a list screen on the navigation state.\<close>

definition list_nav :: "menu_item list \<Rightarrow> int \<Rightarrow> button_state \<Rightarrow>
    display_state \<times> display_state \<times> int \<Rightarrow> display_state \<times> display_state \<times> int" where
  "list_nav menu n b sc =
     (case sc of (d, p, i) \<Rightarrow>
        (case b of
           DOWN \<Rightarrow> (d, p, menu_down n i)
         | UP \<Rightarrow> (d, p, menu_up n i)
         | SELECT \<Rightarrow> (next_state (menu ! nat i), d, 0)
         | BACK \<Rightarrow> (p, p, 0)
         | NONE \<Rightarrow> (d, p, i)))"

definition screen_ok :: "display_state \<times> display_state \<times> int \<Rightarrow> bool" where
  "screen_ok sc \<longleftrightarrow> (case sc of (d, p, i) \<Rightarrow>
     (d = MENU \<longrightarrow> 0 \<le> i \<and> i < int (length main_menu)) \<and>
     (d = GAMES \<longrightarrow> 0 \<le> i \<and> i < int (length games_menu)) \<and>
     (d \<noteq> MENU \<and> d \<noteq> GAMES \<longrightarrow> i = 0) \<and>
     p = (if d \<in> {GAME1, GAME2, GAME3} then GAMES else MENU))"

definition nav_inv :: "sys \<Rightarrow> bool" where
  "nav_inv s \<longleftrightarrow> screen_ok (screen s)"

text \<open>
  The navigation state machine as the spec's contract \<open>handle(event, current)\<close>
  describes it (section 4.1), over (active screen, previous screen, selection): on a
  list screen Up and Down move the selection with wrap-around modulo the item count,
  Select enters the chosen item's screen, remembering the list, and Back restores the
  previous screen; on a leaf screen Back returns to the menu; in a game Back returns to
  the games menu (whose own Back then leads to the menu); any other event, and no event,
  is a no-op.  The camera and file screens, whose Back also tears resources down, are
  specified by their own theorems.
\<close>

definition items_of :: "display_state \<Rightarrow> menu_item list option" where
  "items_of d = (if d = MENU then Some main_menu else if d = GAMES then Some games_menu else None)"

definition nav_spec :: "button_state \<Rightarrow> display_state \<times> display_state \<times> int \<Rightarrow>
    display_state \<times> display_state \<times> int" where
  "nav_spec b sc =
     (case sc of (a, p, i) \<Rightarrow>
        (case items_of a of
           Some items \<Rightarrow>
             (if b = DOWN then (a, p, (i + 1) mod int (length items))
              else if b = UP then (a, p, (i - 1) mod int (length items))
              else if b = SELECT then (next_state (items ! nat i), a, 0)
              else if b = BACK then (p, p, 0)
              else (a, p, i))
         | None \<Rightarrow>
             (if b = BACK \<and> a \<in> {SYSTEM_DATA, WIFI} then (MENU, p, 0)
              else if b = BACK \<and> a \<in> {GAME1, GAME2, GAME3} then (GAMES, MENU, 0)
              else (a, p, i))))"

text \<open>
  The part of the globals that tracks the dynamic workers: the task table, the display
  task, the three worker handles, and the flags that guard the camera and SD setup
  blocks.  \<open>handles_inv\<close> is the invariant relating them: a non-\<open>NULL\<close> handle names a
  live task of its function; the camera workers exist exactly while the camera is
  initialised, which happens only on the camera screen; the delete worker's handle is
  set only on the SD screen, and always once its setup block has run.
\<close>

definition ctl :: "sys \<Rightarrow> rtos \<times> tid \<times> tid option \<times> tid option \<times> tid option \<times> bool" where
  "ctl s = (os s, display_tid s, frameCaptureTask_handle s, saveFrameToSDTask_handle s,
            deleteFromSDTask_handle s, camera_init s)"

definition task_ok :: "rtos \<Rightarrow> task_fn \<Rightarrow> tid option \<Rightarrow> bool" where
  "task_ok r f h = (case h of None \<Rightarrow> True | Some i \<Rightarrow> (i, f) \<in> set (live r))"

definition handles_inv :: "sys \<Rightarrow> bool" where
  "handles_inv s \<longleftrightarrow>
     rtos_wf (os s) \<and> (display_tid s, displayTask) \<in> set (live (os s)) \<and>
     task_ok (os s) frameCaptureTask (frameCaptureTask_handle s) \<and>
     task_ok (os s) saveFrameToSDTask (saveFrameToSDTask_handle s) \<and>
     task_ok (os s) deleteFromSDTask (deleteFromSDTask_handle s) \<and>
     (camera_init s \<longleftrightarrow> frameCaptureTask_handle s \<noteq> None) \<and>
     (camera_init s \<longleftrightarrow> saveFrameToSDTask_handle s \<noteq> None) \<and>
     (camera_init s \<longrightarrow> display_state s = CAMERA_FEED) \<and>
     (deleteFromSDTask_handle s \<noteq> None \<longrightarrow> display_state s = SD_CARD) \<and>
     (display_state s = SD_CARD \<and> menu_init s \<longrightarrow> deleteFromSDTask_handle s \<noteq> None)"

text \<open>
  The shapes the C++ types give the shared data: a FreeRTOS queue never holds more items
  than the length it was created with (3 button events, one frame pointer each for
  display and save, one telemetry snapshot, five delete requests, one WiFi snapshot); a
  \<open>WiFiInfo\<close> carries \<open>MAX_WIFI\<close> nearby-network strings; the heap window holds 60 or 61
  samples.
\<close>

definition qok :: "nat \<Rightarrow> 'a queue \<Rightarrow> bool" where
  "qok n q \<longleftrightarrow> q_len q = n \<and> length (q_items q) \<le> n"

definition shape_inv :: "sys \<Rightarrow> bool" where
  "shape_inv s \<longleftrightarrow>
     qok BUTTON_QUEUE_SIZE (button_queue s) \<and> qok FRAME_DISPLAY_QUEUE_SIZE (frame_display_queue s) \<and>
     qok FRAME_SAVE_QUEUE_SIZE (frame_save_queue s) \<and> qok SYS_INFO_QUEUE_SIZE (sys_info_queue s) \<and>
     qok FILE_DELETE_QUEUE_SIZE (file_delete_queue s) \<and> qok WIFI_QUEUE_SIZE (wifi_queue s) \<and>
     (\<forall>w \<in> set (q_items (wifi_queue s)). length (nearby w) = nat MAX_WIFI) \<and>
     NUM_SYS_DATA_POINTS \<le> length (heap_usage s) \<and> length (heap_usage s) \<le> Suc NUM_SYS_DATA_POINTS"

text \<open>What \<open>setup()\<close> leaves of the task-related globals when it runs in task \<open>me\<close>.\<close>

definition boot_fields :: "tid \<Rightarrow> sys \<Rightarrow> bool" where
  "boot_fields me s \<longleftrightarrow>
     os s = \<lparr>next_tid = 6, live = [(0, loopTask), (1, displayTask), (2, buttonTask),
              (3, systemDataTask), (4, wifiDataTask), (5, ntpTimeTask)], suspended = [me]\<rparr> \<and>
     display_tid s = 1 \<and> frameCaptureTask_handle s = None \<and> saveFrameToSDTask_handle s = None \<and>
     deleteFromSDTask_handle s = None \<and> \<not> camera_init s \<and> \<not> menu_init s \<and>
     display_state s = BOOT \<and> length (heap_usage s) = NUM_SYS_DATA_POINTS"

text \<open>The state after a successful boot with an empty card, at the example clock.\<close>

definition boot_example :: sys where
  "boot_example = the (setup_main (\<lambda>_. True) [True, True, True, True, True, True] True 0 (globals_init tm_example []))"



text \<open>
  What the scheduler keeps of the tasks across a step: every live task other than the three
  workers stays live, and no task becomes suspended.  \<open>perm_inv\<close>: only setup's own task
  (tid 0) is suspended, and the display and button tasks live under other tids.
\<close>

definition os_keeps :: "rtos \<Rightarrow> rtos \<Rightarrow> bool" where
  "os_keeps r r' \<longleftrightarrow>
     (\<forall>i f. (i, f) \<in> set (live r) \<and> f \<notin> {frameCaptureTask, saveFrameToSDTask, deleteFromSDTask} \<longrightarrow>
            (i, f) \<in> set (live r')) \<and>
     set (suspended r') \<subseteq> set (suspended r)"

definition perm_inv :: "sys \<Rightarrow> bool" where
  "perm_inv s \<longleftrightarrow>
     set (suspended (os s)) \<subseteq> {0} \<and> display_tid s \<noteq> 0 \<and> (\<exists>i. i \<noteq> 0 \<and> (i, buttonTask) \<in> set (live (os s)))"

text \<open>A run from boot to the WiFi screen: Down (reading 1500), Select (reading 3000).\<close>

definition wifi_trace :: "event list" where
  "wifi_trace = [Display True True 0, Button 1500, Display True True 10, Button 3000, Display True True 20]"

text \<open>
  A state with the camera driver started and one frame waiting in the save queue, at the
  example clock, with an empty card.
\<close>

definition save_example :: sys where
  "save_example = (globals_init tm_example [])\<lparr>camera := \<lparr>cam_on = True, cam_gen = 1, cam_slots = 5, cam_free = []\<rparr>,
                     frame_save_queue := \<lparr>q_len = 1, q_items = [(1, 0)]\<rparr>\<rparr>"

text \<open>A tick that closes a two-second frame-rate window after 49 frames.\<close>

definition fps_example :: sys where
  "fps_example = (globals_init tm_example [])\<lparr>frames := 49, now_ms := 2000\<rparr>"

declare setup_main_def [model_defs] fps_update_def [model_defs] display_tick_def [model_defs]
  display_dispatch_def [model_defs]
  ntpTimeTask_iter_def [model_defs]


section \<open>The WiFi wait of setup\<close>

lemma initWiFi_connected [simp]: "connected k \<Longrightarrow> initWiFi connected k = Some k"
  by (subst initWiFi.simps) simp

lemma initWiFi_first:
  assumes "connected j" and "k \<le> j" and "\<forall>i. k \<le> i \<and> i < j \<longrightarrow> \<not> connected i"
  shows "initWiFi connected k = Some j"
  using assms
proof (induction "j - k" arbitrary: k)
  case 0
  then show ?case by (subst initWiFi.simps) simp
next
  case (Suc d)
  then have "\<not> connected k" and "Suc k \<le> j" by auto
  then show ?case using Suc.hyps(1) [of "Suc k"] Suc.hyps(2) Suc.prems by (subst initWiFi.simps) auto
qed

lemma initWiFi_Some:
  assumes ret: "initWiFi connected k = Some j"
  shows "connected j \<and> k \<le> j \<and> (\<forall>i. k \<le> i \<and> i < j \<longrightarrow> \<not> connected i)"
proof (rule initWiFi.raw_induct
    [where P = "\<lambda>c k j. c j \<and> k \<le> j \<and> (\<forall>i. k \<le> i \<and> i < j \<longrightarrow> \<not> c i)", OF _ ret])
  fix f c k j
  assume IH: "\<And>c k j. f c k = Some j \<Longrightarrow> c j \<and> k \<le> j \<and> (\<forall>i. k \<le> i \<and> i < j \<longrightarrow> \<not> c i)"
    and eq: "(if c k then Some k else f c (Suc k)) = Some j"
  show "c j \<and> k \<le> j \<and> (\<forall>i. k \<le> i \<and> i < j \<longrightarrow> \<not> c i)"
  proof (cases "c k")
    case True
    with eq show ?thesis by auto
  next
    case False
    with eq have "f c (Suc k) = Some j" by simp
    then have "c j \<and> Suc k \<le> j \<and> (\<forall>i. Suc k \<le> i \<and> i < j \<longrightarrow> \<not> c i)" by (rule IH)
    with False show ?thesis by (metis Suc_leD le_antisym not_less_eq_eq)
  qed
qed

lemma initWiFi_returns: "(\<exists>j. initWiFi connected k = Some j) \<longleftrightarrow> (\<exists>j \<ge> k. connected j)"
proof
  assume "\<exists>j \<ge> k. connected j"
  then obtain j where "connected j" "k \<le> j" "\<forall>i. k \<le> i \<and> i < j \<longrightarrow> \<not> connected i"
    using exists_least_iff [of "\<lambda>j. k \<le> j \<and> connected j"] by (metis order.strict_trans2 not_le)
  then show "\<exists>j. initWiFi connected k = Some j" using initWiFi_first by blast
qed (use initWiFi_Some in blast)
section \<open>The status bar in the display tick\<close>

lemma drawStatusBar_camera_setup:
  "drawStatusBar (camera_setup p s) = map_sum id (camera_setup p) (drawStatusBar s)"
  by (rule drawStatusBar_frame) (simp_all add: camera_setup_def Let_def case_prod_unfold)

lemma drawStatusBar_sd_card_setup:
  "drawStatusBar (sd_card_setup r s) = map_sum id (sd_card_setup r) (drawStatusBar s)"
  by (rule drawStatusBar_frame) (simp_all add: sd_card_setup_def loadFileNames_def Let_def case_prod_unfold)

text \<open>What a concrete run needs to evaluate the status bar.\<close>

lemmas status_eval = c_float_to_int_nonneg fmt_0d_2_length

lemmas drawMenu_menus [simp] = drawMenu_Inr [of main_menu, simplified] drawMenu_Inr [of games_menu, simplified]

lemma sys_ui_menu_init_commute: "s\<lparr>menu_init := b, ui := u\<rparr> = s\<lparr>ui := u, menu_init := b\<rparr>"
  by simp

lemma ui_last_same: "last_button_index u = x \<Longrightarrow> u\<lparr>last_button_index := x\<rparr> = u"
  by (cases u) simp

lemma drawStatusBar_Inr_ui: "drawStatusBar s = Inr s' \<Longrightarrow> \<exists>u. drawStatusBar s = Inr (s\<lparr>ui := u\<rparr>)"
  using drawStatusBar_ui by metis

text \<open>The prologue of a menu case: rows on entry, status bar, highlight.\<close>

lemma menu_prologue_status:
  "(case (if \<not> menu_init s0 then drawMenu m (int (length m)) s0 else Inr (s0, [])) of
      Inl e \<Rightarrow> Inl e
    | Inr (s1, _) \<Rightarrow>
        (case drawStatusBar (s1\<lparr>menu_init := True\<rparr>) of
           Inl e \<Rightarrow> Inl e
         | Inr s2 \<Rightarrow> handleButtonMenu m (int (length m)) (fst (updateMenuHighlight m (int (length m)) s2)))) =
   (case drawStatusBar s0 of
      Inl e \<Rightarrow> Inl e
    | Inr s1 \<Rightarrow> handleButtonMenu m (int (length m))
                 (s1\<lparr>ui := (ui s1)\<lparr>last_button_index := button_index s0\<rparr>, menu_init := True\<rparr>))"
proof (cases "drawStatusBar s0")
  case (Inl e)
  then show ?thesis by (simp add: drawMenu_Inr drawStatusBar_last)
next
  case (Inr s1)
  then obtain u where d: "drawStatusBar s0 = Inr (s0\<lparr>ui := u\<rparr>)" using drawStatusBar_Inr_ui by blast
  show ?thesis
  proof (cases "menu_init s0")
    case True
    then show ?thesis using d
      by (simp add: updateMenuHighlight_def ui_last_same sys_ui_menu_init_commute)
  next
    case False
    then show ?thesis using d by (simp add: drawMenu_Inr drawStatusBar_last updateMenuHighlight_def)
  qed
qed

lemma display_dispatch_status:
  assumes "display_state s0 \<noteq> BOOT"
  shows "display_dispatch p r s0 = (case status_step s0 of Inl e \<Rightarrow> Inl e | Inr s1 \<Rightarrow> screen_dispatch p r s1)"
proof (cases "drawStatusBar s0")
  case (Inl e)
  then have "status_step s0 = Inl e" by (simp add: status_step_def)
  from assms show ?thesis
  proof (cases "display_state s0")
    case CAMERA_FEED
    then show ?thesis using Inl \<open>status_step s0 = Inl e\<close>
      by (simp add: display_dispatch_def camera_feed_tick_def drawStatusBar_camera_setup Let_def)
  next
    case SD_CARD
    then show ?thesis using Inl \<open>status_step s0 = Inl e\<close>
      by (simp add: display_dispatch_def sd_card_tick_def drawStatusBar_sd_card_setup Let_def)
  qed (use Inl \<open>status_step s0 = Inl e\<close> in \<open>simp_all add: display_dispatch_def menu_prologue_status\<close>)
next
  case (Inr s1)
  then obtain u where d: "drawStatusBar s0 = Inr (s0\<lparr>ui := u\<rparr>)" using drawStatusBar_Inr_ui by blast
  then have st: "status_step s0 = Inr (if display_state s0 = MENU \<or> display_state s0 = GAMES
      then s0\<lparr>ui := u\<lparr>last_button_index := button_index s0\<rparr>\<rparr> else s0\<lparr>ui := u\<rparr>)"
    by (simp add: status_step_def)
  from assms show ?thesis
  proof (cases "display_state s0")
    case MENU
    then show ?thesis using d st by (simp add: display_dispatch_def screen_dispatch_def menu_prologue_status)
  next
    case GAMES
    then show ?thesis using d st by (simp add: display_dispatch_def screen_dispatch_def menu_prologue_status)
  next
    case CAMERA_FEED
    then show ?thesis using d st
      by (simp add: display_dispatch_def screen_dispatch_def camera_feed_tick_def camera_feed_body_def
          drawStatusBar_camera_setup Let_def)
  next
    case SD_CARD
    then show ?thesis using d st
      by (simp add: display_dispatch_def screen_dispatch_def sd_card_tick_def sd_card_body_def
          drawStatusBar_sd_card_setup Let_def)
  qed (use d st in \<open>simp_all add: display_dispatch_def screen_dispatch_def\<close>)
qed

lemma status_step_Inr: "status_step s = Inr s1 \<Longrightarrow> \<exists>u. s1 = s\<lparr>ui := u\<rparr>"
proof -
  assume a: "status_step s = Inr s1"
  then obtain s2 where "drawStatusBar s = Inr s2" by (cases "drawStatusBar s") (simp_all add: status_step_def)
  then obtain u where d: "drawStatusBar s = Inr (s\<lparr>ui := u\<rparr>)" using drawStatusBar_Inr_ui by blast
  show ?thesis
  proof (cases "display_state s = MENU \<or> display_state s = GAMES")
    case True
    then show ?thesis using a d by (intro exI [of _ "u\<lparr>last_button_index := button_index s\<rparr>"]) (simp add: status_step_def)
  next
    case False
    then show ?thesis using a d by (intro exI [of _ u]) (simp add: status_step_def)
  qed
qed

lemma status_step_Inl: "status_step s = Inl e \<Longrightarrow> drawStatusBar s = Inl e"
  by (auto simp: status_step_def split: sum.splits)

lemma display_dispatch_cases:
  "(case display_dispatch p r s of Inl e \<Rightarrow> drawStatusBar s = Inl e \<or> (\<exists>u. screen_dispatch p r (s\<lparr>ui := u\<rparr>) = Inl e)
    | Inr s' \<Rightarrow> \<exists>u. screen_dispatch p r (s\<lparr>ui := u\<rparr>) = Inr s')"
proof (cases "display_state s = BOOT")
  case True
  then have "display_dispatch p r s = screen_dispatch p r (s\<lparr>ui := ui s\<rparr>)"
    by (simp add: display_dispatch_def screen_dispatch_def)
  then show ?thesis by (auto split: sum.splits intro: exI [of _ "ui s"])
next
  case False
  show ?thesis
  proof (cases "status_step s")
    case (Inl e)
    then show ?thesis using display_dispatch_status [OF False, of p r] status_step_Inl by simp
  next
    case (Inr s1)
    then obtain u where "s1 = s\<lparr>ui := u\<rparr>" using status_step_Inr by blast
    with Inr show ?thesis using display_dispatch_status [OF False, of p r] by (auto split: sum.splits)
  qed
qed

lemma display_tick_Inr:
  "display_tick p r now s = Inr s' \<Longrightarrow>
   \<exists>u s1. screen_dispatch p r (s\<lparr>now_ms := now, ui := u\<rparr>) = Inr s1 \<and> s' = fps_update s1"
  using display_dispatch_cases [where p = p and r = r and s = "s\<lparr>now_ms := now\<rparr>"] by (auto simp: display_tick_def split: sum.splits)

lemma display_tick_Inl:
  "display_tick p r now s = Inl e \<Longrightarrow>
   drawStatusBar (s\<lparr>now_ms := now\<rparr>) = Inl e \<or> (\<exists>u. screen_dispatch p r (s\<lparr>now_ms := now, ui := u\<rparr>) = Inl e)"
  using display_dispatch_cases [where p = p and r = r and s = "s\<lparr>now_ms := now\<rparr>"] by (auto simp: display_tick_def split: sum.splits)

section \<open>How each handler moves the navigation state\<close>

lemma handleButtonMenu_screen_case:
  "(case handleButtonMenu menu n s of
      Inl _ \<Rightarrow> True
    | Inr s' \<Rightarrow> screen s' = (case q_items (button_queue s) of [] \<Rightarrow> screen s | b # _ \<Rightarrow> list_nav menu n b (screen s)))"
proof (cases "q_items (button_queue s)")
  case Nil
  then show ?thesis by (simp add: handleButtonMenu_def button_receive_empty screen_def)
next
  case (Cons b bs)
  then show ?thesis
    by (cases b) (simp_all add: handleButtonMenu_def button_receive_front screen_def list_nav_def
        c_index_def)
qed

lemma handleButtonMenu_screen:
  "handleButtonMenu menu n s = Inr s' \<Longrightarrow>
   screen s' = (case q_items (button_queue s) of [] \<Rightarrow> screen s | b # _ \<Rightarrow> list_nav menu n b (screen s))"
  using handleButtonMenu_screen_case [where menu = menu and n = n and s = s] by simp

lemma handleButtonSimple_screen_eq:
  "screen (handleButtonSimple s) =
     (case q_items (button_queue s) of [] \<Rightarrow> screen s
      | b # _ \<Rightarrow> if b = BACK then (MENU, prev_state s, 0) else screen s)"
  by (simp add: handleButtonSimple_def button_receive_def xQueueReceive_def screen_def split: list.splits)

lemma handleButtonGame_screen_eq:
  "screen (snd (handleButtonGame s)) =
     (case q_items (button_queue s) of [] \<Rightarrow> screen s
      | b # _ \<Rightarrow> if b = BACK then (GAMES, MENU, 0) else screen s)"
  by (simp add: handleButtonGame_def button_receive_def xQueueReceive_def screen_def Let_def split: list.splits)

lemma handleButtonSimple_screen:
  "screen (handleButtonSimple s) = screen s \<or> screen (handleButtonSimple s) = (MENU, prev_state s, 0)"
  by (simp add: handleButtonSimple_screen_eq split: list.splits)

lemma handleButtonGame_screen:
  "screen (snd (handleButtonGame s)) = screen s \<or> screen (snd (handleButtonGame s)) = (GAMES, MENU, 0)"
  by (simp add: handleButtonGame_screen_eq split: list.splits)

lemma fps_update_screen [simp]: "screen (fps_update s) = screen s"
  by (simp add: fps_update_def screen_def Let_def)

lemma camera_setup_screen [simp]: "screen (camera_setup p s) = screen s"
  by (simp add: camera_setup_def screen_def Let_def split: prod.splits)

lemma drawCameraFeed_screen: "drawCameraFeed s = Inr s' \<Longrightarrow> screen s' = screen s"
  by (auto simp: drawCameraFeed_def screen_def split: option.splits if_splits)

lemma delete_worker_screen: "delete_worker h s = Inr s' \<Longrightarrow> screen s' = screen s"
  by (auto simp: delete_worker_def screen_def split: option.splits)

lemma camera_teardown_screen: "camera_teardown s = Inr s' \<Longrightarrow> screen s' = (MENU, prev_state s, 0)"
  by (auto simp: camera_teardown_def delete_worker_def screen_def Let_def
      split: option.splits sum.splits prod.splits)

lemma handleButtonCamera_screen:
  "handleButtonCamera s = Inr s' \<Longrightarrow> screen s' = screen s \<or> screen s' = (MENU, prev_state s, 0)"
  by (auto simp: handleButtonCamera_def button_receive_def screen_def
      dest!: camera_teardown_screen split: option.splits if_splits)

lemma camera_feed_body_screen:
  assumes "camera_feed_body p s = Inr s'"
  shows "screen s' = screen s \<or> screen s' = (MENU, prev_state s, 0)"
proof -
  let ?s1 = "if \<not> camera_init s then camera_setup p s else s"
  have "screen ?s1 = screen s" by simp
  moreover obtain s2 where d: "drawCameraFeed ?s1 = Inr s2" and h: "handleButtonCamera s2 = Inr s'"
    using assms by (auto simp: camera_feed_body_def Let_def split: sum.splits)
  ultimately show ?thesis
    using drawCameraFeed_screen [OF d] handleButtonCamera_screen [OF h] by (simp add: screen_def)
qed

lemma sd_card_setup_screen [simp]: "screen (sd_card_setup ok s) = screen s"
  by (simp add: sd_card_setup_def screen_def loadFileNames_def Let_def split: prod.splits)

lemma drawFiles_screen: "drawFiles s = Inr s' \<Longrightarrow> screen s' = screen s"
  by (auto simp: drawFiles_def screen_def Let_def split: prod.splits sum.splits if_splits)

lemma drawImageViewer_screen: "drawImageViewer s = Inr s' \<Longrightarrow> screen s' = screen s"
  by (auto simp: drawImageViewer_def screen_def split: sum.splits if_splits)

lemma handleButtonFiles_screen:
  "handleButtonFiles s = Inr s' \<Longrightarrow> screen s' = screen s \<or> screen s' = (MENU, MENU, 0)"
  by (auto simp: handleButtonFiles_def button_receive_def files_list_event_def files_viewer_event_def
      screen_def split: option.splits if_splits sum.splits)

lemma sd_card_body_screen:
  assumes "sd_card_body ok s = Inr s'"
  shows "screen s' = screen s \<or> screen s' = (MENU, MENU, 0)"
proof -
  let ?s1 = "if \<not> menu_init s then sd_card_setup ok s else s"
  have "screen ?s1 = screen s" by simp
  moreover obtain s2 where d: "(if \<not> image_view ?s1 then drawFiles ?s1 else drawImageViewer ?s1) = Inr s2"
    and h: "handleButtonFiles s2 = Inr s'"
    using assms by (auto simp: sd_card_body_def Let_def split: sum.splits)
  moreover have "screen s2 = screen ?s1"
    using d drawFiles_screen drawImageViewer_screen by (cases "image_view ?s1") simp_all
  ultimately show ?thesis using handleButtonFiles_screen [OF h] by simp
qed

lemma drawSystemData_screen: "drawSystemData s = Inr s' \<Longrightarrow> screen s' = screen s"
  by (auto simp: drawSystemData_def screen_def split: option.splits sum.splits)

lemma drawWifi_screen: "drawWifi s = Inr (s', ls) \<Longrightarrow> screen s' = screen s"
  by (auto simp: drawWifi_def screen_def split: option.splits sum.splits if_splits)

lemma exec_event_worker_frame:
  assumes "task_of e \<noteq> displayTask"
  shows "(case exec_event e s of Inl _ \<Rightarrow> True | Inr s' \<Rightarrow> screen s' = screen s \<and> ctl s' = ctl s \<and> menu_init s' = menu_init s)"
  using assms
proof (cases e)
  case (Button w)
  then show ?thesis by (simp add: buttonTask_iter_def screen_def ctl_def split: option.splits)
next
  case (SysData m c ms hs fh)
  then show ?thesis by (simp add: systemDataTask_iter_def screen_def ctl_def Let_def)
next
  case (Wifi ss ip rs mac n nets)
  then show ?thesis by (simp add: wifiDataTask_iter_def screen_def ctl_def Let_def)
next
  case (Ntp lt)
  then show ?thesis by (simp add: ntpTimeTask_iter_def screen_def ctl_def)
next
  case Capture
  then show ?thesis by (simp add: frameCapture_iter_def screen_def ctl_def Let_def split: option.splits prod.splits)
next
  case (Save ok)
  then show ?thesis by (simp add: saveFrame_iter_def screen_def ctl_def Let_def split: option.splits prod.splits)
next
  case (Delete ok)
  then show ?thesis
    by (simp add: deleteFromSD_iter_def loadFileNames_def screen_def ctl_def Let_def split: option.splits prod.splits)
qed (simp)

lemma nav_inv_screen: "screen s' = screen s \<Longrightarrow> nav_inv s' = nav_inv s"
  by (simp add: nav_inv_def)

lemma main_menu_next:
  "0 \<le> i \<Longrightarrow> i < int (length main_menu) \<Longrightarrow>
   next_state (main_menu ! nat i) \<in> {SYSTEM_DATA, WIFI, CAMERA_FEED, SD_CARD, GAMES}"
proof -
  assume "0 \<le> i" "i < int (length main_menu)"
  then have "nat i \<in> {0, 1, 2, 3, 4}" by (auto simp: main_menu_def)
  then show ?thesis by (auto simp: main_menu_def)
qed

lemma games_menu_next:
  "0 \<le> i \<Longrightarrow> i < int (length games_menu) \<Longrightarrow> next_state (games_menu ! nat i) \<in> {GAME1, GAME2, GAME3}"
proof -
  assume "0 \<le> i" "i < int (length games_menu)"
  then have "nat i \<in> {0, 1, 2}" by (auto simp: games_menu_def)
  then show ?thesis by (auto simp: games_menu_def)
qed

lemma list_nav_main:
  assumes "0 \<le> i" and "i < int (length main_menu)"
  shows "screen_ok (list_nav main_menu (int (length main_menu)) b (MENU, MENU, i))"
proof -
  have "0 \<le> menu_down (int (length main_menu)) i \<and> menu_down (int (length main_menu)) i < int (length main_menu)"
    and "0 \<le> menu_up (int (length main_menu)) i \<and> menu_up (int (length main_menu)) i < int (length main_menu)"
    using assms menu_down_range menu_up_range by blast+
  moreover have "next_state (main_menu ! nat i) \<in> {SYSTEM_DATA, WIFI, CAMERA_FEED, SD_CARD, GAMES}"
    using main_menu_next [OF assms] .
  ultimately show ?thesis
    using assms by (cases b) (auto simp: list_nav_def screen_ok_def)
qed

lemma list_nav_games:
  assumes "0 \<le> i" and "i < int (length games_menu)"
  shows "screen_ok (list_nav games_menu (int (length games_menu)) b (GAMES, MENU, i))"
proof -
  have "0 \<le> menu_down (int (length games_menu)) i \<and> menu_down (int (length games_menu)) i < int (length games_menu)"
    and "0 \<le> menu_up (int (length games_menu)) i \<and> menu_up (int (length games_menu)) i < int (length games_menu)"
    using assms menu_down_range menu_up_range by blast+
  moreover have "next_state (games_menu ! nat i) \<in> {GAME1, GAME2, GAME3}"
    using games_menu_next [OF assms] .
  ultimately show ?thesis
    using assms by (cases b) (auto simp: list_nav_def screen_ok_def)
qed

lemma screen_dispatch_nav_inv:
  assumes "nav_inv s" and "screen_dispatch p r s = Inr s'"
  shows "nav_inv s'"
proof -
  let ?m = "s\<lparr>menu_init := True\<rparr>"
  have m: "screen ?m = screen s" by (simp add: screen_def)
  have ok: "screen_ok (screen s)" using assms(1) by (simp add: nav_inv_def)
  show ?thesis
  proof (cases "display_state s")
    case BOOT
    then show ?thesis using assms ok by (auto simp: screen_dispatch_def nav_inv_def screen_def screen_ok_def)
  next
    case MENU
    then have h: "handleButtonMenu main_menu (int (length main_menu)) ?m = Inr s'"
      using assms(2) by (simp add: screen_dispatch_def)
    have "0 \<le> button_index s" "button_index s < int (length main_menu)" "prev_state s = MENU"
      using ok MENU by (simp_all add: screen_ok_def screen_def)
    then show ?thesis
      using handleButtonMenu_screen [OF h] list_nav_main ok m MENU
      by (auto simp: nav_inv_def screen_def split: list.splits)
  next
    case GAMES
    then have h: "handleButtonMenu games_menu (int (length games_menu)) ?m = Inr s'"
      using assms(2) by (simp add: screen_dispatch_def)
    have "0 \<le> button_index s" "button_index s < int (length games_menu)" "prev_state s = MENU"
      using ok GAMES by (simp_all add: screen_ok_def screen_def)
    then show ?thesis
      using handleButtonMenu_screen [OF h] list_nav_games ok m GAMES
      by (auto simp: nav_inv_def screen_def split: list.splits)
  next
    case CAMERA_FEED
    then have "camera_feed_body p s = Inr s'" using assms(2) by (simp add: screen_dispatch_def)
    then show ?thesis
      using camera_feed_body_screen ok CAMERA_FEED
      by (fastforce simp: nav_inv_def screen_def screen_ok_def)
  next
    case SD_CARD
    then have "sd_card_body r s = Inr s'" using assms(2) by (simp add: screen_dispatch_def)
    then show ?thesis
      using sd_card_body_screen ok SD_CARD
      by (fastforce simp: nav_inv_def screen_def screen_ok_def)
  next
    case SYSTEM_DATA
    then obtain s1 where d: "drawSystemData ?m = Inr s1" and s': "s' = handleButtonSimple s1"
      using assms(2) by (auto simp: screen_dispatch_def split: sum.splits)
    have "screen s1 = screen s" using drawSystemData_screen [OF d] m by simp
    then show ?thesis
      using handleButtonSimple_screen [of s1] ok SYSTEM_DATA s'
      by (auto simp: nav_inv_def screen_def screen_ok_def)
  next
    case WIFI
    then obtain s1 ls where d: "drawWifi ?m = Inr (s1, ls)" and s': "s' = handleButtonSimple s1"
      using assms(2) by (auto simp: screen_dispatch_def split: sum.splits)
    have "screen s1 = screen s" using drawWifi_screen [OF d] m by simp
    then show ?thesis
      using handleButtonSimple_screen [of s1] ok WIFI s'
      by (auto simp: nav_inv_def screen_def screen_ok_def)
  next
    case GAME1
    then obtain g where "s' = (snd (handleButtonGame ?m))\<lparr>game1 := g\<rparr>"
      using assms(2) by (simp add: screen_dispatch_def game1_tick_eq) metis
    then show ?thesis
      using handleButtonGame_screen [of ?m] ok GAME1 m by (auto simp: nav_inv_def screen_def screen_ok_def)
  next
    case GAME2
    then have "s' = snd (handleButtonGame ?m)" using assms(2) by (simp add: screen_dispatch_def)
    then show ?thesis
      using handleButtonGame_screen [of ?m] ok GAME2 m by (auto simp: nav_inv_def screen_def screen_ok_def)
  next
    case GAME3
    then have "s' = snd (handleButtonGame ?m)" using assms(2) by (simp add: screen_dispatch_def)
    then show ?thesis
      using handleButtonGame_screen [of ?m] ok GAME3 m by (auto simp: nav_inv_def screen_def screen_ok_def)
  qed
qed

lemma exec_event_nav_inv:
  assumes "nav_inv s" and "exec_event e s = Inr s'"
  shows "nav_inv s'"
proof (cases "task_of e = displayTask")
  case True
  then obtain p r now where e: "e = Display p r now" by (cases e) auto
  then obtain u s1 where d: "screen_dispatch p r (s\<lparr>now_ms := now, ui := u\<rparr>) = Inr s1" and s': "s' = fps_update s1"
    using assms(2) display_tick_Inr by fastforce
  have "nav_inv (s\<lparr>now_ms := now, ui := u\<rparr>)" using assms(1) nav_inv_screen [of "s\<lparr>now_ms := now, ui := u\<rparr>" s]
    by (simp add: screen_def)
  then have "nav_inv s1" using screen_dispatch_nav_inv [OF _ d] by blast
  then show ?thesis using s' nav_inv_screen [of s' s1] by simp
next
  case False
  then show ?thesis
    using exec_event_worker_frame [OF False, of s] assms nav_inv_screen [of s' s] by simp
qed

lemma setup_main_screen:
  "setup_main connected alloc ok me s0 = Some s \<Longrightarrow> screen s = screen s0"
  by (auto simp: setup_main_def initQueues_def initHeapQueue_def loadFileNames_def screen_def Let_def
      split: option.splits if_splits prod.splits)

lemma globals_init_nav_inv: "nav_inv (globals_init t0 root)"
  by (simp add: nav_inv_def screen_def screen_ok_def globals_init_def)

lemma reach_cases_Inr:
  assumes "reach r"
    and "\<And>connected alloc ok t0 root s. setup_main connected alloc ok 0 (globals_init t0 root) = Some s \<Longrightarrow> P s"
    and "\<And>s e s'. P s \<Longrightarrow> may_run (task_of e) s \<Longrightarrow> exec_event e s = Inr s' \<Longrightarrow> P s'"
  shows "(case r of Inl _ \<Rightarrow> True | Inr s \<Rightarrow> P s)"
  using assms(1)
proof induction
  case (boot alloc root_ok t0 root s)
  then show ?case using assms(2) by simp
next
  case (run s r)
  then show ?case using assms(3) by (auto elim!: step.cases split: sum.splits)
qed

section \<open>Which errors each component can raise\<close>

lemma camera_feed_body_errors:
  "camera_feed_body p s = Inl e \<Longrightarrow> e = UseAfterFree ''fb'' \<or> e = DeletedCaller"
  by (auto simp: camera_feed_body_def drawCameraFeed_def handleButtonCamera_def camera_teardown_def
      delete_worker_def button_receive_def Let_def split: option.splits if_splits sum.splits prod.splits)

lemma files_list_event_errors: "files_list_event s = Inl e \<Longrightarrow> e = DeletedCaller"
  by (auto simp: files_list_event_def split: if_splits option.splits)

lemma files_viewer_event_errors: "files_viewer_event s = Inl e \<Longrightarrow> \<exists>i. e = OutOfRange ''filenames'' i"
  by (auto simp: files_viewer_event_def c_index_def split: if_splits sum.splits)

lemma read_rows_errors: "read_rows xs rs = Inl e \<Longrightarrow> \<exists>i. e = OutOfRange ''filenames'' i"
  by (induction rs) (auto simp: c_index_def split: if_splits)

lemma sd_card_body_errors:
  assumes "sd_card_body ok s = Inl e"
  shows "(\<exists>i. e = OutOfRange ''filenames'' i) \<or> e = DeletedCaller"
proof -
  let ?s1 = "if \<not> menu_init s then sd_card_setup ok s else s"
  have draw: "(\<exists>i. e = OutOfRange ''filenames'' i)"
    if "(if \<not> image_view ?s1 then drawFiles ?s1 else drawImageViewer ?s1) = Inl e"
    using that read_rows_errors
    by (auto simp: drawFiles_def drawImageViewer_def c_index_def Let_def split: if_splits sum.splits prod.splits)
  have hand: "(\<exists>i. e = OutOfRange ''filenames'' i) \<or> e = DeletedCaller" if "handleButtonFiles s2 = Inl e" for s2
    using that files_list_event_errors files_viewer_event_errors
    by (auto simp: handleButtonFiles_def split: prod.splits bool.splits if_splits sum.splits)
  show ?thesis
    using assms draw hand by (auto simp: sd_card_body_def Let_def split: sum.splits)
qed

lemma wifi_lines_errors: "wifi_lines i n arr = Inl e \<Longrightarrow> \<exists>j. e = OutOfRange ''nearby'' j"
proof (induction i n arr rule: wifi_lines.induct)
  case (1 i n arr)
  then show ?case
    by (subst (asm) wifi_lines.simps) (auto simp: c_index_def split: if_splits sum.splits)
qed

lemma drawWifi_errors: "drawWifi s = Inl e \<Longrightarrow> \<exists>j. e = OutOfRange ''nearby'' j"
  using wifi_lines_errors by (auto simp: drawWifi_def split: option.splits if_splits sum.splits)

lemma handleButtonMenu_errors:
  "handleButtonMenu menu n s = Inl e \<Longrightarrow>
   e = OutOfRange ''menu'' (button_index s) \<and> \<not> (0 \<le> button_index s \<and> button_index s < int (length menu))"
  by (auto simp: handleButtonMenu_def button_receive_def c_index_def split: option.splits if_splits)

lemma saveFrame_iter_errors:
  "saveFrame_iter ok s = Inl e \<Longrightarrow> e = UseAfterFree ''fb'' \<or> (\<exists>n. e = BufferOverflow ''f'' n)"
  by (auto simp: saveFrame_iter_def Let_def split: option.splits if_splits prod.splits)

lemma buttonTask_iter_errors: "buttonTask_iter w s = Inl e \<Longrightarrow> e = Uninitialised ''state''"
  by (auto simp: buttonTask_iter_def split: option.splits)

lemma screen_dispatch_menu_errors:
  assumes "nav_inv s" and d: "screen_dispatch p r s = Inl e"
  shows "\<forall>i. e \<noteq> OutOfRange ''menu'' i"
proof -
  let ?s0 = s
  have ok: "screen_ok (screen s)" using assms(1) by (simp add: nav_inv_def)
  show ?thesis
  proof (cases "display_state s")
    case MENU
    with d handleButtonMenu_errors [of main_menu _ "?s0\<lparr>menu_init := True\<rparr>" e] ok show ?thesis
      by (auto simp: screen_dispatch_def screen_ok_def screen_def)
  next
    case GAMES
    with d handleButtonMenu_errors [of games_menu _ "?s0\<lparr>menu_init := True\<rparr>" e] ok show ?thesis
      by (auto simp: screen_dispatch_def screen_ok_def screen_def)
  next
    case CAMERA_FEED
    with d camera_feed_body_errors [of p ?s0 e] show ?thesis by (auto simp: screen_dispatch_def)
  next
    case SD_CARD
    with d sd_card_body_errors [of r ?s0 e] show ?thesis by (auto simp: screen_dispatch_def)
  next
    case SYSTEM_DATA
    with d drawSystemData_errors show ?thesis by (auto simp: screen_dispatch_def split: sum.splits)
  next
    case WIFI
    with d drawWifi_errors show ?thesis by (fastforce simp: screen_dispatch_def split: sum.splits)
  qed (use d in \<open>simp_all add: screen_dispatch_def\<close>)
qed

lemma display_tick_errors:
  assumes "nav_inv s" and "display_tick p r now s = Inl e"
  shows "\<forall>i. e \<noteq> OutOfRange ''menu'' i"
proof -
  have "nav_inv (s\<lparr>now_ms := now, ui := u\<rparr>)" for u
    using assms(1) nav_inv_screen [of "s\<lparr>now_ms := now, ui := u\<rparr>" s] by (simp add: screen_def)
  then show ?thesis
    using display_tick_Inl [OF assms(2)] drawStatusBar_errors screen_dispatch_menu_errors by fastforce
qed

lemma exec_event_no_menu_error:
  assumes "nav_inv s"
  shows "exec_event e s \<noteq> Inl (OutOfRange ''menu'' i)"
proof (cases e)
  case (Display p r now)
  then show ?thesis using display_tick_errors [OF assms, of p r now] by auto
next
  case (Button w)
  then show ?thesis using buttonTask_iter_errors by fastforce
next
  case (Save ok)
  then show ?thesis using saveFrame_iter_errors by fastforce
qed simp_all

lemma reachable_nav_inv: "reach r \<Longrightarrow> (case r of Inl _ \<Rightarrow> True | Inr s \<Rightarrow> nav_inv s)"
proof (erule reach_cases_Inr)
  fix connected alloc ok t0 root s
  assume "setup_main connected alloc ok 0 (globals_init t0 root) = Some s"
  then show "nav_inv s"
    using setup_main_screen globals_init_nav_inv nav_inv_screen by metis
next
  fix s e s'
  assume "nav_inv s" and "exec_event e s = Inr s'"
  then show "nav_inv s'" by (rule exec_event_nav_inv)
qed

lemma boot_example_setup:
  "setup_main (\<lambda>_. True) [True, True, True, True, True, True] True 0 (globals_init tm_example []) = Some boot_example"
  by (simp add: boot_example_def setup_main_def initQueues_def Let_def case_prod_unfold)

lemma boot_example_reach: "reach (Inr boot_example)"
  using boot_example_setup by (rule reach.boot)

lemma boot_example_fields:
  "display_state boot_example = BOOT \<and> may_run displayTask boot_example"
  by (simp add: boot_example_def setup_main_def initQueues_def initHeapQueue_def loadFileNames_def
      globals_init_def xTaskCreate_def vTaskSuspend_def target_def may_run_def Let_def case_prod_unfold)

lemma boot_example_tick_reach: "reach (display_tick True True 1000 boot_example)"
  using reach.run [OF boot_example_reach step.exec [of "Display True True 1000"]] boot_example_fields
  by simp

section \<open>The task-handle invariant\<close>

lemma handles_inv_frame:
  "ctl s' = ctl s \<Longrightarrow> display_state s' = display_state s \<Longrightarrow> menu_init s' = menu_init s \<Longrightarrow>
   handles_inv s' = handles_inv s"
  by (simp add: handles_inv_def ctl_def)

text \<open>Away from the camera and SD screens no worker exists, so any screen change keeps the invariant.\<close>

lemma handles_inv_plain_screen:
  assumes "handles_inv s" and "ctl s' = ctl s"
    and "display_state s \<noteq> CAMERA_FEED" and "display_state s \<noteq> SD_CARD"
    and "display_state s' = SD_CARD \<longrightarrow> \<not> menu_init s'"
  shows "handles_inv s'"
  using assms by (auto simp: handles_inv_def ctl_def task_ok_def)

lemma live_distinct_fn:
  "rtos_wf r \<Longrightarrow> (a, f) \<in> set (live r) \<Longrightarrow> (b, g) \<in> set (live r) \<Longrightarrow> f \<noteq> g \<Longrightarrow> a \<noteq> b"
proof
  assume "rtos_wf r" "(a, f) \<in> set (live r)" "(b, g) \<in> set (live r)" "f \<noteq> g" "a = b"
  moreover have "inj_on fst (set (live r))" using \<open>rtos_wf r\<close> by (simp add: rtos_wf_def distinct_map)
  ultimately have "(a, f) = (b, g)" by (metis fst_conv inj_onD)
  with \<open>f \<noteq> g\<close> show False by simp
qed

lemma live_vTaskDelete:
  "(a, f) \<in> set (live r) \<Longrightarrow> a \<noteq> k \<Longrightarrow> (a, f) \<in> set (live (vTaskDelete c (Some k) r))"
  by (simp add: vTaskDelete_def target_def)

lemma handleButtonMenu_ctl_case:
  "(case handleButtonMenu menu n s of
      Inl _ \<Rightarrow> True
    | Inr s' \<Rightarrow> ctl s' = ctl s \<and> (display_state s' = display_state s \<or> \<not> menu_init s'))"
proof (cases "q_items (button_queue s)")
  case Nil
  then show ?thesis by (simp add: handleButtonMenu_def button_receive_empty ctl_def)
next
  case (Cons b bs)
  then show ?thesis
    by (cases b) (simp_all add: handleButtonMenu_def button_receive_front ctl_def c_index_def)
qed

lemma handleButtonSimple_ctl:
  "ctl (handleButtonSimple s) = ctl s \<and> display_state (handleButtonSimple s) \<in> {display_state s, MENU}"
  by (simp add: handleButtonSimple_def button_receive_def ctl_def split: option.splits)

lemma handleButtonGame_ctl:
  "ctl (snd (handleButtonGame s)) = ctl s \<and> display_state (snd (handleButtonGame s)) \<in> {display_state s, GAMES}"
  by (simp add: handleButtonGame_def button_receive_def ctl_def Let_def split: option.splits)

lemma fps_update_ctl [simp]:
  "ctl (fps_update s) = ctl s \<and> display_state (fps_update s) = display_state s \<and>
   menu_init (fps_update s) = menu_init s"
  by (simp add: fps_update_def ctl_def Let_def)

lemma drawSystemData_ctl:
  "drawSystemData s = Inr s' \<Longrightarrow> ctl s' = ctl s \<and> display_state s' = display_state s \<and> menu_init s' = menu_init s"
  by (auto simp: drawSystemData_def ctl_def split: option.splits sum.splits)

lemma drawWifi_ctl:
  "drawWifi s = Inr (s', ls) \<Longrightarrow> ctl s' = ctl s \<and> display_state s' = display_state s \<and> menu_init s' = menu_init s"
  by (auto simp: drawWifi_def ctl_def split: option.splits sum.splits if_splits)

lemma xTaskCreate_parts:
  "fst (xTaskCreate f r) = next_tid r \<and> live (snd (xTaskCreate f r)) = live r @ [(next_tid r, f)] \<and>
   next_tid (snd (xTaskCreate f r)) = Suc (next_tid r)"
  by (simp add: xTaskCreate_def)

lemma camera_setup_handles_inv:
  assumes "handles_inv s" and "display_state s = CAMERA_FEED" and "\<not> camera_init s"
  shows "handles_inv (camera_setup p s) \<and> camera_init (camera_setup p s) \<and>
         display_state (camera_setup p s) = CAMERA_FEED"
proof -
  let ?r1 = "snd (xTaskCreate frameCaptureTask (os s))"
  let ?r2 = "snd (xTaskCreate saveFrameToSDTask ?r1)"
  have f: "os (camera_setup p s) = ?r2"
    "frameCaptureTask_handle (camera_setup p s) = Some (next_tid (os s))"
    "saveFrameToSDTask_handle (camera_setup p s) = Some (next_tid ?r1)"
    "camera_init (camera_setup p s)" "display_state (camera_setup p s) = display_state s"
    "display_tid (camera_setup p s) = display_tid s"
    "deleteFromSDTask_handle (camera_setup p s) = deleteFromSDTask_handle s"
    by (simp_all add: camera_setup_def Let_def case_prod_unfold xTaskCreate_parts)
  have "rtos_wf ?r2" using assms(1) xTaskCreate_wf by (simp add: handles_inv_def)
  with assms f show ?thesis by (auto simp: handles_inv_def task_ok_def xTaskCreate_parts)
qed

lemma camera_teardown_handles_inv:
  assumes "handles_inv s" and "camera_init s"
  shows "(case camera_teardown s of Inl _ \<Rightarrow> True | Inr s' \<Rightarrow> handles_inv s')"
proof -
  obtain tc ts where hc: "frameCaptureTask_handle s = Some tc" and hs: "saveFrameToSDTask_handle s = Some ts"
    using assms by (auto simp: handles_inv_def)
  have wf: "rtos_wf (os s)" and d: "(display_tid s, displayTask) \<in> set (live (os s))"
    and c: "(tc, frameCaptureTask) \<in> set (live (os s))" and v: "(ts, saveFrameToSDTask) \<in> set (live (os s))"
    and n: "deleteFromSDTask_handle s = None"
    using assms hc hs by (auto simp: handles_inv_def task_ok_def)
  have "display_tid s \<noteq> tc" and "display_tid s \<noteq> ts"
    using live_distinct_fn [OF wf d c] live_distinct_fn [OF wf d v] by simp_all
  then have "(display_tid s, displayTask) \<in>
               set (live (vTaskDelete (display_tid s) (Some ts) (vTaskDelete (display_tid s) (Some tc) (os s))))"
    using d live_vTaskDelete by simp
  moreover have "rtos_wf (vTaskDelete (display_tid s) (Some ts) (vTaskDelete (display_tid s) (Some tc) (os s)))"
    using wf vTaskDelete_wf by blast
  ultimately show ?thesis
    using hc hs n
    by (simp add: camera_teardown_def delete_worker_def handles_inv_def task_ok_def Let_def case_prod_unfold)
qed

lemma drawCameraFeed_ctl:
  "drawCameraFeed s = Inr s' \<Longrightarrow> ctl s' = ctl s \<and> display_state s' = display_state s \<and> menu_init s' = menu_init s"
  by (auto simp: drawCameraFeed_def ctl_def split: option.splits if_splits)

lemma handleButtonCamera_handles_inv:
  assumes "handles_inv s" and "camera_init s"
  shows "(case handleButtonCamera s of Inl _ \<Rightarrow> True | Inr s' \<Rightarrow> handles_inv s')"
proof (cases "q_items (button_queue s)")
  case Nil
  then show ?thesis using assms by (auto simp: handleButtonCamera_def button_receive_empty handles_inv_def)
next
  case (Cons b bs)
  let ?s1 = "s\<lparr>button_state := b, button_queue := button_queue s\<lparr>q_items := bs\<rparr>\<rparr>"
  have i1: "handles_inv ?s1" "camera_init ?s1" using assms by (auto simp: handles_inv_def)
  show ?thesis
  proof (cases "b = BACK")
    case True
    then show ?thesis
      using Cons camera_teardown_handles_inv [OF i1] by (simp add: handleButtonCamera_def button_receive_front)
  next
    case False
    then show ?thesis
      using Cons i1 by (auto simp: handleButtonCamera_def button_receive_front handles_inv_def)
  qed
qed

lemma camera_feed_body_handles_inv:
  assumes "handles_inv s" and "display_state s = CAMERA_FEED" and "camera_feed_body p s = Inr s'"
  shows "handles_inv s'"
proof -
  let ?s1 = "if \<not> camera_init s then camera_setup p s else s"
  have i1: "handles_inv ?s1 \<and> camera_init ?s1"
    using camera_setup_handles_inv [OF assms(1,2)] assms(1,2) by auto
  obtain s2 where d: "drawCameraFeed ?s1 = Inr s2" and h: "handleButtonCamera s2 = Inr s'"
    using assms(3) by (auto simp: camera_feed_body_def Let_def split: sum.splits)
  have "handles_inv s2 \<and> camera_init s2"
    using drawCameraFeed_ctl [OF d] i1 handles_inv_frame [of s2 ?s1] by (simp add: ctl_def)
  then show ?thesis using handleButtonCamera_handles_inv [of s2] h by simp
qed

lemma sd_card_setup_handles_inv:
  assumes "handles_inv s" and "display_state s = SD_CARD"
  shows "handles_inv (sd_card_setup ok s) \<and> menu_init (sd_card_setup ok s) \<and>
         display_state (sd_card_setup ok s) = SD_CARD \<and> deleteFromSDTask_handle (sd_card_setup ok s) \<noteq> None"
proof -
  have f: "ctl (sd_card_setup ok s) =
             (snd (xTaskCreate deleteFromSDTask (os s)), display_tid s, frameCaptureTask_handle s,
              saveFrameToSDTask_handle s, Some (next_tid (os s)), camera_init s)"
    "menu_init (sd_card_setup ok s)" "display_state (sd_card_setup ok s) = display_state s"
    by (simp_all add: sd_card_setup_def loadFileNames_def ctl_def Let_def case_prod_unfold xTaskCreate_parts)
  have "rtos_wf (snd (xTaskCreate deleteFromSDTask (os s)))"
    using assms(1) xTaskCreate_wf by (simp add: handles_inv_def)
  with assms f show ?thesis by (auto simp: handles_inv_def ctl_def task_ok_def xTaskCreate_parts)
qed

lemma drawFiles_ctl:
  "drawFiles s = Inr s' \<Longrightarrow> ctl s' = ctl s \<and> display_state s' = display_state s \<and> menu_init s' = menu_init s"
  by (auto simp: drawFiles_def ctl_def Let_def split: prod.splits sum.splits if_splits)

lemma drawImageViewer_ctl:
  "drawImageViewer s = Inr s' \<Longrightarrow> ctl s' = ctl s \<and> display_state s' = display_state s \<and> menu_init s' = menu_init s"
  by (auto simp: drawImageViewer_def ctl_def split: sum.splits if_splits)

lemma handleButtonFiles_handles_inv:
  assumes "handles_inv s" and "display_state s = SD_CARD" and "deleteFromSDTask_handle s = Some td"
  shows "(case handleButtonFiles s of Inl _ \<Rightarrow> True | Inr s' \<Rightarrow> handles_inv s')"
proof -
  have wf: "rtos_wf (os s)" and d: "(display_tid s, displayTask) \<in> set (live (os s))"
    and x: "(td, deleteFromSDTask) \<in> set (live (os s))" and ci: "\<not> camera_init s"
    using assms by (auto simp: handles_inv_def task_ok_def)
  have "display_tid s \<noteq> td" using live_distinct_fn [OF wf d x] by simp
  then have "(display_tid s, displayTask) \<in> set (live (vTaskDelete (display_tid s) (Some td) (os s)))"
    using d live_vTaskDelete by simp
  moreover have "rtos_wf (vTaskDelete (display_tid s) (Some td) (os s))" using wf vTaskDelete_wf by blast
  ultimately show ?thesis
    using assms ci
    by (auto simp: handleButtonFiles_def button_receive_def files_list_event_def files_viewer_event_def
        handles_inv_def task_ok_def split: option.splits if_splits sum.splits)
qed

lemma sd_card_body_handles_inv:
  assumes "handles_inv s" and "display_state s = SD_CARD" and "sd_card_body ok s = Inr s'"
  shows "handles_inv s'"
proof -
  let ?s1 = "if \<not> menu_init s then sd_card_setup ok s else s"
  have i1: "handles_inv ?s1 \<and> display_state ?s1 = SD_CARD \<and> deleteFromSDTask_handle ?s1 \<noteq> None"
    using sd_card_setup_handles_inv [OF assms(1,2), of ok] assms(1,2) by (auto simp: handles_inv_def)
  obtain s2 where dr: "(if \<not> image_view ?s1 then drawFiles ?s1 else drawImageViewer ?s1) = Inr s2"
    and h: "handleButtonFiles s2 = Inr s'"
    using assms(3) by (auto simp: sd_card_body_def Let_def split: sum.splits)
  have "ctl s2 = ctl ?s1 \<and> display_state s2 = display_state ?s1 \<and> menu_init s2 = menu_init ?s1"
    using dr drawFiles_ctl drawImageViewer_ctl by (cases "image_view ?s1") simp_all
  then have "handles_inv s2 \<and> display_state s2 = SD_CARD \<and> deleteFromSDTask_handle s2 \<noteq> None"
    using i1 handles_inv_frame [of s2 ?s1] by (simp add: ctl_def)
  then show ?thesis using handleButtonFiles_handles_inv [of s2] h by auto
qed

lemma screen_dispatch_handles_inv:
  assumes "handles_inv s" and "screen_dispatch p r s = Inr s'"
  shows "handles_inv s'"
proof (cases "display_state s")
  case BOOT
  with assms show ?thesis
    by (intro handles_inv_plain_screen [OF assms(1)]) (auto simp: screen_dispatch_def ctl_def)
next
  case MENU
  let ?m = "s\<lparr>menu_init := True\<rparr>"
  have "ctl s' = ctl ?m \<and> (display_state s' = display_state ?m \<or> \<not> menu_init s')"
    using handleButtonMenu_ctl_case [where menu = main_menu and n = "int (length main_menu)" and s = ?m] assms(2) MENU
    by (simp add: screen_dispatch_def)
  with MENU show ?thesis
    by (intro handles_inv_plain_screen [OF assms(1)]) (auto simp: ctl_def)
next
  case GAMES
  let ?m = "s\<lparr>menu_init := True\<rparr>"
  have "ctl s' = ctl ?m \<and> (display_state s' = display_state ?m \<or> \<not> menu_init s')"
    using handleButtonMenu_ctl_case [where menu = games_menu and n = "int (length games_menu)" and s = ?m] assms(2) GAMES
    by (simp add: screen_dispatch_def)
  with GAMES show ?thesis
    by (intro handles_inv_plain_screen [OF assms(1)]) (auto simp: ctl_def)
next
  case CAMERA_FEED
  with assms camera_feed_body_handles_inv show ?thesis by (simp add: screen_dispatch_def)
next
  case SD_CARD
  with assms sd_card_body_handles_inv show ?thesis by (simp add: screen_dispatch_def)
next
  case SYSTEM_DATA
  then obtain s1 where d: "drawSystemData (s\<lparr>menu_init := True\<rparr>) = Inr s1" and s': "s' = handleButtonSimple s1"
    using assms(2) by (auto simp: screen_dispatch_def split: sum.splits)
  with SYSTEM_DATA drawSystemData_ctl [OF d] handleButtonSimple_ctl [of s1] show ?thesis
    by (intro handles_inv_plain_screen [OF assms(1)]) (auto simp: ctl_def)
next
  case WIFI
  then obtain s1 ls where d: "drawWifi (s\<lparr>menu_init := True\<rparr>) = Inr (s1, ls)" and s': "s' = handleButtonSimple s1"
    using assms(2) by (auto simp: screen_dispatch_def split: sum.splits)
  with WIFI drawWifi_ctl [OF d] handleButtonSimple_ctl [of s1] show ?thesis
    by (intro handles_inv_plain_screen [OF assms(1)]) (auto simp: ctl_def)
next
  case GAME1
  with assms handleButtonGame_ctl [of "s\<lparr>menu_init := True\<rparr>"] show ?thesis
    by (intro handles_inv_plain_screen [OF assms(1)]) (auto simp: screen_dispatch_def ctl_def game1_tick_eq)
next
  case GAME2
  with assms handleButtonGame_ctl [of "s\<lparr>menu_init := True\<rparr>"] show ?thesis
    by (intro handles_inv_plain_screen [OF assms(1)]) (auto simp: screen_dispatch_def ctl_def)
next
  case GAME3
  with assms handleButtonGame_ctl [of "s\<lparr>menu_init := True\<rparr>"] show ?thesis
    by (intro handles_inv_plain_screen [OF assms(1)]) (auto simp: screen_dispatch_def ctl_def)
qed

lemma exec_event_handles_inv:
  assumes "handles_inv s" and "exec_event e s = Inr s'"
  shows "handles_inv s'"
proof (cases "task_of e = displayTask")
  case True
  then obtain p r now where e: "e = Display p r now" by (cases e) auto
  then obtain u s1 where d: "screen_dispatch p r (s\<lparr>now_ms := now, ui := u\<rparr>) = Inr s1" and s': "s' = fps_update s1"
    using assms(2) display_tick_Inr by fastforce
  have "handles_inv (s\<lparr>now_ms := now, ui := u\<rparr>)"
    using assms(1) handles_inv_frame [of "s\<lparr>now_ms := now, ui := u\<rparr>" s] by (simp add: ctl_def)
  then have "handles_inv s1" using screen_dispatch_handles_inv [OF _ d] by blast
  then show ?thesis using s' handles_inv_frame [of s' s1] by simp
next
  case False
  then show ?thesis
    using exec_event_worker_frame [OF False, of s] assms handles_inv_frame [of s' s]
    by (simp add: screen_def)
qed

lemma setup_main_fields:
  assumes "setup_main connected alloc ok me (globals_init t0 root) = Some s"
  shows "boot_fields me s"
proof -
  obtain s1 where q: "initQueues alloc (globals_init t0 root) = Some s1"
    using assms by (auto simp: setup_main_def split: option.splits)
  then have f: "os s1 = os (globals_init t0 root) \<and> heap_usage s1 = [] \<and> display_state s1 = BOOT \<and>
             saveFrameToSDTask_handle s1 = None \<and> deleteFromSDTask_handle s1 = None \<and>
             frameCaptureTask_handle s1 = None \<and> \<not> camera_init s1 \<and> \<not> menu_init s1"
    by (auto simp: initQueues_def globals_init_def split: if_splits)
  have "(case setup_main connected alloc ok me (globals_init t0 root) of None \<Rightarrow> True | Some s \<Rightarrow> boot_fields me s)"
    using q f
    by (simp add: setup_main_def boot_fields_def globals_init_def initHeapQueue_def loadFileNames_def
        xTaskCreate_def vTaskSuspend_def target_def Let_def case_prod_unfold split: option.splits)
  with assms show ?thesis by simp
qed

lemma setup_main_handles_inv:
  "setup_main connected alloc ok me (globals_init t0 root) = Some s \<Longrightarrow> handles_inv s"
  by (drule setup_main_fields) (simp add: boot_fields_def handles_inv_def rtos_wf_def task_ok_def)

lemma reachable_handles_inv: "reach r \<Longrightarrow> (case r of Inl _ \<Rightarrow> True | Inr s \<Rightarrow> handles_inv s)"
  by (erule reach_cases_Inr) (auto intro: setup_main_handles_inv exec_event_handles_inv)

lemma handleButtonCamera_total:
  assumes "frameCaptureTask_handle s \<noteq> None" and "saveFrameToSDTask_handle s \<noteq> None"
  shows "\<exists>s'. handleButtonCamera s = Inr s'"
  using assms
  by (auto simp: handleButtonCamera_def button_receive_def camera_teardown_def delete_worker_def
      Let_def case_prod_unfold split: option.splits)

lemma handleButtonFiles_not_deleted:
  "deleteFromSDTask_handle s \<noteq> None \<Longrightarrow> handleButtonFiles s \<noteq> Inl DeletedCaller"
  by (auto simp: handleButtonFiles_def button_receive_def files_list_event_def files_viewer_event_def
      c_index_def split: option.splits if_splits sum.splits)

lemma camera_feed_body_not_deleted:
  assumes "handles_inv s" and "display_state s = CAMERA_FEED"
  shows "camera_feed_body p s \<noteq> Inl DeletedCaller"
proof -
  let ?s1 = "if \<not> camera_init s then camera_setup p s else s"
  have i1: "handles_inv ?s1 \<and> camera_init ?s1"
    using camera_setup_handles_inv [OF assms(1,2)] assms(1,2) by auto
  show ?thesis
  proof (cases "drawCameraFeed ?s1")
    case (Inl e)
    then show ?thesis by (auto simp: camera_feed_body_def drawCameraFeed_def split: option.splits if_splits)
  next
    case (Inr s2)
    then have "handles_inv s2 \<and> camera_init s2"
      using drawCameraFeed_ctl [OF Inr] i1 handles_inv_frame [of s2 ?s1] by (simp add: ctl_def)
    then obtain s' where "handleButtonCamera s2 = Inr s'"
      using handleButtonCamera_total [of s2] by (auto simp: handles_inv_def)
    with Inr show ?thesis by (simp add: camera_feed_body_def)
  qed
qed

lemma sd_card_body_not_deleted:
  assumes "handles_inv s" and "display_state s = SD_CARD"
  shows "sd_card_body ok s \<noteq> Inl DeletedCaller"
proof -
  let ?s1 = "if \<not> menu_init s then sd_card_setup ok s else s"
  have i1: "handles_inv ?s1 \<and> deleteFromSDTask_handle ?s1 \<noteq> None"
    using sd_card_setup_handles_inv [OF assms(1,2), of ok] assms(1,2) by (auto simp: handles_inv_def)
  let ?d = "if \<not> image_view ?s1 then drawFiles ?s1 else drawImageViewer ?s1"
  show ?thesis
  proof (cases ?d)
    case (Inl e)
    then have "\<exists>i. e = OutOfRange ''filenames'' i"
      using read_rows_errors
      by (auto simp: drawFiles_def drawImageViewer_def c_index_def Let_def split: if_splits sum.splits prod.splits)
    with Inl show ?thesis by (auto simp: sd_card_body_def Let_def)
  next
    case (Inr s2)
    then have "deleteFromSDTask_handle s2 \<noteq> None"
      using drawFiles_ctl drawImageViewer_ctl i1 by (cases "image_view ?s1") (auto simp: ctl_def)
    with Inr handleButtonFiles_not_deleted [of s2] show ?thesis by (simp add: sd_card_body_def Let_def)
  qed
qed

lemma screen_dispatch_not_deleted:
  assumes "handles_inv s"
  shows "screen_dispatch p r s \<noteq> Inl DeletedCaller"
proof (cases "display_state s")
  case MENU
  then show ?thesis using handleButtonMenu_errors by (fastforce simp: screen_dispatch_def)
next
  case GAMES
  then show ?thesis using handleButtonMenu_errors by (fastforce simp: screen_dispatch_def)
next
  case CAMERA_FEED
  then show ?thesis using camera_feed_body_not_deleted [OF assms] by (simp add: screen_dispatch_def)
next
  case SD_CARD
  then show ?thesis using sd_card_body_not_deleted [OF assms] by (simp add: screen_dispatch_def)
next
  case SYSTEM_DATA
  then show ?thesis using drawSystemData_errors by (fastforce simp: screen_dispatch_def split: sum.splits)
next
  case WIFI
  then show ?thesis using drawWifi_errors by (fastforce simp: screen_dispatch_def split: sum.splits)
qed (simp_all add: screen_dispatch_def)

lemma exec_event_not_deleted:
  assumes "handles_inv s"
  shows "exec_event e s \<noteq> Inl DeletedCaller"
proof (cases e)
  case (Display p r now)
  have "handles_inv (s\<lparr>now_ms := now, ui := u\<rparr>)" for u
    using assms handles_inv_frame [of "s\<lparr>now_ms := now, ui := u\<rparr>" s] by (simp add: ctl_def)
  then show ?thesis
    using Display screen_dispatch_not_deleted display_tick_Inl [of p r now s DeletedCaller] drawStatusBar_errors
    by fastforce
next
  case (Button w)
  then show ?thesis using buttonTask_iter_errors by fastforce
next
  case (Save ok)
  then show ?thesis using saveFrame_iter_errors by fastforce
qed simp_all

section \<open>Refinement of the navigation contract\<close>

lemma list_nav_refines:
  assumes "items_of a = Some items" and "0 \<le> i" and "i < int (length items)"
  shows "list_nav items (int (length items)) b (a, p, i) = nav_spec b (a, p, i)"
  using assms menu_down_mod [OF assms(2,3)] menu_up_mod [OF assms(2,3)]
  by (cases b) (simp_all add: list_nav_def nav_spec_def)

lemma drawSystemData_keeps_buttons:
  "drawSystemData s = Inr s' \<Longrightarrow> button_queue s' = button_queue s \<and> prev_state s' = prev_state s"
  by (auto simp: drawSystemData_def split: option.splits sum.splits)

lemma drawWifi_keeps_buttons:
  "drawWifi s = Inr (s', ls) \<Longrightarrow> button_queue s' = button_queue s \<and> prev_state s' = prev_state s"
  by (auto simp: drawWifi_def split: option.splits sum.splits if_splits)

lemma nav_spec_no_event: "items_of a = None \<Longrightarrow> b \<noteq> BACK \<Longrightarrow> nav_spec b (a, p, i) = (a, p, i)"
  by (simp add: nav_spec_def)

lemma screen_dispatch_refines:
  assumes "nav_inv s" and "display_state s \<notin> {BOOT, CAMERA_FEED, SD_CARD}"
    and "screen_dispatch p r s = Inr s'"
  shows "screen s' = nav_spec (case q_items (button_queue s) of [] \<Rightarrow> NONE | b # _ \<Rightarrow> b) (screen s)"
proof -
  let ?m = "s\<lparr>menu_init := True\<rparr>"
  have ok: "screen_ok (screen s)" using assms(1) by (simp add: nav_inv_def)
  show ?thesis
  proof (cases "display_state s")
    case MENU
    have h: "handleButtonMenu main_menu (int (length main_menu)) ?m = Inr s'"
      using assms(3) MENU by (simp add: screen_dispatch_def)
    have "items_of MENU = Some main_menu" by (simp add: items_of_def)
    then show ?thesis
      using handleButtonMenu_screen [OF h] list_nav_refines [of MENU main_menu "button_index s"] ok MENU
      by (auto simp: screen_def screen_ok_def nav_spec_def split: list.splits)
  next
    case GAMES
    have h: "handleButtonMenu games_menu (int (length games_menu)) ?m = Inr s'"
      using assms(3) GAMES by (simp add: screen_dispatch_def)
    have "items_of GAMES = Some games_menu" by (simp add: items_of_def)
    then show ?thesis
      using handleButtonMenu_screen [OF h] list_nav_refines [of GAMES games_menu "button_index s"] ok GAMES
      by (auto simp: screen_def screen_ok_def nav_spec_def items_of_def split: list.splits)
  next
    case SYSTEM_DATA
    then obtain s1 where d: "drawSystemData ?m = Inr s1" and s': "s' = handleButtonSimple s1"
      using assms(3) by (auto simp: screen_dispatch_def split: sum.splits)
    then show ?thesis
      using drawSystemData_keeps_buttons [OF d] drawSystemData_screen [OF d] SYSTEM_DATA
        handleButtonSimple_screen_eq [of s1]
      by (auto simp: screen_def nav_spec_def items_of_def split: list.splits)
  next
    case WIFI
    then obtain s1 ls where d: "drawWifi ?m = Inr (s1, ls)" and s': "s' = handleButtonSimple s1"
      using assms(3) by (auto simp: screen_dispatch_def split: sum.splits)
    then show ?thesis
      using drawWifi_keeps_buttons [OF d] drawWifi_screen [OF d] WIFI handleButtonSimple_screen_eq [of s1]
      by (auto simp: screen_def nav_spec_def items_of_def split: list.splits)
  next
    case GAME1
    then show ?thesis
      using assms(3) handleButtonGame_screen_eq [of ?m]
      by (auto simp: screen_dispatch_def game1_tick_eq screen_def nav_spec_def items_of_def split: list.splits)
  next
    case GAME2
    then show ?thesis
      using assms(3) handleButtonGame_screen_eq [of ?m]
      by (auto simp: screen_dispatch_def screen_def nav_spec_def items_of_def split: list.splits)
  next
    case GAME3
    then show ?thesis
      using assms(3) handleButtonGame_screen_eq [of ?m]
      by (auto simp: screen_dispatch_def screen_def nav_spec_def items_of_def split: list.splits)
  qed (use assms(2) in simp_all)
qed

section \<open>The shape invariant\<close>

lemma qok_send [simp]: "qok n q \<Longrightarrow> qok n (snd (xQueueSend q x))"
  by (simp add: qok_def xQueueSend_def)

lemma qok_tail: "qok n q \<Longrightarrow> q_items q = x # xs \<Longrightarrow> qok n (q\<lparr>q_items := xs\<rparr>)"
  by (simp add: qok_def)

lemma qok_receive: "qok n q \<Longrightarrow> xQueueReceive q = Some (x, q') \<Longrightarrow> qok n q'"
  by (auto simp: qok_def xQueueReceive_Some_iff)

lemma qok_overwrite [simp]: "qok n q \<Longrightarrow> 0 < n \<Longrightarrow> qok n (xQueueOverwrite q x)"
  by (simp add: qok_def xQueueOverwrite_def)

lemma qok_teardown_drain:
  assumes "qok n dq" and "qok m sq"
  shows "qok n (fst (teardown_drain dq sq)) \<and> qok m (snd (teardown_drain dq sq))"
proof -
  obtain dq' sq' where d: "teardown_drain dq sq = (dq', sq')" by (cases "teardown_drain dq sq")
  from teardown_drain_items [OF d] assms d show ?thesis by (auto simp: qok_def)
qed

lemma shape_inv_button_tail:
  "shape_inv s \<Longrightarrow> q_items (button_queue s) = b # bs \<Longrightarrow>
   shape_inv (s\<lparr>button_state := b, button_queue := button_queue s\<lparr>q_items := bs\<rparr>\<rparr>)"
  by (simp add: shape_inv_def qok_tail)

lemma shape_inv_button_receive:
  "shape_inv s \<Longrightarrow> shape_inv (snd (button_receive s))"
  by (cases "q_items (button_queue s)")
     (simp_all add: button_receive_empty button_receive_front shape_inv_button_tail, simp add: shape_inv_def)

lemma handleButtonMenu_shape:
  "shape_inv s \<Longrightarrow> (case handleButtonMenu menu n s of Inl _ \<Rightarrow> True | Inr s' \<Rightarrow> shape_inv s')"
proof (cases "q_items (button_queue s)")
  case Nil
  assume "shape_inv s"
  with Nil show ?thesis by (simp add: handleButtonMenu_def button_receive_empty shape_inv_def)
next
  case (Cons b bs)
  assume "shape_inv s"
  with Cons shape_inv_button_tail [OF _ Cons] show ?thesis
    by (cases b) (simp_all add: handleButtonMenu_def button_receive_front c_index_def shape_inv_def)
qed

lemma handleButtonSimple_shape: "shape_inv s \<Longrightarrow> shape_inv (handleButtonSimple s)"
  using shape_inv_button_receive [of s]
  by (auto simp: handleButtonSimple_def shape_inv_def split: prod.splits bool.splits)

lemma handleButtonGame_shape: "shape_inv s \<Longrightarrow> shape_inv (snd (handleButtonGame s))"
  using shape_inv_button_receive [of "s\<lparr>game_input := CHR ''N''\<rparr>"]
  by (simp add: handleButtonGame_def shape_inv_def Let_def)

lemma fps_update_shape [simp]: "shape_inv (fps_update s) = shape_inv s"
  by (simp add: fps_update_def shape_inv_def Let_def)

lemma camera_setup_shape: "shape_inv (camera_setup p s) = shape_inv s"
  by (simp add: camera_setup_def shape_inv_def Let_def case_prod_unfold)

lemma drawCameraFeed_shape:
  "shape_inv s \<Longrightarrow> (case drawCameraFeed s of Inl _ \<Rightarrow> True | Inr s' \<Rightarrow> shape_inv s')"
  by (auto simp: drawCameraFeed_def shape_inv_def split: option.splits dest: qok_receive)

lemma camera_teardown_shape:
  "shape_inv s \<Longrightarrow> (case camera_teardown s of Inl _ \<Rightarrow> True | Inr s' \<Rightarrow> shape_inv s')"
  using qok_teardown_drain [of FRAME_DISPLAY_QUEUE_SIZE "frame_display_queue s" FRAME_SAVE_QUEUE_SIZE
      "frame_save_queue s"]
  by (simp add: camera_teardown_def delete_worker_def shape_inv_def Let_def case_prod_unfold
      split: option.splits)

lemma handleButtonCamera_shape:
  assumes "shape_inv s"
  shows "(case handleButtonCamera s of Inl _ \<Rightarrow> True | Inr s' \<Rightarrow> shape_inv s')"
proof (cases "q_items (button_queue s)")
  case Nil
  with assms show ?thesis by (simp add: handleButtonCamera_def button_receive_empty shape_inv_def)
next
  case (Cons b bs)
  with shape_inv_button_tail [OF assms Cons] camera_teardown_shape show ?thesis
    by (simp add: handleButtonCamera_def button_receive_front shape_inv_def)
qed

lemma camera_feed_body_shape:
  assumes "shape_inv s" and "camera_feed_body p s = Inr s'"
  shows "shape_inv s'"
proof -
  let ?s1 = "if \<not> camera_init s then camera_setup p s else s"
  have "shape_inv ?s1" using assms(1) camera_setup_shape by simp
  moreover obtain s2 where d: "drawCameraFeed ?s1 = Inr s2" and h: "handleButtonCamera s2 = Inr s'"
    using assms(2) by (auto simp: camera_feed_body_def Let_def split: sum.splits)
  ultimately show ?thesis
    using drawCameraFeed_shape [of ?s1] handleButtonCamera_shape [of s2] by simp
qed

lemma loadFileNames_shape [simp]: "shape_inv (loadFileNames ok s) = shape_inv s"
  by (simp add: loadFileNames_def shape_inv_def Let_def case_prod_unfold)

lemma sd_card_setup_shape: "shape_inv (sd_card_setup ok s) = shape_inv s"
  by (simp add: sd_card_setup_def loadFileNames_def shape_inv_def Let_def case_prod_unfold)

lemma drawFiles_shape: "drawFiles s = Inr s' \<Longrightarrow> shape_inv s' = shape_inv s"
  by (auto simp: drawFiles_def shape_inv_def Let_def split: prod.splits sum.splits if_splits)

lemma drawImageViewer_shape: "drawImageViewer s = Inr s' \<Longrightarrow> shape_inv s' = shape_inv s"
  by (auto simp: drawImageViewer_def shape_inv_def split: sum.splits if_splits)

lemma handleButtonFiles_shape:
  assumes "shape_inv s"
  shows "(case handleButtonFiles s of Inl _ \<Rightarrow> True | Inr s' \<Rightarrow> shape_inv s')"
proof (cases "q_items (button_queue s)")
  case Nil
  with assms show ?thesis by (simp add: handleButtonFiles_def button_receive_empty shape_inv_def)
next
  case (Cons b bs)
  with shape_inv_button_tail [OF assms Cons] show ?thesis
    by (auto simp: handleButtonFiles_def button_receive_front files_list_event_def files_viewer_event_def
        shape_inv_def split: sum.splits option.splits)
qed

lemma sd_card_body_shape:
  assumes "shape_inv s" and "sd_card_body ok s = Inr s'"
  shows "shape_inv s'"
proof -
  let ?s1 = "if \<not> menu_init s then sd_card_setup ok s else s"
  have s1: "shape_inv ?s1" using assms(1) sd_card_setup_shape by simp
  obtain s2 where dr: "(if \<not> image_view ?s1 then drawFiles ?s1 else drawImageViewer ?s1) = Inr s2"
    and h: "handleButtonFiles s2 = Inr s'"
    using assms(2) by (auto simp: sd_card_body_def Let_def split: sum.splits)
  have "shape_inv s2" using dr s1 drawFiles_shape drawImageViewer_shape by (cases "image_view ?s1") auto
  then show ?thesis using handleButtonFiles_shape [of s2] h by simp
qed

lemma drawSystemData_shape: "shape_inv s \<Longrightarrow> drawSystemData s = Inr s' \<Longrightarrow> shape_inv s'"
  by (auto simp: drawSystemData_def shape_inv_def xQueueReceive_Some_iff qok_def split: option.splits sum.splits)

lemma drawWifi_shape: "shape_inv s \<Longrightarrow> drawWifi s = Inr (s', ls) \<Longrightarrow> shape_inv s'"
  by (auto simp: drawWifi_def shape_inv_def xQueueReceive_Some_iff qok_def
      split: option.splits sum.splits if_splits)

lemma game1_tick_shape: "shape_inv s \<Longrightarrow> shape_inv (game1_tick s)"
  using handleButtonGame_shape [of s] by (simp add: game1_tick_eq shape_inv_def)

lemma screen_dispatch_shape:
  assumes "shape_inv s" and "screen_dispatch p r s = Inr s'"
  shows "shape_inv s'"
proof -
  have m: "shape_inv (s\<lparr>menu_init := True\<rparr>)" using assms(1) by (simp add: shape_inv_def)
  show ?thesis
  proof (cases "display_state s")
    case BOOT
    with assms show ?thesis by (auto simp: screen_dispatch_def shape_inv_def)
  next
    case MENU
    with assms handleButtonMenu_shape [OF m, where menu = main_menu and n = "int (length main_menu)"] show ?thesis by (simp add: screen_dispatch_def)
  next
    case GAMES
    with assms handleButtonMenu_shape [OF m, where menu = games_menu and n = "int (length games_menu)"] show ?thesis by (simp add: screen_dispatch_def)
  next
    case CAMERA_FEED
    with assms camera_feed_body_shape show ?thesis by (simp add: screen_dispatch_def)
  next
    case SD_CARD
    with assms sd_card_body_shape show ?thesis by (simp add: screen_dispatch_def)
  next
    case SYSTEM_DATA
    with assms drawSystemData_shape [OF m] handleButtonSimple_shape show ?thesis
      by (auto simp: screen_dispatch_def split: sum.splits)
  next
    case WIFI
    with assms drawWifi_shape [OF m] handleButtonSimple_shape show ?thesis
      by (auto simp: screen_dispatch_def split: sum.splits)
  qed (use assms m handleButtonGame_shape game1_tick_shape in \<open>auto simp: screen_dispatch_def\<close>)
qed

lemma wifiDataTask_iter_shape:
  assumes "shape_inv s"
  shows "shape_inv (wifiDataTask_iter ss ip rs mac n nets s)"
proof -
  let ?w = "wifiDataTask_iter ss ip rs mac n nets s"
  have e: "?w = s\<lparr>wifi_queue := wifi_queue ?w\<rparr>" by (simp add: wifiDataTask_iter_def Let_def)
  have "nat (if n > 0 then min n MAX_WIFI else 0) \<le> nat MAX_WIFI" by (auto simp: MAX_WIFI_def)
  then have "shape_inv (s\<lparr>wifi_queue := wifi_queue ?w\<rparr>)"
    using assms by (simp add: wifiDataTask_iter_info shape_inv_def qok_def WIFI_QUEUE_SIZE_def)
  then show ?thesis by (metis e)
qed

lemma systemDataTask_iter_shape:
  assumes "shape_inv s"
  shows "shape_inv (systemDataTask_iter m c ms hs fh s)"
proof -
  let ?x = "systemDataTask_iter m c ms hs fh s"
  have e: "?x = s\<lparr>max_heap := max_heap ?x, heap_usage := heap_usage ?x, sys_info_queue := sys_info_queue ?x\<rparr>"
    by (simp add: systemDataTask_iter_def Let_def)
  have "shape_inv (s\<lparr>max_heap := max_heap ?x, heap_usage := heap_usage ?x, sys_info_queue := sys_info_queue ?x\<rparr>)"
    using assms systemDataTask_iter_fields [of m c ms hs fh s]
    by (auto simp: shape_inv_def qok_def xQueueOverwrite_def SYS_INFO_QUEUE_SIZE_def)
  then show ?thesis by (metis e)
qed

lemma exec_event_shape:
  assumes "shape_inv s" and "exec_event e s = Inr s'"
  shows "shape_inv s'"
proof (cases e)
  case (Display p r now)
  then obtain u s1 where d: "screen_dispatch p r (s\<lparr>now_ms := now, ui := u\<rparr>) = Inr s1" and s': "s' = fps_update s1"
    using assms(2) display_tick_Inr by fastforce
  have "shape_inv (s\<lparr>now_ms := now, ui := u\<rparr>)" using assms(1) by (simp add: shape_inv_def)
  then show ?thesis using screen_dispatch_shape [OF _ d] s' by simp
next
  case (Button w)
  then show ?thesis using assms
    by (auto simp: buttonTask_iter_def shape_inv_def split: option.splits)
next
  case (SysData m c ms hs fh)
  then show ?thesis using assms systemDataTask_iter_shape by auto
next
  case (Wifi ss ip rs mac n nets)
  then show ?thesis using assms wifiDataTask_iter_shape by auto
next
  case (Ntp lt)
  then show ?thesis using assms by (auto simp: ntpTimeTask_iter_def shape_inv_def)
next
  case Capture
  then show ?thesis using assms
    by (auto simp: frameCapture_iter_def shape_inv_def Let_def split: option.splits prod.splits if_splits)
next
  case (Save ok)
  then show ?thesis using assms
    by (auto simp: saveFrame_iter_def shape_inv_def xQueueReceive_Some_iff qok_def Let_def
        split: option.splits if_splits)
next
  case (Delete ok)
  then show ?thesis using assms
    by (auto simp: deleteFromSD_iter_def Let_def split: option.splits)
       (auto simp: shape_inv_def xQueueReceive_Some_iff qok_def)
qed

lemma setup_main_shape: "setup_main connected alloc ok me (globals_init t0 root) = Some s \<Longrightarrow> shape_inv s"
  by (auto simp: setup_main_def initQueues_def initHeapQueue_def loadFileNames_def globals_init_def
      shape_inv_def qok_def xQueueCreate_def config_defs Let_def case_prod_unfold split: if_splits option.splits)

lemma reachable_shape_inv: "reach r \<Longrightarrow> (case r of Inl _ \<Rightarrow> True | Inr s \<Rightarrow> shape_inv s)"
  by (erule reach_cases_Inr) (auto intro: setup_main_shape exec_event_shape)

section \<open>The statics of the game\<close>

lemma button_receive_game1 [simp]: "game1 (snd (button_receive s)) = game1 s"
  by (simp add: button_receive_def split: option.splits)

lemma handleButtonMenu_game1: "handleButtonMenu menu n s = Inr s' \<Longrightarrow> game1 s' = game1 s"
  by (auto simp: handleButtonMenu_def button_receive_def c_index_def split: option.splits if_splits)

lemma handleButtonSimple_game1 [simp]: "game1 (handleButtonSimple s) = game1 s"
  by (simp add: handleButtonSimple_def button_receive_def split: option.splits prod.splits)

lemma camera_feed_body_game1: "camera_feed_body p s = Inr s' \<Longrightarrow> game1 s' = game1 s"
  by (auto simp: camera_feed_body_def camera_setup_def drawCameraFeed_def handleButtonCamera_def
      camera_teardown_def delete_worker_def button_receive_def Let_def case_prod_unfold
      split: option.splits if_splits sum.splits prod.splits)

lemma sd_card_body_game1: "sd_card_body ok s = Inr s' \<Longrightarrow> game1 s' = game1 s"
  by (auto simp: sd_card_body_def sd_card_setup_def loadFileNames_def drawFiles_def drawImageViewer_def
      handleButtonFiles_def files_list_event_def files_viewer_event_def delete_worker_def button_receive_def
      Let_def case_prod_unfold split: option.splits if_splits sum.splits prod.splits)

lemma drawSystemData_game1: "drawSystemData s = Inr s' \<Longrightarrow> game1 s' = game1 s"
  by (auto simp: drawSystemData_def split: option.splits sum.splits)

lemma drawWifi_game1: "drawWifi s = Inr (s', ls) \<Longrightarrow> game1 s' = game1 s"
  by (auto simp: drawWifi_def split: option.splits sum.splits if_splits)

lemma screen_dispatch_pong:
  assumes "pong_ok (game1 s)" and "screen_dispatch p r s = Inr s'"
  shows "pong_ok (game1 s')"
proof (cases "display_state s")
  case GAME1
  then show ?thesis using assms game1_tick_ok [of "s\<lparr>menu_init := True\<rparr>"] by (simp add: screen_dispatch_def)
next
  case MENU
  then show ?thesis using assms handleButtonMenu_game1 by (fastforce simp: screen_dispatch_def)
next
  case GAMES
  then show ?thesis using assms handleButtonMenu_game1 by (fastforce simp: screen_dispatch_def)
next
  case CAMERA_FEED
  then show ?thesis using assms camera_feed_body_game1 by (fastforce simp: screen_dispatch_def)
next
  case SD_CARD
  then show ?thesis using assms sd_card_body_game1 by (fastforce simp: screen_dispatch_def)
next
  case SYSTEM_DATA
  then show ?thesis using assms drawSystemData_game1 by (fastforce simp: screen_dispatch_def split: sum.splits)
next
  case WIFI
  then show ?thesis using assms drawWifi_game1 by (fastforce simp: screen_dispatch_def split: sum.splits)
qed (use assms in \<open>auto simp: screen_dispatch_def handleButtonGame_def button_receive_def Let_def
       split: option.splits\<close>)

lemma worker_game1 [simp]:
  "game1 (systemDataTask_iter m c ms hs fh s) = game1 s"
  "game1 (wifiDataTask_iter ss ip rs mac n nets s) = game1 s"
  "game1 (ntpTimeTask_iter lt s) = game1 s"
  "game1 (frameCapture_iter s) = game1 s"
  "game1 (deleteFromSD_iter ok s) = game1 s"
  by (simp_all add: systemDataTask_iter_def wifiDataTask_iter_def ntpTimeTask_iter_def frameCapture_iter_def
      deleteFromSD_iter_def Let_def split: option.splits prod.splits)

lemma buttonTask_iter_game1: "buttonTask_iter w s = Inr s' \<Longrightarrow> game1 s' = game1 s"
  by (auto simp: buttonTask_iter_def split: option.splits)

lemma saveFrame_iter_game1: "saveFrame_iter ok s = Inr s' \<Longrightarrow> game1 s' = game1 s"
  by (auto simp: saveFrame_iter_def Let_def split: option.splits if_splits prod.splits)

lemma setup_main_game1: "setup_main connected alloc ok me (globals_init t0 root) = Some s \<Longrightarrow> game1 s = pong_init"
  by (auto simp: setup_main_def initQueues_def initHeapQueue_def loadFileNames_def globals_init_def
      Let_def case_prod_unfold split: if_splits option.splits)

lemma exec_event_pong: "pong_ok (game1 s) \<Longrightarrow> exec_event e s = Inr s' \<Longrightarrow> pong_ok (game1 s')"
proof (induction e)
  case (Display p r now)
  then obtain u s1 where "screen_dispatch p r (s\<lparr>now_ms := now, ui := u\<rparr>) = Inr s1" and "s' = fps_update s1"
    using display_tick_Inr by fastforce
  then show ?case using screen_dispatch_pong [of "s\<lparr>now_ms := now, ui := u\<rparr>" p r s1] Display.prems(1)
    by (simp add: fps_update_def Let_def)
next
  case (Button w)
  then show ?case using buttonTask_iter_game1 by fastforce
next
  case (Save ok)
  then show ?case using saveFrame_iter_game1 by fastforce
qed auto

lemma reachable_pong: "reach r \<Longrightarrow> (case r of Inl _ \<Rightarrow> True | Inr s \<Rightarrow> pong_ok (game1 s))"
  by (erule reach_cases_Inr) (auto intro: exec_event_pong simp: setup_main_game1 pong_init_ok)

section \<open>The errors a run can reach\<close>

lemma drawWifi_shape_ok: "shape_inv s \<Longrightarrow> drawWifi s \<noteq> Inl e"
proof
  assume sh: "shape_inv s" and d: "drawWifi s = Inl e"
  then obtain info rest where q: "q_items (wifi_queue s) = info # rest"
    by (cases "q_items (wifi_queue s)") (auto simp: drawWifi_def)
  then have "length (nearby info) = nat MAX_WIFI" using sh by (auto simp: shape_inv_def)
  with d q show False using wifi_lines_result [of "nearby info" 0 "nearbyCount info"]
    by (auto simp: drawWifi_def split: if_splits)
qed


lemma run_events_reach: "run_events es s = Some r \<Longrightarrow> reach (Inr s) \<Longrightarrow> reach r"
proof (induction es arbitrary: s)
  case Nil
  then show ?case by simp
next
  case (Cons e es)
  then have m: "may_run (task_of e) s" by (auto split: if_splits)
  then have st: "step s (exec_event e s)" by (rule step.exec)
  show ?case
  proof (cases "exec_event e s")
    case (Inl err)
    then show ?thesis using Cons.prems m reach.run [OF Cons.prems(2) st] by simp
  next
    case (Inr s')
    then show ?thesis using Cons m reach.run [OF Cons.prems(2) st] by simp
  qed
qed





section \<open>The scheduling invariant and the leaf screens\<close>

text \<open>
  No step suspends a task or deletes a task other than a worker, so the display and button
  tasks can always run.  On the WiFi screen and the games a display tick consumes one
  button; with the queue bounded by three, a few ticks and one Back press leave the screen.
\<close>

lemma os_keeps_refl [simp]: "os_keeps r r"
  by (simp add: os_keeps_def)

lemma os_keeps_trans: "os_keeps a b \<Longrightarrow> os_keeps b c \<Longrightarrow> os_keeps a c"
  by (auto simp: os_keeps_def)

lemma os_keeps_create: "os_keeps r (snd (xTaskCreate f r))"
  by (simp add: os_keeps_def xTaskCreate_def)

lemma os_keeps_delete:
  assumes "rtos_wf r" and "(h, g) \<in> set (live r)" and "g \<in> {frameCaptureTask, saveFrameToSDTask, deleteFromSDTask}"
  shows "os_keeps r (vTaskDelete c (Some h) r)"
  unfolding os_keeps_def
proof (intro conjI allI impI)
  fix i f assume "(i, f) \<in> set (live r) \<and> f \<notin> {frameCaptureTask, saveFrameToSDTask, deleteFromSDTask}"
  then have "i \<noteq> h" using live_distinct_fn [OF assms(1), of i f h g] assms(2,3) by auto
  then show "(i, f) \<in> set (live (vTaskDelete c (Some h) r))"
    using \<open>(i, f) \<in> set (live r) \<and> _\<close> live_vTaskDelete by blast
qed (auto simp: vTaskDelete_def)

lemma perm_inv_keeps: "perm_inv s \<Longrightarrow> os_keeps (os s) (os s') \<Longrightarrow> display_tid s' = display_tid s \<Longrightarrow> perm_inv s'"
  unfolding perm_inv_def os_keeps_def by (metis (no_types, lifting) insertE singletonD subset_trans task_fn.distinct)

lemma perm_inv_may_run:
  assumes "handles_inv s" and "perm_inv s"
  shows "may_run displayTask s \<and> may_run buttonTask s"
proof -
  obtain i where "i \<noteq> 0" and "(i, buttonTask) \<in> set (live (os s))" using assms(2) by (auto simp: perm_inv_def)
  moreover have "(display_tid s, displayTask) \<in> set (live (os s))" and "display_tid s \<noteq> 0"
    using assms by (auto simp: handles_inv_def perm_inv_def)
  moreover have "set (suspended (os s)) \<subseteq> {0}" using assms(2) by (simp add: perm_inv_def)
  ultimately show ?thesis unfolding may_run_def list_ex_iff by fastforce
qed

lemma camera_teardown_keeps:
  assumes "handles_inv s" and "camera_init s" and "camera_teardown s = Inr s'"
  shows "os_keeps (os s) (os s') \<and> display_tid s' = display_tid s"
proof -
  obtain tc ts where hc: "frameCaptureTask_handle s = Some tc" and hs: "saveFrameToSDTask_handle s = Some ts"
    using assms by (auto simp: handles_inv_def)
  have wf: "rtos_wf (os s)" and c: "(tc, frameCaptureTask) \<in> set (live (os s))"
    and v: "(ts, saveFrameToSDTask) \<in> set (live (os s))"
    using assms hc hs by (auto simp: handles_inv_def task_ok_def)
  let ?r1 = "vTaskDelete (display_tid s) (Some tc) (os s)"
  have "ts \<noteq> tc" using live_distinct_fn [OF wf v c] by simp
  then have "(ts, saveFrameToSDTask) \<in> set (live ?r1)" using v live_vTaskDelete by blast
  then have "os_keeps (os s) (vTaskDelete (display_tid s) (Some ts) ?r1)"
    using os_keeps_trans os_keeps_delete [OF wf c] os_keeps_delete [OF vTaskDelete_wf [OF wf]] by blast
  moreover have "os s' = vTaskDelete (display_tid s) (Some ts) ?r1 \<and> display_tid s' = display_tid s"
    using assms(3) hc hs by (auto simp: camera_teardown_def delete_worker_def Let_def case_prod_unfold)
  ultimately show ?thesis by simp
qed

lemma handleButtonCamera_keeps:
  assumes "handles_inv s" and "camera_init s" and "handleButtonCamera s = Inr s'"
  shows "os_keeps (os s) (os s') \<and> display_tid s' = display_tid s"
proof -
  let ?s1 = "snd (button_receive s)"
  have "handles_inv ?s1" and "camera_init ?s1" and o: "os ?s1 = os s" "display_tid ?s1 = display_tid s"
    using assms(1,2) handles_inv_frame [of ?s1 s] by (simp_all add: button_receive_def ctl_def split: option.splits)
  then show ?thesis using assms(3) camera_teardown_keeps [of ?s1 s']
    by (auto simp: handleButtonCamera_def split: prod.splits bool.splits if_splits)
qed

lemma ctl_keeps: "ctl s' = ctl s \<Longrightarrow> os_keeps (os s) (os s') \<and> display_tid s' = display_tid s"
  by (simp add: ctl_def)

lemma camera_setup_keeps: "os_keeps (os s) (os (camera_setup p s)) \<and> display_tid (camera_setup p s) = display_tid s"
  using os_keeps_trans [OF os_keeps_create os_keeps_create]
  by (simp add: camera_setup_def Let_def case_prod_unfold)

lemma camera_feed_body_keeps:
  assumes "handles_inv s" and "display_state s = CAMERA_FEED" and "camera_feed_body p s = Inr s'"
  shows "os_keeps (os s) (os s') \<and> display_tid s' = display_tid s"
proof -
  let ?s1 = "if \<not> camera_init s then camera_setup p s else s"
  have i1: "handles_inv ?s1 \<and> camera_init ?s1"
    using camera_setup_handles_inv [OF assms(1,2)] assms(1,2) by auto
  have k1: "os_keeps (os s) (os ?s1) \<and> display_tid ?s1 = display_tid s"
    using camera_setup_keeps by simp
  obtain s2 where d: "drawCameraFeed ?s1 = Inr s2" and h: "handleButtonCamera s2 = Inr s'"
    using assms(3) by (auto simp: camera_feed_body_def Let_def split: sum.splits)
  have c2: "ctl s2 = ctl ?s1" using drawCameraFeed_ctl [OF d] by simp
  then have "handles_inv s2 \<and> camera_init s2"
    using drawCameraFeed_ctl [OF d] i1 handles_inv_frame [of s2 ?s1] by (simp add: ctl_def)
  then have "os_keeps (os s2) (os s') \<and> display_tid s' = display_tid s2"
    using handleButtonCamera_keeps h by blast
  with k1 c2 show ?thesis by (auto simp: ctl_def intro: os_keeps_trans)
qed

lemma sd_card_setup_keeps:
  "os_keeps (os s) (os (sd_card_setup ok s)) \<and> display_tid (sd_card_setup ok s) = display_tid s"
  using os_keeps_create
  by (simp add: sd_card_setup_def loadFileNames_def Let_def case_prod_unfold)

lemma handleButtonFiles_keeps:
  assumes "handles_inv s" and "display_state s = SD_CARD" and "deleteFromSDTask_handle s = Some td"
    and "handleButtonFiles s = Inr s'"
  shows "os_keeps (os s) (os s') \<and> display_tid s' = display_tid s"
proof -
  have wf: "rtos_wf (os s)" and x: "(td, deleteFromSDTask) \<in> set (live (os s))"
    using assms by (auto simp: handles_inv_def task_ok_def)
  have "os_keeps (os s) (vTaskDelete (display_tid s) (Some td) (os s))"
    using os_keeps_delete [OF wf x] by simp
  then show ?thesis
    using assms(3,4)
    by (auto simp: handleButtonFiles_def button_receive_def files_list_event_def files_viewer_event_def
        split: option.splits if_splits sum.splits)
qed

lemma sd_card_body_keeps:
  assumes "handles_inv s" and "display_state s = SD_CARD" and "sd_card_body ok s = Inr s'"
  shows "os_keeps (os s) (os s') \<and> display_tid s' = display_tid s"
proof -
  let ?s1 = "if \<not> menu_init s then sd_card_setup ok s else s"
  have i1: "handles_inv ?s1 \<and> display_state ?s1 = SD_CARD \<and> deleteFromSDTask_handle ?s1 \<noteq> None"
    using sd_card_setup_handles_inv [OF assms(1,2), of ok] assms(1,2) by (auto simp: handles_inv_def)
  have k1: "os_keeps (os s) (os ?s1) \<and> display_tid ?s1 = display_tid s"
    using sd_card_setup_keeps by simp
  obtain s2 where dr: "(if \<not> image_view ?s1 then drawFiles ?s1 else drawImageViewer ?s1) = Inr s2"
    and h: "handleButtonFiles s2 = Inr s'"
    using assms(3) by (auto simp: sd_card_body_def Let_def split: sum.splits)
  have c2: "ctl s2 = ctl ?s1 \<and> display_state s2 = display_state ?s1 \<and> menu_init s2 = menu_init ?s1"
    using dr drawFiles_ctl drawImageViewer_ctl by (cases "image_view ?s1") simp_all
  then have "handles_inv s2 \<and> display_state s2 = SD_CARD \<and> deleteFromSDTask_handle s2 \<noteq> None"
    using i1 handles_inv_frame [of s2 ?s1] by (simp add: ctl_def)
  then have "os_keeps (os s2) (os s') \<and> display_tid s' = display_tid s2"
    using handleButtonFiles_keeps h by blast
  with k1 c2 show ?thesis by (auto simp: ctl_def intro: os_keeps_trans)
qed

lemma screen_dispatch_keeps:
  assumes "handles_inv s" and "screen_dispatch p r s = Inr s'"
  shows "os_keeps (os s) (os s') \<and> display_tid s' = display_tid s"
proof (cases "display_state s")
  case MENU
  let ?m = "s\<lparr>menu_init := True\<rparr>"
  have "ctl s' = ctl ?m"
    using handleButtonMenu_ctl_case [where menu = main_menu and n = "int (length main_menu)" and s = ?m] assms(2) MENU
    by (simp add: screen_dispatch_def)
  then show ?thesis by (simp add: ctl_def)
next
  case GAMES
  let ?m = "s\<lparr>menu_init := True\<rparr>"
  have "ctl s' = ctl ?m"
    using handleButtonMenu_ctl_case [where menu = games_menu and n = "int (length games_menu)" and s = ?m] assms(2) GAMES
    by (simp add: screen_dispatch_def)
  then show ?thesis by (simp add: ctl_def)
next
  case CAMERA_FEED
  with assms camera_feed_body_keeps show ?thesis by (simp add: screen_dispatch_def)
next
  case SD_CARD
  with assms sd_card_body_keeps show ?thesis by (simp add: screen_dispatch_def)
next
  case SYSTEM_DATA
  then obtain s1 where d: "drawSystemData (s\<lparr>menu_init := True\<rparr>) = Inr s1" and s': "s' = handleButtonSimple s1"
    using assms(2) by (auto simp: screen_dispatch_def split: sum.splits)
  with drawSystemData_ctl [OF d] handleButtonSimple_ctl [of s1] show ?thesis by (simp add: ctl_def)
next
  case WIFI
  then obtain s1 ls where d: "drawWifi (s\<lparr>menu_init := True\<rparr>) = Inr (s1, ls)" and s': "s' = handleButtonSimple s1"
    using assms(2) by (auto simp: screen_dispatch_def split: sum.splits)
  with drawWifi_ctl [OF d] handleButtonSimple_ctl [of s1] show ?thesis by (simp add: ctl_def)
qed (use assms handleButtonGame_ctl [of "s\<lparr>menu_init := True\<rparr>"] in
       \<open>auto simp: screen_dispatch_def ctl_def game1_tick_eq\<close>)

lemma exec_event_keeps:
  assumes "handles_inv s" and "exec_event e s = Inr s'"
  shows "os_keeps (os s) (os s') \<and> display_tid s' = display_tid s"
proof (cases "task_of e = displayTask")
  case True
  then obtain p r now where e: "e = Display p r now" by (cases e) auto
  then obtain u s1 where d: "screen_dispatch p r (s\<lparr>now_ms := now, ui := u\<rparr>) = Inr s1" and s': "s' = fps_update s1"
    using assms(2) display_tick_Inr by fastforce
  have "handles_inv (s\<lparr>now_ms := now, ui := u\<rparr>)"
    using assms(1) handles_inv_frame [of "s\<lparr>now_ms := now, ui := u\<rparr>" s] by (simp add: ctl_def)
  then have "os_keeps (os s) (os s1) \<and> display_tid s1 = display_tid s"
    using screen_dispatch_keeps [OF _ d] by simp
  then show ?thesis using s' by (simp add: fps_update_def Let_def)
next
  case False
  then show ?thesis
    using exec_event_worker_frame [OF False, of s] assms(2) by (simp add: ctl_def)
qed

lemma setup_main_perm:
  "setup_main connected alloc ok 0 (globals_init t0 root) = Some s \<Longrightarrow> perm_inv s"
  by (drule setup_main_fields) (auto simp: boot_fields_def perm_inv_def)

lemma reachable_perm: "reach r \<Longrightarrow> (case r of Inl _ \<Rightarrow> True | Inr s \<Rightarrow> handles_inv s \<and> perm_inv s)"
  by (erule reach_cases_Inr)
     (auto intro: setup_main_handles_inv exec_event_handles_inv setup_main_perm
           perm_inv_keeps [OF _ exec_event_keeps [THEN conjunct1] exec_event_keeps [THEN conjunct2]])

lemma drawWifi_button_queue:
  "drawWifi s = Inr (s', ls) \<Longrightarrow> button_queue s' = button_queue s \<and> ui s' = ui s \<and> t s' = t s \<and>
     before_ms s' = before_ms s \<and> now_ms s' = now_ms s"
  by (auto simp: drawWifi_def split: option.splits sum.splits if_splits)

text \<open>
  The status bar of a tick: when it can be drawn, it keeps it drawable, and only \<open>ui\<close> changes.
\<close>

lemma drawStatusBar_status_ok:
  assumes "status_ok s"
  shows "\<exists>u. drawStatusBar s = Inr (s\<lparr>ui := u\<rparr>) \<and> status_ok (s\<lparr>ui := u\<rparr>)"
  using assms drawStatusBar_ok [OF assms] by (auto simp: status_ok_def)

text \<open>
  One display tick on a leaf screen (WIFI or a game), at the time the frame-rate window
  opened: it consumes the button at the front of the queue, if any, and leaves for the
  parent screen exactly when that button is Back; the window stays open and the status
  bar stays drawable.
\<close>

lemma leaf_tick:
  assumes "shape_inv s" and "display_state s \<in> {WIFI, GAME1, GAME2, GAME3}" and "status_ok s"
  shows "\<exists>s'. exec_event (Display p r (before_ms s)) s = Inr s' \<and>
           button_queue s' = (case q_items (button_queue s) of [] \<Rightarrow> button_queue s
                              | _ # rest \<Rightarrow> (button_queue s)\<lparr>q_items := rest\<rparr>) \<and>
           display_state s' = (case q_items (button_queue s) of [] \<Rightarrow> display_state s
             | b # _ \<Rightarrow> if b = BACK then (if display_state s = WIFI then MENU else GAMES) else display_state s) \<and>
           status_ok s' \<and> before_ms s' = before_ms s"
proof -
  let ?s0 = "s\<lparr>now_ms := before_ms s\<rparr>"
  have "status_ok ?s0" using assms(3) by (simp add: status_ok_def)
  then obtain u where d: "drawStatusBar ?s0 = Inr (?s0\<lparr>ui := u\<rparr>)" and ok: "status_ok (?s0\<lparr>ui := u\<rparr>)"
    using drawStatusBar_status_ok by blast
  show ?thesis
  proof (cases "display_state s = WIFI")
    case True
    have "shape_inv (?s0\<lparr>ui := u, menu_init := True\<rparr>)" using assms(1) by (simp add: shape_inv_def)
    then obtain s1 ls where w: "drawWifi (?s0\<lparr>ui := u, menu_init := True\<rparr>) = Inr (s1, ls)"
      using drawWifi_shape_ok by (metis old.prod.exhaust sum.exhaust)
    have "button_queue s1 = button_queue s \<and> display_state s1 = WIFI \<and> ui s1 = u \<and> t s1 = t s \<and>
          before_ms s1 = before_ms s \<and> now_ms s1 = before_ms s"
      using drawWifi_button_queue [OF w] drawWifi_ctl [OF w] True by simp
    then show ?thesis using d w True ok
      by (auto simp: display_tick_def display_dispatch_def handleButtonSimple_def fps_update_def Let_def
          button_receive_def xQueueReceive_def status_ok_def split: list.splits)
  next
    case False
    with assms(2) d ok show ?thesis
      by (auto simp: display_tick_def display_dispatch_def handleButtonGame_def game1_tick_def fps_update_def
          Let_def button_receive_def xQueueReceive_def status_ok_def split: list.splits)
  qed
qed

lemma reach_may_run: "reach (Inr s) \<Longrightarrow> may_run displayTask s \<and> may_run buttonTask s"
  using reachable_perm [of "Inr s"] reachable_handles_inv [of "Inr s"] perm_inv_may_run by simp

lemma reach_exec: "reach (Inr s) \<Longrightarrow> may_run (task_of e) s \<Longrightarrow> exec_event e s = Inr s' \<Longrightarrow> reach (Inr s')"
  using reach.run step.exec by metis

lemma button_back_event:
  assumes "shape_inv s" and "q_items (button_queue s) = []"
  shows "exec_event (Button 4095) s = Inr (s\<lparr>button_queue := (button_queue s)\<lparr>q_items := [BACK]\<rparr>\<rparr>)"
  using assms by (simp add: shape_inv_def qok_def buttonTask_iter_def classify_reading_def config_defs xQueueSend_def)

text \<open>The run that leaves a leaf screen from a state with \<open>n\<close> buttons queued.\<close>

lemma leaf_escape_empty:
  assumes "reach (Inr s)" and "display_state s \<in> {WIFI, GAME1, GAME2, GAME3}" and "q_items (button_queue s) = []"
    and "status_ok s"
  shows "\<exists>s'. run_events [Button 4095, Display False False (before_ms s)] s = Some (Inr s') \<and>
              display_state s' = (if display_state s = WIFI then MENU else GAMES)"
proof -
  let ?s1 = "s\<lparr>button_queue := (button_queue s)\<lparr>q_items := [BACK]\<rparr>\<rparr>"
  have sh: "shape_inv s" using reachable_shape_inv [OF assms(1)] by simp
  have b: "exec_event (Button 4095) s = Inr ?s1" using button_back_event [OF sh assms(3)] .
  have r1: "reach (Inr ?s1)" using reach_exec [OF assms(1) _ b] reach_may_run [OF assms(1)] by simp
  have "shape_inv ?s1" using reachable_shape_inv [OF r1] by simp
  moreover have "status_ok ?s1" using assms(4) by (simp add: status_ok_def)
  ultimately obtain s2 where "exec_event (Display False False (before_ms s)) ?s1 = Inr s2"
    and "display_state s2 = (if display_state s = WIFI then MENU else GAMES)"
    using leaf_tick [of ?s1 False False] assms(2) by auto
  with b reach_may_run [OF assms(1)] reach_may_run [OF r1] show ?thesis by simp
qed

lemma leaf_escape:
  assumes "reach (Inr s)" and "display_state s \<in> {WIFI, GAME1, GAME2, GAME3}"
    and "length (q_items (button_queue s)) \<le> n" and "status_ok s"
  shows "\<exists>es s'. length es \<le> n + 2 \<and> run_events es s = Some (Inr s') \<and>
                 display_state s' = (if display_state s = WIFI then MENU else GAMES)"
  using assms
proof (induction n arbitrary: s)
  case 0
  then obtain s' where "run_events [Button 4095, Display False False (before_ms s)] s = Some (Inr s')"
    and "display_state s' = (if display_state s = WIFI then MENU else GAMES)"
    using leaf_escape_empty [of s] by auto
  then show ?case by (intro exI [of _ "[Button 4095, Display False False (before_ms s)]"]) auto
next
  case (Suc n)
  show ?case
  proof (cases "q_items (button_queue s)")
    case Nil
    then obtain s' where "run_events [Button 4095, Display False False (before_ms s)] s = Some (Inr s')"
      and "display_state s' = (if display_state s = WIFI then MENU else GAMES)"
      using leaf_escape_empty [OF Suc.prems(1,2) _ Suc.prems(4)] by auto
    then show ?thesis by (intro exI [of _ "[Button 4095, Display False False (before_ms s)]"]) auto
  next
    case (Cons b rest)
    let ?e = "Display False False (before_ms s)"
    have "shape_inv s" using reachable_shape_inv [OF Suc.prems(1)] by simp
    then obtain s1 where e: "exec_event ?e s = Inr s1"
      and q: "button_queue s1 = (button_queue s)\<lparr>q_items := rest\<rparr>"
      and d: "display_state s1 = (if b = BACK then (if display_state s = WIFI then MENU else GAMES) else display_state s)"
      and ok: "status_ok s1"
      using leaf_tick [of s False False] Suc.prems(2,4) Cons by auto
    have m: "may_run (task_of ?e) s" using reach_may_run [OF Suc.prems(1)] by simp
    show ?thesis
    proof (cases "b = BACK")
      case True
      then show ?thesis using e d m by (intro exI [of _ "[?e]"]) auto
    next
      case False
      have r1: "reach (Inr s1)" using reach_exec [OF Suc.prems(1) m e] .
      obtain es s' where "length es \<le> n + 2" and "run_events es s1 = Some (Inr s')"
        and "display_state s' = (if display_state s1 = WIFI then MENU else GAMES)"
        using Suc.IH [OF r1 _ _ ok] d False q Suc.prems(2,3) Cons by auto
      then show ?thesis using e m d False
        by (intro exI [of _ "?e # es"]) auto
    qed
  qed
qed

lemma wifi_trace_run:
  "\<exists>s. run_events wifi_trace boot_example = Some (Inr s) \<and> display_state s = WIFI \<and> status_ok s"
  by (simp add: status_eval tm_example_def status_ok_def c_float_ok_nonneg tm_example_def wifi_trace_def boot_example_def setup_main_def initQueues_def initHeapQueue_def Let_def
      case_prod_unfold model_defs globals_init_def may_run_def xTaskCreate_def vTaskSuspend_def target_def
      config_defs xQueueCreate_def xQueueSend_def xQueueReceive_def menu_down_def c_index_def main_menu_def)

section \<open>Saving a frame and listing the card\<close>

lemma frame_filename_shown: "frame_filename c = ''/'' @ tl (frame_filename c) \<and> shown_name (frame_filename c)"
proof -
  have "last (frame_filename c) = CHR ''w''" by (simp add: frame_filename_def)
  then show ?thesis by (auto simp: frame_filename_def shown_name_def)
qed

section \<open>The frame-rate window\<close>

lemma square_eq_1000: "0 \<le> (e::int) \<Longrightarrow> e * e = 1000 * 1000 \<longleftrightarrow> e = 1000"
proof
  assume "0 \<le> e" "e * e = 1000 * 1000"
  show "e = 1000"
  proof (rule ccontr)
    assume "e \<noteq> 1000"
    then consider "e < 1000" | "1000 < e" by linarith
    then show False
    proof cases
      case 1
      then have "e * e < 1000 * 1000" using \<open>0 \<le> e\<close> by (intro mult_strict_mono) auto
      with \<open>e * e = 1000 * 1000\<close> show False by simp
    next
      case 2
      then have "1000 * 1000 < e * e" by (intro mult_strict_mono) auto
      with \<open>e * e = 1000 * 1000\<close> show False by simp
    qed
  qed
qed simp

section \<open>Properties of the whole system\<close>

text \<open>
  C29: what \<open>setup()\<close> leaves when every queue could be allocated: the boot screen, the
  five permanent tasks each created once (display, buttons, telemetry, WiFi, clock), no
  camera or SD worker, a full heap window, and the calling Arduino loop task suspended.
  The two \<open>vTaskSuspend\<close> calls receive \<open>NULL\<close> handles, so they suspend setup's own
  task (twice) instead of any worker, although the spec has the workers created
  suspended.
\<close>

theorem setup_boot_state:
  assumes "setup_main connected alloc ok 0 (globals_init t0 root) = Some s"
  shows "display_state s = BOOT \<and> length (heap_usage s) = NUM_SYS_DATA_POINTS \<and>
         instances displayTask (os s) = 1 \<and> instances buttonTask (os s) = 1 \<and>
         instances systemDataTask (os s) = 1 \<and> instances wifiDataTask (os s) = 1 \<and>
         instances ntpTimeTask (os s) = 1 \<and> instances frameCaptureTask (os s) = 0 \<and>
         instances saveFrameToSDTask (os s) = 0 \<and> instances deleteFromSDTask (os s) = 0 \<and>
         suspended (os s) = [0] \<and> (0, loopTask) \<in> set (live (os s)) \<and> may_run displayTask s"
  using setup_main_fields [OF assms]
  by (simp add: boot_fields_def instances_def may_run_def)

theorem setup_boot_state_witness:
  "display_state boot_example = BOOT \<and> suspended (os boot_example) = [0] \<and>
   instances deleteFromSDTask (os boot_example) = 0 \<and> instances displayTask (os boot_example) = 1"
  using setup_boot_state [OF boot_example_setup] by simp

text \<open>
  C30: the navigation invariant holds in every reachable state, whatever the interleaving
  of the tasks and the readings: on the main menu and the games menu the selection lies
  within that menu, on every other screen it is 0, and the previous screen is the games
  menu inside a game and the main menu everywhere else.
\<close>

theorem reach_nav_inv: "reach (Inr s) \<Longrightarrow> nav_inv s"
  using reachable_nav_inv by fastforce

theorem reach_nav_inv_witness:
  "nav_inv boot_example \<and> display_state boot_example = BOOT"
  using reach_nav_inv [OF boot_example_reach] boot_example_fields by simp

text \<open>
  C31: no run of the program reads a menu out of range: the error of C5 is unreachable,
  because every path into a list screen resets the selection and Down and Up keep it
  within the list.
\<close>

theorem reach_no_menu_error: "reach r \<Longrightarrow> r \<noteq> Inl (OutOfRange ''menu'' i)"
proof (induction rule: reach.induct)
  case (boot alloc root_ok t0 root s)
  then show ?case by simp
next
  case (run s r)
  have "nav_inv s" using reachable_nav_inv [OF run.hyps(1)] by simp
  with run.hyps(2) show ?case by (auto elim!: step.cases dest: exec_event_no_menu_error)
qed

theorem reach_no_menu_error_witness:
  "reach (display_tick True True 1000 boot_example) \<and>
   display_tick True True 1000 boot_example \<noteq> Inl (OutOfRange ''menu'' 5)"
  using reach_no_menu_error [OF boot_example_tick_reach, of 5] boot_example_tick_reach by simp

text \<open>
  C32: in every reachable state the worker handles agree with the task table: a
  non-\<open>NULL\<close> handle names a live task running that worker, the display task is alive,
  the camera workers exist exactly while the camera is initialised (only on the camera
  screen), and the delete worker's handle is set only on the SD screen, always once its
  setup block has run.
\<close>

theorem reach_handles_inv: "reach (Inr s) \<Longrightarrow> handles_inv s"
  using reachable_handles_inv by fastforce

theorem reach_handles_inv_witness:
  "handles_inv (the (setup_main (\<lambda>_. True) [True, True, True, True, True, True] True 0 (globals_init tm_example [])))"
  using reach_handles_inv [OF boot_example_reach] by (simp add: boot_example_def)

text \<open>
  C33: no run deletes the display task through a \<open>NULL\<close> handle: whenever the camera or
  SD screen's Back calls \<open>vTaskDelete\<close>, the handle it passes is set, because the
  screen's setup block has run earlier in the same tick.
\<close>

theorem reach_no_deleted_caller: "reach r \<Longrightarrow> r \<noteq> Inl DeletedCaller"
proof (induction rule: reach.induct)
  case (boot alloc root_ok t0 root s)
  then show ?case by simp
next
  case (run s r)
  have "handles_inv s" using reachable_handles_inv [OF run.hyps(1)] by simp
  with run.hyps(2) show ?case by (auto elim!: step.cases dest: exec_event_not_deleted)
qed

theorem reach_no_deleted_caller_witness:
  "reach (display_tick True True 1000 boot_example) \<and> display_tick True True 1000 boot_example \<noteq> Inl DeletedCaller"
  using reach_no_deleted_caller [OF boot_example_tick_reach] boot_example_tick_reach by simp

text \<open>
  C34: the display task refines the spec's navigation contract.  On the menu, the games
  menu, the telemetry and WiFi screens and in the games, one tick of the display task
  moves (active screen, previous screen, selection) exactly as the abstract machine
  \<open>nav_spec\<close> does for the event at the front of the button queue (none when it is
  empty): the code's "increment, then reset past the end" and "decrement, then wrap
  below 0" coincide with the spec's arithmetic modulo the item count on every reachable
  selection.
\<close>

theorem display_tick_refines_nav_spec:
  assumes "nav_inv s" and "display_state s \<notin> {BOOT, CAMERA_FEED, SD_CARD}"
    and "display_tick p r now s = Inr s'"
  shows "screen s' = nav_spec (case q_items (button_queue s) of [] \<Rightarrow> NONE | b # _ \<Rightarrow> b) (screen s)"
proof -
  obtain u s1 where d: "screen_dispatch p r (s\<lparr>now_ms := now, ui := u\<rparr>) = Inr s1" and s': "s' = fps_update s1"
    using assms(3) display_tick_Inr by blast
  have "nav_inv (s\<lparr>now_ms := now, ui := u\<rparr>)" using assms(1) nav_inv_screen [of "s\<lparr>now_ms := now, ui := u\<rparr>" s]
    by (simp add: screen_def)
  then have "screen s1 = nav_spec (case q_items (button_queue s) of [] \<Rightarrow> NONE | b # _ \<Rightarrow> b) (screen s)"
    using screen_dispatch_refines [OF _ _ d] assms(2) by (simp add: screen_def)
  then show ?thesis using s' by simp
qed

theorem display_tick_refines_nav_spec_witness:
  "\<exists>s'. display_tick True True 0 (menu_screen_example\<lparr>button_queue := \<lparr>q_len = 3, q_items = [UP]\<rparr>\<rparr>) = Inr s' \<and>
        screen s' = (MENU, MENU, 4)"
proof -
  let ?s = "menu_screen_example\<lparr>button_queue := \<lparr>q_len = 3, q_items = [UP]\<rparr>\<rparr>"
  have n: "nav_inv ?s" and ds: "display_state ?s = MENU" and sc: "screen ?s = (MENU, MENU, 0)"
    by (simp_all add: nav_inv_def screen_ok_def screen_def main_menu_def)
  have ok: "status_ok (?s\<lparr>now_ms := 0\<rparr>)"
    by (simp add: status_ok_def menu_screen_example_def globals_init_def c_float_ok_nonneg tm_example_def)
  obtain s' where t: "display_tick True True 0 ?s = Inr s'"
    using ds drawStatusBar_ok [OF ok]
    by (simp add: display_tick_def display_dispatch_status status_step_def screen_dispatch_def
        handleButtonMenu_def button_receive_def xQueueReceive_def)
  have "screen s' = nav_spec UP (MENU, MENU, 0)"
    using display_tick_refines_nav_spec [OF n _ t] ds sc by simp
  also have "\<dots> = (MENU, MENU, 4)" by (simp add: nav_spec_def items_of_def main_menu_def)
  finally show ?thesis using t by blast
qed

text \<open>
  C35: the shapes of the C++ types hold in every reachable state: no queue ever holds
  more items than it was created for, every WiFi snapshot in its queue carries
  \<open>MAX_WIFI\<close> nearby strings, and the heap window holds 60 or 61 samples.
\<close>

theorem reach_shape_inv: "reach (Inr s) \<Longrightarrow> shape_inv s"
  using reachable_shape_inv by fastforce

theorem reach_shape_inv_witness: "shape_inv boot_example"
  using reach_shape_inv [OF boot_example_reach] .




text \<open>
  C38: in every reachable state the Pong statics keep the paddle on the left edge between
  the status bar and the bottom of the screen, and the whole ball on the screen below the
  status bar: every frame of \<open>updateGame1\<close> re-establishes the bounds, and no other task
  or screen writes them.
\<close>

theorem reach_pong_ok: "reach (Inr s) \<Longrightarrow> pong_ok (game1 s)"
  using reachable_pong by fastforce

theorem reach_pong_ok_witness: "pong_ok (game1 boot_example)"
  using reach_pong_ok [OF boot_example_reach] .



text \<open>
  C23: the leaf screens cannot trap the user.  From every reachable state on the WiFi
  screen or one of the three games in which the status bar can be drawn (its frame rates
  convert to \<open>int\<close> and the clock prints in two digits), some run of at most five task
  steps ends on the parent screen (the main menu from WiFi, the games menu from a game):
  the button queue holds at most three presses, each display tick consumes one and leaves
  on Back, and otherwise a Back press (ADC reading 4095) and one more tick leave.
\<close>

theorem leaf_screen_returns:
  assumes "reach (Inr s)" and "display_state s \<in> {WIFI, GAME1, GAME2, GAME3}" and "status_ok s"
  shows "\<exists>es s'. length es \<le> 5 \<and> run_events es s = Some (Inr s') \<and>
                 display_state s' = (if display_state s = WIFI then MENU else GAMES)"
proof -
  have "length (q_items (button_queue s)) \<le> 3"
    using reachable_shape_inv [OF assms(1)] by (simp add: shape_inv_def qok_def config_defs)
  then show ?thesis using leaf_escape [OF assms(1,2) _ assms(3)] by fastforce
qed

theorem leaf_screen_returns_witness:
  "\<exists>s. reach (Inr s) \<and> display_state s = WIFI \<and> status_ok s \<and>
       (\<exists>es s'. length es \<le> 5 \<and> run_events es s = Some (Inr s') \<and> display_state s' = MENU)"
proof -
  obtain s where r: "run_events wifi_trace boot_example = Some (Inr s)" and w: "display_state s = WIFI"
    and ok: "status_ok s"
    using wifi_trace_run by blast
  have "reach (Inr s)" using run_events_reach [OF r boot_example_reach] .
  with w ok show ?thesis using leaf_screen_returns [of s] by auto
qed


text \<open>
  C26: a saved frame shows up in the file list.  When the save worker takes a frame from
  its queue and the write succeeds, the next \<open>loadFileNames\<close> lists the frame's file
  name \<open>/YYYY-MM-DD_HH-MM-SS.raw\<close> built from the clock at the save.
\<close>

theorem saved_frame_listed:
  assumes "saveFrame_iter True s = Inr s'" and "q_items (frame_save_queue s) \<noteq> []"
  shows "frame_filename (t s) \<in> set (filenames (loadFileNames True s'))"
proof -
  let ?nm = "frame_filename (t s)"
  have "sd_root s' = sd_create (tl ?nm) (sd_root s)"
    using assms by (auto simp: saveFrame_iter_def xQueueReceive_def Let_def split: list.splits if_splits)
  then have "tl ?nm \<in> set (sd_root s')" by (simp add: sd_create_def)
  then have "''/'' @ tl ?nm \<in> set (map ((@) ''/'') (sd_root s'))" by simp
  then show ?thesis using frame_filename_shown [of "t s"] by (simp add: loadFileNames_fields)
qed

theorem saved_frame_listed_witness:
  "\<exists>s'. saveFrame_iter True save_example = Inr s' \<and>
        ''/2025-11-09_12-30-05.raw'' \<in> set (filenames (loadFileNames True s'))"
proof -
  obtain s' where e: "saveFrame_iter True save_example = Inr s'"
    by (simp add: save_example_def saveFrame_iter_def xQueueReceive_def frame_filename_def fmt_0d_def zpad_def
        tm_example_def globals_init_def stale_def Let_def MAX_FILENAME_LENGTH_def)
  moreover have "q_items (frame_save_queue save_example) \<noteq> []" by (simp add: save_example_def)
  moreover have "frame_filename (t save_example) = ''/2025-11-09_12-30-05.raw''"
    by code_simp
  ultimately show ?thesis using saved_frame_listed [of save_example s'] by auto
qed



text \<open>
  C25: the frame rate is computed upside down.  When a window of \<open>e \<ge> 1000\<close> ms closes after
  \<open>n\<close> frames, \<open>fps = frames / 1000.f * (now - before)\<close> stores \<open>n * e / 1000\<close>, while the
  rate is \<open>n * 1000 / e\<close> frames per second; the two agree exactly when the window is
  1000 ms long, so every late tick inflates the shown rate instead of lowering it.
\<close>

theorem fps_formula_inverted:
  assumes "1000 \<le> now_ms s - before_ms s" and "0 \<le> frames s"
  shows "fps (ui (fps_update s)) = ((frames s + 1) * uint (now_ms s - before_ms s), 1000) \<and>
         (fst (fps (ui (fps_update s))) * uint (now_ms s - before_ms s) =
            snd (fps (ui (fps_update s))) * ((frames s + 1) * 1000) \<longleftrightarrow>
          uint (now_ms s - before_ms s) = 1000)"
proof -
  let ?e = "uint (now_ms s - before_ms s)" and ?n = "frames s + 1"
  have f: "fps (ui (fps_update s)) = (?n * ?e, 1000)" using assms(1) by (simp add: fps_update_def Let_def)
  have "?n * ?e * ?e = 1000 * (?n * 1000) \<longleftrightarrow> ?n * (?e * ?e) = ?n * (1000 * 1000)"
    by (simp only: ac_simps)
  also have "\<dots> \<longleftrightarrow> ?e * ?e = 1000 * 1000" using assms(2) by (simp only: mult_cancel_left) simp
  also have "\<dots> \<longleftrightarrow> ?e = 1000" using square_eq_1000 [of ?e] by simp
  finally show ?thesis using f by simp
qed

theorem fps_formula_inverted_witness:
  "1000 \<le> now_ms fps_example - before_ms fps_example \<and> 0 \<le> frames fps_example \<and>
   fps (ui (fps_update fps_example)) = (100000, 1000) \<and>
   c_float_to_int ''fps'' 100000 1000 = Inr 100 \<and>
   \<not> (100000 * 2000 = 1000 * ((50::int) * 1000))"
  using fps_formula_inverted [of fps_example] by (simp add: fps_example_def globals_init_def c_float_to_int_nonneg)


text \<open>
  C2: \<open>setup()\<close> returns, and the tasks start, exactly when all six queues could be
  allocated and WiFi reports a connection at some poll: otherwise it hangs in the
  \<open>while(1)\<close> of \<open>initQueues\<close> or in \<open>initWiFi\<close>'s wait loop, which has no timeout.  When
  it returns, the wait took as many one-second delays as polls before the first
  connection.
\<close>

theorem setup_returns:
  "(\<exists>s'. setup_main connected alloc ok me s = Some s') \<longleftrightarrow>
   length alloc = 6 \<and> list_all id alloc \<and> (\<exists>j. connected j)"
  using initWiFi_returns [of connected 0]
  by (auto simp: setup_main_def initQueues_def Let_def case_prod_unfold split: option.splits)

theorem setup_returns_witness:
  "(\<exists>s'. setup_main (\<lambda>k. 3 \<le> k) [True, True, True, True, True, True] True 0 (globals_init tm_example []) = Some s') \<and>
   \<not> (\<exists>s'. setup_main (\<lambda>k. False) [True, True, True, True, True, True] True 0 (globals_init tm_example []) = Some s') \<and>
   initWiFi (\<lambda>k. 3 \<le> k) 0 = Some 3"
  using setup_returns [of "\<lambda>k. 3 \<le> k" "[True, True, True, True, True, True]" True 0 "globals_init tm_example []"]
    setup_returns [of "\<lambda>k. False" "[True, True, True, True, True, True]" True 0 "globals_init tm_example []"]
    initWiFi_first [of "\<lambda>k. 3 \<le> k" 3 0]
  by auto

end
