(* ===== verification/Image.thy ===== *)
theory Image
  imports Prelude "HOL-Library.Word"
begin

text \<open>
  The two image helpers of src/helpers.cpp that rearrange a camera frame's bytes:
  \<open>transposeImage\<close>, which copies through a scratch buffer, and \<open>transposeImageInPlace\<close>,
  which swaps pixel pairs inside the frame.  Neither is called by the firmware (the call in
  \<open>frameCaptureTask\<close> is commented out).  A frame is the part of \<open>camera_fb_t\<close> they use:
  width, height and the byte buffer, whose length is \<open>fb->len\<close>; pixels are RGB565, two bytes
  each.  Every read and write of the buffer is checked, an out-of-range access being an
  error value.  The lemmas show that the in-place routine is the transpose of a square
  frame, that transposing twice gives the frame back, and that the copying routine is not
  a transpose.
\<close>

record frame =
  fb_width :: nat
  fb_height :: nat
  fb_buf :: "8 word list"

section \<open>The copying routine (transposeImage)\<close>

text \<open>
  The loop over the bytes \<open>i\<close> of the frame: the source index is
  \<open>start_index + counter * size + i % bytes_per_pixel\<close>; after the copy, \<open>counter\<close> is
  incremented at every non-zero multiple of \<open>bytes_per_pixel\<close>, and wraps to 0 at \<open>size\<close>,
  moving \<open>start_index\<close> on by one (\<open>sz\<close> is the code's \<open>size\<close>, the width).
\<close>

fun transpose_copy :: "8 word list \<Rightarrow> int \<Rightarrow> int \<Rightarrow> nat list \<Rightarrow> int \<Rightarrow> int \<Rightarrow> 8 word list result" where
  "transpose_copy buf sz bpp [] counter start_index = Inr []"
| "transpose_copy buf sz bpp (i # is) counter start_index =
     (case c_index ''fb->buf'' buf (start_index + counter * sz + int i smod bpp) of
        Inl e \<Rightarrow> Inl e
      | Inr v \<Rightarrow>
          (let c1 = (if i \<noteq> 0 \<and> int i smod bpp = 0 then counter + 1 else counter);
               (c2, s2) = (if c1 = sz then (0, start_index + 1) else (c1, start_index))
           in case transpose_copy buf sz bpp is c2 s2 of
                Inl e \<Rightarrow> Inl e
              | Inr vs \<Rightarrow> Inr (v # vs)))"

text \<open>The scratch buffer \<open>img_buf\<close> receives every byte, then \<open>memcpy\<close> copies it over the frame.\<close>

definition transposeImage :: "frame \<Rightarrow> int \<Rightarrow> frame result" where
  "transposeImage fb bytes_per_pixel =
     (case transpose_copy (fb_buf fb) (int (fb_width fb)) bytes_per_pixel [0..<length (fb_buf fb)] 0 0 of
        Inl e \<Rightarrow> Inl e
      | Inr img_buf \<Rightarrow> Inr (fb\<lparr>fb_buf := img_buf\<rparr>))"

section \<open>The in-place routine (transposeImageInPlace)\<close>

text \<open>
  One swap of the two bytes at \<open>idx1\<close> with the two at \<open>idx2\<close>, statement by statement:
  \<open>tmp0 = buf[idx1]; tmp1 = buf[idx1 + 1]; buf[idx1] = buf[idx2]; buf[idx1 + 1] = buf[idx2 + 1];
  buf[idx2] = tmp0; buf[idx2 + 1] = tmp1\<close>.  Each write goes to an index read before it.
\<close>

definition swap_px :: "8 word list \<Rightarrow> nat \<Rightarrow> nat \<Rightarrow> 8 word list result" where
  "swap_px buf idx1 idx2 =
     (case c_index ''buf'' buf (int idx1) of Inl e \<Rightarrow> Inl e | Inr tmp0 \<Rightarrow>
      case c_index ''buf'' buf (int idx1 + 1) of Inl e \<Rightarrow> Inl e | Inr tmp1 \<Rightarrow>
      case c_index ''buf'' buf (int idx2) of Inl e \<Rightarrow> Inl e | Inr v0 \<Rightarrow>
      (let b1 = buf[idx1 := v0]
       in case c_index ''buf'' b1 (int idx2 + 1) of Inl e \<Rightarrow> Inl e | Inr v1 \<Rightarrow>
          Inr (b1[idx1 + 1 := v1, idx2 := tmp0, idx2 + 1 := tmp1])))"

text \<open>
  A frame that is not square is left alone (after a message); otherwise row \<open>y\<close> swaps each
  pixel right of the diagonal, \<open>x = y + 1 .. width - 1\<close>, with its mirror image.
\<close>

definition transposeImageInPlace :: "frame \<Rightarrow> frame result" where
  "transposeImageInPlace fb =
     (let bpp = 2; width = fb_width fb; height = fb_height fb
      in if width \<noteq> height then Inr fb
         else case fold_result (\<lambda>y b. fold_result (\<lambda>x b. swap_px b ((y * width + x) * bpp) ((x * width + y) * bpp))
                                        [y + 1..<width] b)
                     [0..<height] (fb_buf fb) of
                Inl e \<Rightarrow> Inl e
              | Inr b \<Rightarrow> Inr (fb\<lparr>fb_buf := b\<rparr>))"

section \<open>The transpose of a square RGB565 frame\<close>

text \<open>
  Byte \<open>k\<close> belongs to pixel \<open>k div 2\<close>, at row \<open>k div 2 div n\<close> and column \<open>k div 2 mod n\<close>;
  \<open>pidx n r c b\<close> is byte \<open>b\<close> of the pixel at row \<open>r\<close>, column \<open>c\<close>.  The transpose takes each
  byte from the same byte of the pixel at the mirrored position.
\<close>

definition pidx :: "nat \<Rightarrow> nat \<Rightarrow> nat \<Rightarrow> nat \<Rightarrow> nat" where
  "pidx n r c b = (r * n + c) * 2 + b"

definition tr_idx :: "nat \<Rightarrow> nat \<Rightarrow> nat" where
  "tr_idx n k = ((k div 2) mod n * n + (k div 2) div n) * 2 + k mod 2"

definition transpose_ref :: "nat \<Rightarrow> 'a list \<Rightarrow> 'a list" where
  "transpose_ref n buf = map (\<lambda>k. buf ! tr_idx n k) [0..<length buf]"

text \<open>
  The buffer after the swaps of a set \<open>P\<close> of pairs \<open>(y, x)\<close>, \<open>y < x\<close>: the bytes of the two
  pixels of each pair are exchanged, all other bytes are where they were.
\<close>

definition moved :: "nat \<Rightarrow> (nat \<times> nat) set \<Rightarrow> nat \<Rightarrow> bool" where
  "moved n P k \<longleftrightarrow>
     (let r = k div 2 div n; c = k div 2 mod n in r \<noteq> c \<and> (min r c, max r c) \<in> P)"

definition partial_tr :: "nat \<Rightarrow> (nat \<times> nat) set \<Rightarrow> 'a list \<Rightarrow> 'a list" where
  "partial_tr n P buf = map (\<lambda>k. buf ! (if moved n P k then tr_idx n k else k)) [0..<length buf]"

section \<open>Pixel indices\<close>

lemma px_div_mod:
  assumes "c < n" and "b < (2::nat)"
  shows "pidx n r c b div 2 div n = r \<and> pidx n r c b div 2 mod n = c \<and> pidx n r c b mod 2 = b"
proof -
  have "((r * n + c) * 2 + b) div 2 = r * n + c" using assms(2) by simp
  moreover have "((r * n + c) * 2 + b) mod 2 = b" using assms(2) by (simp add: mod_add_left_eq [symmetric])
  ultimately show ?thesis using assms by (simp add: pidx_def)
qed

lemma pidx_split:
  assumes "(k::nat) < 2 * n * n"
  obtains r c b where "r < n" and "c < n" and "b < 2" and "k = pidx n r c b"
proof
  have "k div 2 < n * n" using assms by simp
  then show "k div 2 div n < n" by (simp add: less_mult_imp_div_less)
  show "k div 2 mod n < n" using \<open>k div 2 < n * n\<close> by (cases "n = 0") simp_all
  show "k mod 2 < 2" by simp
  show "k = pidx n (k div 2 div n) (k div 2 mod n) (k mod 2)" by (simp add: pidx_def)
qed

lemma pidx_bound: "r < n \<Longrightarrow> c < n \<Longrightarrow> b < 2 \<Longrightarrow> pidx n r c b < 2 * n * n"
proof -
  assume "r < n" "c < n" "b < 2"
  have "Suc r * n \<le> n * n" using \<open>r < n\<close> by (simp only: mult_le_mono1 Suc_leI)
  then have "r * n + c < n * n" using \<open>c < n\<close> by simp
  with \<open>b < 2\<close> show ?thesis by (simp add: pidx_def)
qed

lemma pidx_inj [simp]:
  "c < n \<Longrightarrow> c' < n \<Longrightarrow> b < 2 \<Longrightarrow> b' < 2 \<Longrightarrow>
   pidx n r c b = pidx n r' c' b' \<longleftrightarrow> r = r' \<and> c = c' \<and> b = b'"
  using px_div_mod [of c n b r] px_div_mod [of c' n b' r'] by metis

lemma tr_idx_pidx [simp]: "c < n \<Longrightarrow> b < 2 \<Longrightarrow> tr_idx n (pidx n r c b) = pidx n c r b"
  using px_div_mod by (simp add: tr_idx_def pidx_def)

lemma moved_pidx [simp]:
  "c < n \<Longrightarrow> b < 2 \<Longrightarrow> moved n P (pidx n r c b) \<longleftrightarrow> r \<noteq> c \<and> (min r c, max r c) \<in> P"
  using px_div_mod by (simp add: moved_def Let_def)

lemma pidx_Suc [simp]: "Suc (pidx n r c 0) = pidx n r c 1"
  by (simp add: pidx_def)

lemma partial_tr_nth: "k < length buf \<Longrightarrow> partial_tr n P buf ! k = buf ! (if moved n P k then tr_idx n k else k)"
  by (simp add: partial_tr_def)

lemma swap_px_Inr:
  assumes "i1 + 1 < length B" and "i2 + 1 < length B" and "i2 + 1 \<noteq> i1"
  shows "swap_px B i1 i2 = Inr (B[i1 := B ! i2, i1 + 1 := B ! (i2 + 1), i2 := B ! i1, i2 + 1 := B ! (i1 + 1)])"
proof -
  have e: "nat (int i + 1) = i + 1" for i :: nat by simp
  show ?thesis using assms by (simp add: swap_px_def c_index_def e)
qed

lemma swap_px_step:
  assumes len: "length buf = 2 * n * n" and yx: "y < x" "x < n" and notin: "(y, x) \<notin> P"
  shows "swap_px (partial_tr n P buf) (pidx n y x 0) (pidx n x y 0) = Inr (partial_tr n (insert (y, x) P) buf)"
proof -
  define B where "B = partial_tr n P buf"
  have y: "y < n" using yx by simp
  have lenB: "length B = 2 * n * n" using len by (simp add: B_def partial_tr_def)
  have bnd: "pidx n y x b < 2 * n * n" "pidx n x y b < 2 * n * n" if "b < 2" for b
    using pidx_bound that yx y by auto
  have vals: "B ! pidx n y x b = buf ! pidx n y x b" "B ! pidx n x y b = buf ! pidx n x y b" if "b < 2" for b
    using that bnd [OF that] len yx notin by (auto simp: B_def partial_tr_nth)
  have "swap_px B (pidx n y x 0) (pidx n x y 0) =
        Inr (B[pidx n y x 0 := B ! pidx n x y 0, pidx n y x 1 := B ! pidx n x y 1,
               pidx n x y 0 := B ! pidx n y x 0, pidx n x y 1 := B ! pidx n y x 1])"
    using swap_px_Inr [of "pidx n y x 0" B "pidx n x y 0"] bnd [of 0] bnd [of 1] lenB yx y
    by simp
  also have "\<dots> = Inr (partial_tr n (insert (y, x) P) buf)"
  proof (rule arg_cong [where f = Inr], rule nth_equalityI)
    show "length (B[pidx n y x 0 := B ! pidx n x y 0, pidx n y x 1 := B ! pidx n x y 1,
               pidx n x y 0 := B ! pidx n y x 0, pidx n x y 1 := B ! pidx n y x 1]) =
          length (partial_tr n (insert (y, x) P) buf)"
      using lenB len by (simp add: partial_tr_def)
  next
    fix k assume "k < length (B[pidx n y x 0 := B ! pidx n x y 0, pidx n y x 1 := B ! pidx n x y 1,
               pidx n x y 0 := B ! pidx n y x 0, pidx n x y 1 := B ! pidx n y x 1])"
    then have k: "k < 2 * n * n" using lenB by simp
    then obtain r c b where rc: "r < n" "c < n" "b < 2" and kk: "k = pidx n r c b" by (rule pidx_split)
    let ?U = "B[pidx n y x 0 := B ! pidx n x y 0, pidx n y x 1 := B ! pidx n x y 1,
               pidx n x y 0 := B ! pidx n y x 0, pidx n x y 1 := B ! pidx n y x 1]"
    have bb: "b = 0 \<or> b = 1" using rc(3) by arith
    consider (a) "r = y" "c = x" | (b) "r = x" "c = y" | (c) "\<not> (r = y \<and> c = x)" "\<not> (r = x \<and> c = y)"
      by blast
    then show "?U ! k = partial_tr n (insert (y, x) P) buf ! k"
    proof cases
      case a
      then show ?thesis using bb rc yx y vals [of 0] vals [of 1] k len lenB
        by (auto simp: kk partial_tr_nth)
    next
      case b
      then show ?thesis using bb rc yx y vals [of 0] vals [of 1] k len lenB
        by (auto simp: kk partial_tr_nth)
    next
      case c
      then have "?U ! k = B ! k" using bb rc yx y by (auto simp: kk)
      moreover have "moved n (insert (y, x) P) k = moved n P k"
        using c rc yx by (auto simp: kk min_def max_def)
      ultimately show ?thesis using k len lenB by (simp add: B_def partial_tr_nth)
    qed
  qed
  finally show ?thesis by (simp add: B_def)
qed

section \<open>The loops of the in-place routine\<close>

lemma inner_swaps:
  assumes "length buf = 2 * n * n" and "y < n" and "distinct xs"
    and "\<forall>x \<in> set xs. y < x \<and> x < n \<and> (y, x) \<notin> P"
  shows "fold_result (\<lambda>x b. swap_px b ((y * n + x) * 2) ((x * n + y) * 2)) xs (partial_tr n P buf) =
         Inr (partial_tr n (P \<union> Pair y ` set xs) buf)"
  using assms(3,4)
proof (induction xs arbitrary: P)
  case Nil
  then show ?case by simp
next
  case (Cons x xs)
  have "swap_px (partial_tr n P buf) ((y * n + x) * 2) ((x * n + y) * 2) = Inr (partial_tr n (insert (y, x) P) buf)"
    using swap_px_step [OF assms(1), of y x P] Cons.prems by (simp add: pidx_def)
  moreover have "fold_result (\<lambda>x b. swap_px b ((y * n + x) * 2) ((x * n + y) * 2)) xs
                   (partial_tr n (insert (y, x) P) buf) = Inr (partial_tr n (insert (y, x) P \<union> Pair y ` set xs) buf)"
    using Cons by (intro Cons.IH) auto
  ultimately show ?case by (simp add: insert_commute)
qed

lemma row_swaps:
  assumes "length buf = 2 * n * n" and "distinct ys" and "\<forall>y \<in> set ys. y < n \<and> (\<forall>x. (y, x) \<notin> P)"
  shows "fold_result (\<lambda>y b. fold_result (\<lambda>x b. swap_px b ((y * n + x) * 2) ((x * n + y) * 2)) [y + 1..<n] b)
           ys (partial_tr n P buf) =
         Inr (partial_tr n (P \<union> {(y, x). y \<in> set ys \<and> y < x \<and> x < n}) buf)"
  using assms(2,3)
proof (induction ys arbitrary: P)
  case Nil
  then show ?case by simp
next
  case (Cons y ys)
  let ?P' = "P \<union> Pair y ` set [y + 1..<n]"
  have "fold_result (\<lambda>x b. swap_px b ((y * n + x) * 2) ((x * n + y) * 2)) [y + 1..<n] (partial_tr n P buf) =
        Inr (partial_tr n ?P' buf)"
    using Cons.prems by (intro inner_swaps [OF assms(1)]) auto
  moreover have "\<forall>y' \<in> set ys. y' < n \<and> (\<forall>x. (y', x) \<notin> ?P')" using Cons.prems by auto
  then have "fold_result (\<lambda>y b. fold_result (\<lambda>x b. swap_px b ((y * n + x) * 2) ((x * n + y) * 2)) [y + 1..<n] b)
               ys (partial_tr n ?P' buf) =
             Inr (partial_tr n (?P' \<union> {(y, x). y \<in> set ys \<and> y < x \<and> x < n}) buf)"
    using Cons.prems by (intro Cons.IH) auto
  moreover have "?P' \<union> {(y', x). y' \<in> set ys \<and> y' < x \<and> x < n} =
                 P \<union> {(y', x). y' \<in> set (y # ys) \<and> y' < x \<and> x < n}" by auto
  ultimately show ?case by simp
qed

lemma partial_tr_empty: "partial_tr n {} buf = buf"
  by (simp add: partial_tr_def moved_def map_nth)

lemma partial_tr_all:
  assumes "length buf = 2 * n * n"
  shows "partial_tr n {(y, x). y \<in> set [0..<n] \<and> y < x \<and> x < n} buf = transpose_ref n buf"
proof (rule nth_equalityI)
  show "length (partial_tr n {(y, x). y \<in> set [0..<n] \<and> y < x \<and> x < n} buf) = length (transpose_ref n buf)"
    by (simp add: partial_tr_def transpose_ref_def)
next
  fix k assume "k < length (partial_tr n {(y, x). y \<in> set [0..<n] \<and> y < x \<and> x < n} buf)"
  then have k: "k < 2 * n * n" using assms by (simp add: partial_tr_def)
  then obtain r c b where rc: "r < n" "c < n" "b < 2" and kk: "k = pidx n r c b" by (rule pidx_split)
  show "partial_tr n {(y, x). y \<in> set [0..<n] \<and> y < x \<and> x < n} buf ! k = transpose_ref n buf ! k"
    using k assms rc by (cases "r = c") (auto simp: kk partial_tr_nth transpose_ref_def min_def max_def)
qed

section \<open>Transposing twice\<close>

lemma transpose_ref_length [simp]: "length (transpose_ref n buf) = length buf"
  by (simp add: transpose_ref_def)

lemma tr_idx_bound: "k < 2 * n * n \<Longrightarrow> tr_idx n k < 2 * n * n"
  by (elim pidx_split) (simp add: pidx_bound)

lemma transpose_ref_twice:
  assumes "length buf = 2 * n * n"
  shows "transpose_ref n (transpose_ref n buf) = buf"
proof (rule nth_equalityI)
  fix k assume "k < length (transpose_ref n (transpose_ref n buf))"
  then have k: "k < 2 * n * n" using assms by simp
  then obtain r c b where rc: "r < n" "c < n" "b < 2" and kk: "k = pidx n r c b" by (rule pidx_split)
  show "transpose_ref n (transpose_ref n buf) ! k = buf ! k"
    using k assms rc tr_idx_bound [OF k] by (simp add: transpose_ref_def kk)
qed simp

lemma transposeImageInPlace_result:
  assumes "fb_width fb = n" and "fb_height fb = n" and "length (fb_buf fb) = 2 * n * n"
  shows "transposeImageInPlace fb = Inr (fb\<lparr>fb_buf := transpose_ref n (fb_buf fb)\<rparr>)"
proof -
  have "fold_result (\<lambda>y b. fold_result (\<lambda>x b. swap_px b ((y * n + x) * 2) ((x * n + y) * 2)) [y + 1..<n] b)
          [0..<n] (partial_tr n {} (fb_buf fb)) =
        Inr (partial_tr n ({} \<union> {(y, x). y \<in> set [0..<n] \<and> y < x \<and> x < n}) (fb_buf fb))"
    using assms(3) by (intro row_swaps) auto
  then show ?thesis using assms partial_tr_all [OF assms(3)]
    by (simp add: transposeImageInPlace_def partial_tr_empty)
qed

text \<open>Transposing a square frame in place twice gives it back.\<close>

lemma transposeImageInPlace_round_trip:
  assumes "fb_width fb = n" and "fb_height fb = n" and "length (fb_buf fb) = 2 * n * n"
  shows "\<exists>fb'. transposeImageInPlace fb = Inr fb' \<and> transposeImageInPlace fb' = Inr fb"
proof -
  let ?fb' = "fb\<lparr>fb_buf := transpose_ref n (fb_buf fb)\<rparr>"
  have "transposeImageInPlace ?fb' = Inr (?fb'\<lparr>fb_buf := transpose_ref n (fb_buf ?fb')\<rparr>)"
    using assms by (intro transposeImageInPlace_result) simp_all
  then show ?thesis using assms transposeImageInPlace_result [OF assms] transpose_ref_twice [OF assms(3)] by simp
qed

section \<open>The copying routine is not a transpose\<close>

text \<open>
  On a 2 by 2 frame \<open>transposeImage\<close> copies bytes 0, 1, 0, 3, 2, 2, 1, 4: \<open>counter\<close> is
  incremented after the copy instead of before, rows are \<open>size\<close> bytes apart instead of
  \<open>size * bytes_per_pixel\<close>, and \<open>start_index\<close> steps by one byte instead of one pixel.  The
  transpose is 0, 1, 4, 5, 2, 3, 6, 7.
\<close>

lemma transposeImage_2x2:
  "transposeImage \<lparr>fb_width = 2, fb_height = 2, fb_buf = [0, 1, 2, 3, 4, 5, 6, 7]\<rparr> 2 =
     Inr \<lparr>fb_width = 2, fb_height = 2, fb_buf = [0, 1, 0, 3, 2, 2, 1, 4]\<rparr>"
  by code_simp

lemma transpose_ref_2x2: "transpose_ref 2 [0, 1, 2, 3, 4, 5, (6 :: 8 word), 7] = [0, 1, 4, 5, 2, 3, 6, 7]"
  by code_simp

text \<open>
  C40: on a square RGB565 frame whose buffer holds its \<open>2 * n * n\<close> bytes,
  \<open>transposeImageInPlace\<close> reads and writes only inside the buffer and leaves in it exactly
  the transpose: every byte comes from the same byte of the pixel at the mirrored row and
  column.
\<close>

theorem transposeImageInPlace_transposes:
  assumes "fb_width fb = n" and "fb_height fb = n" and "length (fb_buf fb) = 2 * n * n"
  shows "transposeImageInPlace fb = Inr (fb\<lparr>fb_buf := transpose_ref n (fb_buf fb)\<rparr>)"
  using assms by (rule transposeImageInPlace_result)

theorem transposeImageInPlace_transposes_witness:
  "transposeImageInPlace \<lparr>fb_width = 2, fb_height = 2, fb_buf = [0, 1, 2, 3, 4, 5, 6, 7]\<rparr> =
     Inr \<lparr>fb_width = 2, fb_height = 2, fb_buf = [0, 1, 4, 5, 2, 3, 6, 7]\<rparr>"
  using transposeImageInPlace_transposes [of "\<lparr>fb_width = 2, fb_height = 2, fb_buf = [0, 1, 2, 3, 4, 5, 6, 7]\<rparr>" 2]
  by (simp add: transpose_ref_2x2)

end
