(* ===== verification/Spec2Isabelle.thy ===== *)
theory Spec2Isabelle
  imports System Image
begin

text \<open>
  \<^bold>\<open>MiniBerryOS: a verification development of its runtime core.\<close>

  MiniBerryOS (src/) is an ESP32 application built on FreeRTOS: a display task draws one
  of ten screens and handles the buttons; permanent workers sample the buttons, system
  data, WiFi and the NTP clock; the camera and SD screens start and stop their own
  workers (frame capture, frame save, file delete).  The tasks share the globals of
  src/globals.cpp and talk through six FreeRTOS queues built by \<open>initQueues\<close>.  This
  development models that core as HOL functions over one record of the globals and
  proves what the code does, including where it does not do what the spec intends.

  \<^bold>\<open>Theories and what they model.\<close>  Each theory imports the ones it builds on;
  \<open>System\<close> composes them and this theory imports \<open>System\<close> and \<open>Image\<close>.
  \<^item> \<open>Prelude\<close>: the \<open>error\<close> values that stand for the undefined behaviour of the C++
    code (out-of-range reads through \<open>c_index\<close>, \<open>vTaskDelete(NULL)\<close> deleting its
    caller, use of a freed frame buffer, \<open>sprintf\<close> overflow, an uninitialised local, a
    non-finite or too large \<open>float\<close> converted to \<open>int\<close> by \<open>c_float_to_int\<close>); the result
    type \<open>error + 'a\<close>; loops that may fail (\<open>map_result\<close>, \<open>fold_result\<close>); C's
    truncating division is \<open>sdiv\<close>; shared list and multiset lemmas.
  \<^item> \<open>Queue\<close>, \<open>Rtos\<close>, \<open>CameraDriver\<close>: the environment's contracts.  FreeRTOS queues
    (\<open>xQueueSend\<close> drop-newest, \<open>xQueueOverwrite\<close>, \<open>xQueueReceive\<close>, zero timeout), the
    task table (\<open>xTaskCreate\<close>, and \<open>vTaskDelete\<close>/\<open>vTaskSuspend\<close> acting on the caller for
    a \<open>NULL\<close> handle), and the esp32-camera driver, whose buffers carry the driver
    incarnation so that a pointer kept across \<open>esp_camera_deinit\<close> is \<open>stale\<close>.
  \<^item> \<open>Globals\<close>: src/globals.h and src/globals.cpp: enums and structs as datatypes and
    records, the configuration macros and screen geometry, the menus, the record \<open>sys\<close>
    of every global (plus the statics of \<open>drawFiles\<close> and \<open>updateGame1\<close>, and the
    environment: task table, camera driver, SD root); \<open>globals_init\<close> and \<open>initQueues\<close>.
  \<^item> \<open>Navigation\<close> (src/button_handlers.cpp): \<open>handleButtonMenu\<close>,
    \<open>handleButtonSimple\<close>, \<open>handleButtonGame\<close> and their receive prologue.
  \<^item> \<open>StatusBar\<close> (src/display.cpp): the display task's own statics as the record
    \<open>display_ui\<close> (\<open>lastButtonIndex\<close>, \<open>prevFps\<close>, \<open>fps\<close>, \<open>prevMin\<close>);
    \<open>drawStatusBar\<close> with its two \<open>float\<close> to \<open>int\<close> conversions and the \<open>sprintf\<close> of the
    clock into \<open>char timeStr[6]\<close> (\<open>fmt_0d\<close> is \<open>%02d\<close>); \<open>drawMenu\<close> with its reads of
    the menu and the button rectangles it lays out; \<open>updateMenuHighlight\<close>.  Floats are
    kept as exact fractions (\<open>c_float\<close>).
  \<^item> \<open>Camera\<close> (src/tasks.cpp, src/display.cpp, src/button_handlers.cpp): the camera
    screen's setup, the capture and save workers, \<open>drawCameraFeed\<close>, \<open>handleButtonCamera\<close>
    with its teardown and drain loop, and frame ownership (\<open>holders\<close>, \<open>balanced\<close>).
  \<^item> \<open>Files\<close>: the SD card screen: \<open>loadFileNames\<close> (src/helpers.cpp), \<open>handleButtonFiles\<close>
    with its clamp, the viewport and row reads of \<open>drawFiles\<close>, \<open>drawImageViewer\<close>, the
    delete worker \<open>deleteFromSDTask\<close> and the SD_CARD case of the display task.
  \<^item> \<open>Workers\<close>: \<open>buttonTask\<close>'s ADC classification, \<open>systemDataTask\<close> with the heap
    history, \<open>initHeapQueue\<close>, \<open>generateXYArrays\<close>, \<open>drawGraph\<close> and \<open>drawSystemData\<close>, and
    \<open>wifiDataTask\<close> with \<open>drawWifi\<close>.
  \<^item> \<open>Game\<close>: \<open>checkCollision\<close> and one frame of \<open>updateGame1\<close> (reset on Back, paddle,
    ball), and the GAME1 case of the display task.
  \<^item> \<open>System\<close>: \<open>setup()\<close> (src/main.cpp) as \<open>setup_main\<close>; one tick of \<open>displayTask\<close>
    (\<open>display_dispatch\<close> over all ten screens, each non-boot case drawing the menu on
    entry, the status bar, and the highlight as the code does, then the frame-rate window
    \<open>fps_update\<close> in 32-bit \<open>millis()\<close> arithmetic, which stores the \<open>fps\<close> value);
    \<open>initWiFi\<close>'s wait for a connection (src/helpers.cpp) as a \<open>partial_function\<close>; \<open>ntpTimeTask\<close>; the \<open>event\<close> datatype of one loop
    iteration of any task with its inputs, \<open>exec_event\<close>, the step relation \<open>step\<close> and
    the reachable outcomes \<open>reach\<close> from a successful boot; \<open>run_events\<close> runs a concrete
    sequence of events.  The abstract navigation contract \<open>nav_spec\<close> is written from
    the spec (section 4.1).
  \<^item> \<open>Image\<close> (src/helpers.cpp): \<open>transposeImage\<close> and \<open>transposeImageInPlace\<close> over a
    frame's width, height and bytes, with the reference transpose \<open>transpose_ref\<close>.

  \<^bold>\<open>Concurrency.\<close>  The program's tasks are preemptive loops.  The model takes one
  loop iteration of a worker, or one tick of the display task, as an atomic step and lets
  any live, unsuspended task take the next step (\<open>may_run\<close>); every queue operation is
  atomic in FreeRTOS.  The races proved (a frame returned twice, a frame leaked) already
  occur at this granularity, so finer interleavings only add more of them.  Delays,
  priorities and the scheduler's choice are not modelled: every order is allowed.  The
  environment's inputs (ADC readings, heap readings, WiFi scans, clock, camera probe and
  SD results) are parameters of the events.

  \<^bold>\<open>What the theorems show.\<close>
  \<^item> Channels: the buffered channels are drop-newest FIFOs, the button channel among them
    (C1).
  \<^item> Boot: \<open>setup()\<close> returns exactly when the six allocations succeed and the WiFi
    connection is eventually made; otherwise it waits forever in \<open>initWiFi\<close> (C2).
  \<^item> Navigation: wrap-around on list screens (C3); no press changes nothing (C4); Select
    with an index outside the menu is an out-of-range read (C5).
  \<^item> Camera lifecycle: the Back teardown (C6); the short-circuit drain leaves a freed frame
    in the save queue (C7) that the next session writes after free (C8); leaks (C9, C11);
    a balanced pipeline without saves (C10); a double return (C12).
  \<^item> End to end: Down, Down, Select, Back through the camera screen, for any clock and
    frame rate the status bar can print (\<open>status_ok\<close>) (C13).
  \<^item> File browser: the clamp keeps the index in range for a non-empty card (C14), not for an
    empty one (C15); the first draw of a short list reads past the vector (C16); the
    viewport invariant (C17); viewer Back orphans the delete worker (C18); deletion (C19),
    which fails for long names (C20); \<open>loadFileNames\<close> against its specification (C21).
  \<^item> Workers: every ADC reading is classified and sent (C22); the heap history keeps every
    other sample (C24); WiFi scans shown (C27) within the array (C28).
  \<^item> Frame rate: \<open>fps_update\<close> computes frames times milliseconds over 1000, the
    inverse of a rate, which equals the rate only for a window of exactly one second (C25).
  \<^item> Whole system: the boot state (C29); by rule induction over \<open>reach\<close>, in every
    reachable state the navigation invariant (C30), the task-handle invariant (C32), the
    shapes of the queues and arrays (C35) and the Pong bounds (C38) hold, and no menu read
    is out of range (C31) and no task deletes itself (C33); a display tick refines the
    navigation contract (C34); the only reachable undefined behaviours are those listed
    in C36 (four of the screens' and three of the status bar's: a frame rate that does not
    fit an \<open>int\<close>, and a clock field that overflows \<open>timeStr\<close>), and
    two of them are reached by concrete runs from boot: the empty card's first draw (C37)
    and the telemetry graph's division by zero (C39).
  \<^item> Liveness: no step suspends a task or deletes a permanent one (\<open>os_keeps\<close>), so in
    every reachable state the display and button tasks can run (\<open>reachable_perm\<close>); from
    the WiFi screen and the games some run of at most five steps returns to the parent
    menu (C23), for every state whose status bar can be printed.  The bound is the button queue's length three plus a Back press and its
    tick.
  \<^item> Round trip: a frame the save worker writes is listed by the next \<open>loadFileNames\<close>
    under its timestamped name (C26).
  \<^item> Image helpers: the in-place transpose is the transpose (C40) and undoes itself
    (\<open>transposeImageInPlace_round_trip\<close>); the copying one is not a transpose
    (\<open>transposeImage_2x2\<close>).

  \<^bold>\<open>Bounds and fuel.\<close>  No definition needs fuel.  The one loop of the code that may
  not end, \<open>initWiFi\<close>'s \<open>while (WiFi.status() != WL_CONNECTED)\<close>, is a
  \<open>partial_function (option)\<close> over the connection status as a function of the poll
  count: it is \<open>None\<close> exactly when no poll ever sees a connection, and C2 proves when
  \<open>setup()\<close> returns.  The other loops of the code are
  structural recursions over lists (the directory loop, the row reads, the graph's loops,
  the transposes), \<open>fun\<close>s whose termination is found automatically (\<open>gen_xy_loop\<close> counts
  up to \<open>NUM_SYS_DATA_POINTS\<close>) or \<open>function\<close>s with a measure (\<open>drain\<close> and
  \<open>teardown_drain\<close> on the length of the display queue, \<open>wifi_fill\<close> on \<open>cnt - i\<close>,
  \<open>wifi_lines\<close> on \<open>MAX_WIFI - i\<close>), so every handler is total.  The task loops themselves never end; they are the steps of
  \<open>reach\<close>.  \<open>millis()\<close>, the heap readings and the ADC value are words of their C width
  (32 and 12 bits); coordinates, indices and counters are \<open>int\<close>, their values being far
  from the 32-bit limits, except where a conversion is checked (\<open>c_float_to_int\<close>).

  \<^bold>\<open>Not modelled.\<close>  The TFT drawing primitives (pixels, text, colours) are outputs
  only: the model keeps what the drawing functions read and write of the program's state
  (the menus, \<open>display_ui\<close>, the rectangles of \<open>drawMenu\<close>), not the pixels;
  \<open>drawCameraButton\<close>, \<open>initGame1\<close> and the games 2 and 3 write no shared state and read
  no array.  WiFi scanning, NTP synchronisation and the SD and camera driver internals are
  collaborators the spec puts out of scope, whose results are inputs of the events (the
  WiFi connection status is the parameter \<open>connected\<close> of \<open>setup_main\<close>); \<open>initNTP\<close>,
  \<open>initSD\<close>, \<open>initTFT\<close> and \<open>printFileNames\<close> only talk to drivers or the serial port.
  \<open>drawGraph\<close>'s single-precision rounding and the \<open>float\<close> frame rate are exact
  fractions; only their conversion to \<open>int\<close> is checked for range.
\<close>

section \<open>End-to-end scenario\<close>

text \<open>
  C13: the spec's end-to-end scenario.  From the menu with the selection at 0, the events
  Down, Down, Select (one per display tick) enter the screen of menu item 2, the camera
  feed, with the menu as previous screen, the selection reset to 0 and the entered flag
  cleared; on the next tick the camera screen sets itself up and handles Back, which
  returns to the menu with the selection 0, the entered flag cleared and the previous
  screen unchanged.
\<close>

theorem menu_camera_round_trip:
  assumes "display_state s = MENU" and "button_index s = 0" and "prev_state s = MENU"
    and "q_items (button_queue s) = []" and "0 < q_len (button_queue s)"
    and "q_items (frame_display_queue s) = []" and "\<not> camera_init s" and "status_ok s"
  shows "\<exists>s1 s2. menu_session main_menu MAIN_MENU_SIZE [DOWN, DOWN, SELECT] s = Inr s1 \<and>
           display_state s1 = next_state (main_menu ! 2) \<and> display_state s1 = CAMERA_FEED \<and>
           prev_state s1 = MENU \<and> button_index s1 = 0 \<and> \<not> menu_init s1 \<and>
           camera_feed_tick probe_ok
             (s1\<lparr>button_queue := snd (xQueueSend (button_queue s1) BACK)\<rparr>) = Inr s2 \<and>
           display_state s2 = MENU \<and> prev_state s2 = MENU \<and> button_index s2 = 0 \<and>
           \<not> menu_init s2"
proof -
  have q: "q_len (button_queue s) \<noteq> 0" using assms(5) by simp
  show ?thesis
    using assms q
    by (simp add: MAIN_MENU_SIZE_def handleButtonMenu_def button_receive_def xQueueSend_def
        menu_down_def main_menu_def camera_feed_tick_def camera_setup_def drawCameraFeed_def
        handleButtonCamera_def camera_teardown_def delete_worker_def drawStatusBar_ok status_ok_def
        split: prod.splits)
qed

theorem menu_camera_round_trip_witness:
  "\<exists>s1 s2. menu_session main_menu MAIN_MENU_SIZE [DOWN, DOWN, SELECT] menu_screen_example = Inr s1 \<and>
     display_state s1 = CAMERA_FEED \<and> prev_state s1 = MENU \<and> button_index s1 = 0 \<and>
     camera_feed_tick True (s1\<lparr>button_queue := snd (xQueueSend (button_queue s1) BACK)\<rparr>) = Inr s2 \<and>
     display_state s2 = MENU \<and> prev_state s2 = MENU \<and> button_index s2 = 0"
proof -
  have "q_items (frame_display_queue menu_screen_example) = []"
    and "\<not> camera_init menu_screen_example" and "status_ok menu_screen_example"
    by (simp_all add: menu_screen_example_def globals_init_def xQueueCreate_def status_ok_def c_float_ok_nonneg
        tm_example_def)
  then show ?thesis
    using menu_camera_round_trip [of menu_screen_example True]
    by simp blast
qed

end
